theory Spec2Isabelle
  imports Main
begin

section \<open>JavaScript values\<close>

text \<open>
  The library handles JSON documents as plain JavaScript values. Numbers are the
  integers the documents hold (identifiers from the millisecond clock, prices, stock
  counts) and \<open>NaN\<close>, the number that an empty form field parses to; strings are
  sequences of 8-bit characters, the range that \<open>btoa\<close> accepts. An object is the
  list of its own properties in enumeration order; a lookup takes the first entry of a
  key.
\<close>

datatype jsval =
    Undefined
  | Null
  | Bool bool
  | Num int
  | NaN
  | Str string
  | Arr "jsval list"
  | Obj "(string \<times> jsval) list"

text \<open>A thrown value: every throw of the library is an \<open>Error\<close> carrying a message;
  the runtime adds \<open>TypeError\<close>. Handlers look at the message only.\<close>

datatype error =
    Error (message: string)
  | TypeError (message: string)
  | SyntaxError (message: string)
  | DOMException (message: string)

type_synonym 'a result = "error + 'a"

text \<open>Decimal rendering of numbers, as template literals produce it.\<close>

definition digit_char :: "nat \<Rightarrow> char" where
  "digit_char d = char_of (48 + d)"

function show_nat :: "nat \<Rightarrow> string" where
  "show_nat n =
     (if n < 10 then [digit_char n]
      else show_nat (n div 10) @ [digit_char (n mod 10)])"
  by pat_completeness auto
termination
  by (relation "measure (\<lambda>n. n)") auto

declare show_nat.simps [simp del]

definition show_int :: "int \<Rightarrow> string" where
  "show_int i = (if i < 0 then ''-'' @ show_nat (nat (- i)) else show_nat (nat i))"

text \<open>Reading a decimal numeral back. A property key is an array index when it is the
  decimal rendering of a number below \<open>2^32 - 1\<close>: JavaScript enumerates the array
  indices of an object first, in ascending order, and its other keys after them, in the
  order of their creation.\<close>

definition is_digit :: "char \<Rightarrow> bool" where
  "is_digit c = (48 \<le> (of_char c :: nat) \<and> (of_char c :: nat) \<le> 57)"

definition digits_value :: "string \<Rightarrow> nat" where
  "digits_value ds = foldl (\<lambda>acc c. 10 * acc + (of_char c - 48)) 0 ds"

definition array_index :: "string \<Rightarrow> nat option" where
  "array_index k =
     (let n = digits_value k in if k = show_nat n \<and> n < 4294967295 then Some n else None)"

definition enumerated_before :: "string \<Rightarrow> string \<Rightarrow> bool" where
  "enumerated_before k k' =
     (case array_index k of
        None \<Rightarrow> False
      | Some i \<Rightarrow> (case array_index k' of None \<Rightarrow> True | Some j \<Rightarrow> i < j))"

text \<open>\<open>String(v)\<close>, the coercion of a template literal \<open>${v}\<close>.\<close>

fun join_with :: "string \<Rightarrow> string list \<Rightarrow> string" where
  "join_with sep [] = []"
| "join_with sep [s] = s"
| "join_with sep (s # t # ss) = s @ sep @ join_with sep (t # ss)"

fun to_string :: "jsval \<Rightarrow> string" where
  "to_string Undefined = ''undefined''"
| "to_string Null = ''null''"
| "to_string (Bool b) = (if b then ''true'' else ''false'')"
| "to_string (Num n) = show_int n"
| "to_string NaN = ''NaN''"
| "to_string (Str s) = s"
| "to_string (Arr xs) =
     join_with '','' (map (\<lambda>x. if x = Null \<or> x = Undefined then [] else to_string x) xs)"
| "to_string (Obj kvs) = ''[object Object]''"

text \<open>Truthiness, as \<open>!v\<close>, \<open>if (v)\<close> and \<open>a || b\<close> test it.\<close>

fun truthy :: "jsval \<Rightarrow> bool" where
  "truthy Undefined = False"
| "truthy Null = False"
| "truthy (Bool b) = b"
| "truthy (Num n) = (n \<noteq> 0)"
| "truthy NaN = False"
| "truthy (Str s) = (s \<noteq> [])"
| "truthy (Arr xs) = True"
| "truthy (Obj kvs) = True"

text \<open>\<open>a === b\<close>. Primitives compare by value, except that \<open>NaN\<close> is equal to
  nothing, itself included. An array or object is equal only to itself as a reference,
  and a value parsed from a response is never the reference the caller holds, so the
  comparison of two such values is false.\<close>

fun strict_eq :: "jsval \<Rightarrow> jsval \<Rightarrow> bool" where
  "strict_eq (Arr xs) b = False"
| "strict_eq (Obj kvs) b = False"
| "strict_eq NaN b = False"
| "strict_eq a b = (a = b)"

text \<open>\<open>v.k\<close> for the property names the library reads (none of them is an index,
  \<open>length\<close> or a prototype member): reading a property of \<open>null\<close> or \<open>undefined\<close>
  throws, an object gives its own property or \<open>undefined\<close>, every other value gives
  \<open>undefined\<close>.\<close>

definition null_read_msg :: "jsval \<Rightarrow> string \<Rightarrow> string" where
  "null_read_msg v k =
     ''Cannot read properties of '' @ to_string v @ '' (reading '' @ [CHR 39] @ k @ [CHR 39] @ '')''"

fun get_prop :: "jsval \<Rightarrow> string \<Rightarrow> jsval result" where
  "get_prop Undefined k = Inl (TypeError (null_read_msg Undefined k))"
| "get_prop Null k = Inl (TypeError (null_read_msg Null k))"
| "get_prop (Obj kvs) k = Inr (case map_of kvs k of None \<Rightarrow> Undefined | Some v \<Rightarrow> v)"
| "get_prop v k = Inr Undefined"

text \<open>The own enumerable properties that an object spread \<open>...v\<close> copies:
  those of an object, the indexed elements of an array or string, nothing for the
  other values.\<close>

fun index_entries :: "nat \<Rightarrow> jsval list \<Rightarrow> (string \<times> jsval) list" where
  "index_entries i [] = []"
| "index_entries i (x # xs) = (show_nat i, x) # index_entries (Suc i) xs"

fun own_entries :: "jsval \<Rightarrow> (string \<times> jsval) list" where
  "own_entries (Obj kvs) = kvs"
| "own_entries (Arr xs) = index_entries 0 xs"
| "own_entries (Str s) = index_entries 0 (map (\<lambda>c. Str [c]) s)"
| "own_entries v = []"

text \<open>Defining a property: an existing key keeps its place and takes the new value,
  a new key goes before the first key that is enumerated after it, and to the end when
  there is none.\<close>

fun set_prop :: "string \<Rightarrow> jsval \<Rightarrow> (string \<times> jsval) list \<Rightarrow> (string \<times> jsval) list" where
  "set_prop k v [] = [(k, v)]"
| "set_prop k v ((k', v') # kvs) =
     (if k' = k then (k, v) # kvs
      else if enumerated_before k k' \<and> k \<notin> fst ` set kvs then (k, v) # (k', v') # kvs
      else (k', v') # set_prop k v kvs)"

text \<open>\<open>{...a, ...b}\<close> where \<open>a\<close> is already a property list.\<close>

fun spread :: "(string \<times> jsval) list \<Rightarrow> (string \<times> jsval) list \<Rightarrow> (string \<times> jsval) list" where
  "spread acc [] = acc"
| "spread acc ((k, v) # kvs) = spread (set_prop k v acc) kvs"

text \<open>\<open>s.includes(sub)\<close>.\<close>

fun str_includes :: "string \<Rightarrow> string \<Rightarrow> bool" where
  "str_includes [] sub = (sub = [])"
| "str_includes (c # cs) sub = (take (length sub) (c # cs) = sub \<or> str_includes cs sub)"

section \<open>The environment: network, clock and built-in codecs\<close>

datatype http_method = GET | POST | PUT

text \<open>What \<open>fetch(url, options)\<close> receives. The body is the value that
  \<open>JSON.stringify\<close> serialises for the wire.\<close>

record request =
  req_method :: http_method
  req_url :: string
  req_headers :: "(string \<times> string) list"
  req_body :: "jsval option"

text \<open>What the library reads of a response: \<open>ok\<close>, \<open>status\<close>, \<open>statusText\<close> and
  the outcome of \<open>response.json()\<close>, which rejects when the body is not JSON.\<close>

record response =
  resp_ok :: bool
  resp_status :: nat
  resp_statusText :: string
  resp_json :: "jsval result"

text \<open>
  The collaborators the library calls but does not define: the remote end behind
  \<open>fetch\<close> (a transition on a world \<open>'w\<close>, which may also reject), the clock
  (\<open>Date.now()\<close>, \<open>new Date().toISOString()\<close>) and the built-ins
  \<open>JSON.stringify(v, null, 2)\<close> (\<open>None\<close> is \<open>undefined\<close>), \<open>btoa\<close>, \<open>atob\<close> and
  \<open>JSON.parse\<close>, each of which may throw.
\<close>

record 'w env =
  fetch :: "'w \<Rightarrow> request \<Rightarrow> response result \<times> 'w"
  date_now :: "'w \<Rightarrow> int"
  iso_now :: "'w \<Rightarrow> string"
  json_stringify :: "jsval \<Rightarrow> string option"
  btoa :: "string \<Rightarrow> string result"
  atob :: "string \<Rightarrow> string result"
  json_parse :: "string \<Rightarrow> jsval result"

text \<open>The state an operation runs in: the world, and the requests sent so far.\<close>

record 'w state =
  world :: 'w
  sent :: "request list"

definition do_fetch :: "'w env \<Rightarrow> request \<Rightarrow> 'w state \<Rightarrow> response result \<times> 'w state" where
  "do_fetch E req st =
     (case fetch E (world st) req of
        (r, w') \<Rightarrow> (r, \<lparr>world = w', sent = sent st @ [req]\<rparr>))"

text \<open>Sequencing of awaited steps: a thrown error skips what follows.\<close>

fun and_then :: "'a result \<times> 's \<Rightarrow> ('a \<Rightarrow> 's \<Rightarrow> 'b result \<times> 's) \<Rightarrow> 'b result \<times> 's" where
  "and_then (Inl e, s) f = (Inl e, s)"
| "and_then (Inr x, s) f = f x s"

text \<open>\<open>try { body } catch (error) { throw new Error(prefix + error.message) }\<close>.\<close>

fun rewrap :: "string \<Rightarrow> 'a result \<times> 's \<Rightarrow> 'a result \<times> 's" where
  "rewrap pre (Inl e, s) = (Inl (Error (pre @ message e)), s)"
| "rewrap pre (Inr x, s) = (Inr x, s)"

section \<open>The client\<close>

record config =
  username :: string
  repo :: string
  token :: "string option"

definition baseUrl :: string where
  "baseUrl = ''https://api.github.com''"

definition contents_url :: "config \<Rightarrow> string \<Rightarrow> string" where
  "contents_url cfg path =
     baseUrl @ ''/repos/'' @ username cfg @ ''/'' @ repo cfg @ ''/contents/'' @ path"

definition token_set :: "config \<Rightarrow> bool" where
  "token_set cfg = (case token cfg of None \<Rightarrow> False | Some t \<Rightarrow> t \<noteq> [])"

definition request_headers :: "config \<Rightarrow> (string \<times> string) list" where
  "request_headers cfg =
     [(''Authorization'', ''token '' @ (case token cfg of None \<Rightarrow> ''null'' | Some t \<Rightarrow> t)),
      (''Accept'', ''application/vnd.github.v3+json''),
      (''Content-Type'', ''application/json'')]"

definition build_request :: "config \<Rightarrow> string \<Rightarrow> http_method \<Rightarrow> jsval \<Rightarrow> request" where
  "build_request cfg path m data =
     \<lparr>req_method = m, req_url = contents_url cfg path, req_headers = request_headers cfg,
      req_body = (if truthy data \<and> (m = POST \<or> m = PUT) then Some data else None)\<rparr>"

text \<open>The message of the error thrown for a response that is not ok:
  \<open>errorData\<close> is the parsed body, or \<open>{}\<close> when parsing it fails.\<close>

definition remote_error :: "nat \<Rightarrow> string \<Rightarrow> error" where
  "remote_error status msg = Error (''GitHub API Error: '' @ show_nat status @ '' - '' @ msg)"

definition api_error :: "response \<Rightarrow> error" where
  "api_error resp =
     (let errorData = (case resp_json resp of Inl e \<Rightarrow> Obj [] | Inr v \<Rightarrow> v) in
      case get_prop errorData ''message'' of
        Inl e \<Rightarrow> e
      | Inr m \<Rightarrow>
          remote_error (resp_status resp)
            (if truthy m then to_string m else resp_statusText resp))"

definition makeRequest ::
  "'w env \<Rightarrow> config \<Rightarrow> string \<Rightarrow> http_method \<Rightarrow> jsval \<Rightarrow> 'w state \<Rightarrow> jsval result \<times> 'w state" where
  "makeRequest E cfg path m data st =
     (if \<not> token_set cfg then (Inl (Error ''GitHub token not configured''), st)
      else
        and_then (do_fetch E (build_request cfg path m data) st)
          (\<lambda>resp st'. if \<not> resp_ok resp then (Inl (api_error resp), st')
                       else (resp_json resp, st')))"

text \<open>The handler shared by \<open>getFile\<close> and \<open>saveFile\<close>:
  \<open>catch (error) { if (error.message.includes('404')) { ... } throw error; }\<close>.\<close>

definition is_404 :: "error \<Rightarrow> bool" where
  "is_404 e = str_includes (message e) ''404''"

subsection \<open>Built-in default documents\<close>

definition product_record ::
  "int \<Rightarrow> string \<Rightarrow> int \<Rightarrow> int \<Rightarrow> int \<Rightarrow> int \<Rightarrow> string \<Rightarrow> string \<Rightarrow> jsval" where
  "product_record i n c p s d img descr =
     Obj [(''id'', Num i), (''name'', Str n), (''categoryId'', Num c), (''price'', Num p),
          (''stock'', Num s), (''discount'', Num d), (''image'', Str img),
          (''description'', Str descr)]"

definition unsplash :: "string \<Rightarrow> string" where
  "unsplash photo =
     ''https://images.unsplash.com/photo-'' @ photo @
     ''?ixlib=rb-4.0.3&ixid=M3wxMjA3fDB8MHxwaG90by1wYWdlfHx8fGVufDB8fHx8fA%3D%3D&auto=format&fit=crop&w=1000&q=80''"

definition default_products :: "jsval list" where
  "default_products =
     [product_record 1 ''Roti Tawar Premium'' 1 25000 50 0
        (unsplash ''1509440159596-0249088772ff'') ''Roti tawar lembut dengan kualitas premium'',
      product_record 2 ''Croissant Butter'' 1 18000 30 10
        (unsplash ''1555507032-abfa424c5b2d'') ''Croissant butter yang renyah dan lezat'',
      product_record 3 ''Donat Glaze'' 2 12000 25 0
        (unsplash ''1551024601-bec78aea704b'') ''Donat dengan glaze manis'',
      product_record 4 ''Brownies Coklat'' 2 35000 20 15
        (unsplash ''1606313564200-e75d5e30476c'') ''Brownies coklat yang lembut dan moist'',
      product_record 5 ''French Baguette'' 1 22000 15 0
        (unsplash ''1586444248902-2f64eddc13df'') ''Baguette Perancis yang autentik'']"

definition category_record :: "int \<Rightarrow> string \<Rightarrow> string \<Rightarrow> jsval" where
  "category_record i n descr =
     Obj [(''id'', Num i), (''name'', Str n), (''description'', Str descr)]"

definition default_categories :: "jsval list" where
  "default_categories =
     [category_record 1 ''Roti'' ''Berbagai macam roti segar'',
      category_record 2 ''Kue'' ''Aneka kue manis dan lezat'',
      category_record 3 ''Pastry'' ''Pastry premium dengan rasa internasional'']"

definition default_website :: jsval where
  "default_website =
     Obj [(''name'', Str ''DJANDES Bakery''),
          (''email'', Str ''info@djandesbakery.com''),
          (''phone'', Str ''+62 21 1234 5678''),
          (''address'', Str ''Jl. Bakery No. 123, Jakarta, Indonesia''),
          (''description'', Str (''DJANDES Bakery telah melayani pelanggan sejak 2010 dengan komitmen '' @
             ''untuk memberikan produk roti dan kue berkualitas tinggi.''))]"

definition getDefaultData :: "string \<Rightarrow> jsval" where
  "getDefaultData path =
     (if path = ''data/products.json'' then Arr default_products
      else if path = ''data/categories.json'' then Arr default_categories
      else if path = ''data/orders.json'' then Arr []
      else if path = ''data/contacts.json'' then Arr []
      else if path = ''data/website.json'' then default_website
      else Null)"

subsection \<open>Reading and writing a document\<close>

text \<open>The body of the \<open>try\<close> block of \<open>getFile\<close>.\<close>

definition getFile_try :: "'w env \<Rightarrow> config \<Rightarrow> string \<Rightarrow> 'w state \<Rightarrow> jsval result \<times> 'w state" where
  "getFile_try E cfg path st =
     and_then (makeRequest E cfg path GET Null st)
       (\<lambda>response st'.
          (case get_prop response ''content'' of
             Inl e \<Rightarrow> Inl e
           | Inr c \<Rightarrow>
               (case atob E (to_string c) of
                  Inl e \<Rightarrow> Inl e
                | Inr content \<Rightarrow> json_parse E content),
           st'))"

definition getFile :: "'w env \<Rightarrow> config \<Rightarrow> string \<Rightarrow> 'w state \<Rightarrow> jsval result \<times> 'w state" where
  "getFile E cfg path st =
     (case getFile_try E cfg path st of
        (Inr v, st') \<Rightarrow> (Inr v, st')
      | (Inl e, st') \<Rightarrow>
          if is_404 e then (Inr (getDefaultData path), st') else (Inl e, st'))"

text \<open>The argument of \<open>btoa\<close>: \<open>JSON.stringify(data, null, 2)\<close>, coerced to a string.\<close>

definition content_text :: "'w env \<Rightarrow> jsval \<Rightarrow> string" where
  "content_text E data = (case json_stringify E data of None \<Rightarrow> ''undefined'' | Some s \<Rightarrow> s)"

definition put_body :: "string \<Rightarrow> string \<Rightarrow> jsval \<Rightarrow> jsval" where
  "put_body msg encodedContent sha =
     Obj [(''message'', Str msg), (''content'', Str encodedContent), (''sha'', sha)]"

definition post_body :: "string \<Rightarrow> string \<Rightarrow> jsval" where
  "post_body msg encodedContent =
     Obj [(''message'', Str msg), (''content'', Str encodedContent)]"

text \<open>The body of the \<open>try\<close> block of \<open>saveFile\<close>: the read of the existing file,
  then the PUT.\<close>

definition saveFile_try ::
  "'w env \<Rightarrow> config \<Rightarrow> string \<Rightarrow> string \<Rightarrow> string \<Rightarrow> 'w state \<Rightarrow> jsval result \<times> 'w state" where
  "saveFile_try E cfg path msg encodedContent st =
     and_then (makeRequest E cfg path GET Null st)
       (\<lambda>existingFile st'.
          (case get_prop existingFile ''sha'' of
             Inl e \<Rightarrow> (Inl e, st')
           | Inr sha \<Rightarrow> makeRequest E cfg path PUT (put_body msg encodedContent sha) st'))"

text \<open>\<open>saveFile(path, data, message)\<close>; the message \<open>None\<close> is an omitted argument,
  which takes the default \<open>Update ${path}\<close>.\<close>

definition saveFile ::
  "'w env \<Rightarrow> config \<Rightarrow> string \<Rightarrow> jsval \<Rightarrow> string option \<Rightarrow> 'w state \<Rightarrow> jsval result \<times> 'w state" where
  "saveFile E cfg path data message_arg st =
     (let msg = (case message_arg of None \<Rightarrow> ''Update '' @ path | Some m \<Rightarrow> m) in
      case btoa E (content_text E data) of
        Inl e \<Rightarrow> (Inl e, st)
      | Inr encodedContent \<Rightarrow>
          (case saveFile_try E cfg path msg encodedContent st of
             (Inr r, st') \<Rightarrow> (Inr r, st')
           | (Inl e, st') \<Rightarrow>
               if is_404 e then makeRequest E cfg path POST (post_body msg encodedContent) st'
               else (Inl e, st')))"

subsection \<open>Array methods on a document\<close>

text \<open>\<open>name.method(...)\<close> on a value that is not an array: \<open>null\<close> has no
  properties, and no other JSON value has the method.\<close>

definition no_method :: "string \<Rightarrow> string \<Rightarrow> jsval \<Rightarrow> error" where
  "no_method name meth v =
     (if v = Null \<or> v = Undefined then TypeError (null_read_msg v meth)
      else TypeError (name @ ''.'' @ meth @ '' is not a function''))"

text \<open>\<open>xs.findIndex(p => p.id === wanted)\<close>, counting from \<open>i\<close>; \<open>None\<close> is -1.\<close>

fun findIndex_id :: "nat \<Rightarrow> jsval list \<Rightarrow> jsval \<Rightarrow> nat option result" where
  "findIndex_id i [] wanted = Inr None"
| "findIndex_id i (p # ps) wanted =
     (case get_prop p ''id'' of
        Inl e \<Rightarrow> Inl e
      | Inr v \<Rightarrow> if strict_eq v wanted then Inr (Some i) else findIndex_id (Suc i) ps wanted)"

text \<open>\<open>xs.filter(p => p.id !== unwanted)\<close>.\<close>

fun filter_id :: "jsval list \<Rightarrow> jsval \<Rightarrow> jsval list result" where
  "filter_id [] unwanted = Inr []"
| "filter_id (p # ps) unwanted =
     (case get_prop p ''id'' of
        Inl e \<Rightarrow> Inl e
      | Inr v \<Rightarrow>
          (case filter_id ps unwanted of
             Inl e \<Rightarrow> Inl e
           | Inr r \<Rightarrow> Inr (if \<not> strict_eq v unwanted then p # r else r)))"

definition lift :: "'a result \<Rightarrow> 's \<Rightarrow> 'a result \<times> 's" where
  "lift r s = (r, s)"

subsection \<open>Entity operations\<close>

text \<open>The operations on products and categories differ in the path, the variable
  name and the messages only; each pair shares one body here.\<close>

definition add_record ::
  "'w env \<Rightarrow> config \<Rightarrow> string \<Rightarrow> string \<Rightarrow> string \<Rightarrow> jsval \<Rightarrow> 'w state \<Rightarrow> jsval result \<times> 'w state" where
  "add_record E cfg path name msg recordData st =
     and_then (getFile E cfg path st)
       (\<lambda>records st1.
          let newRecord = Obj (spread [(''id'', Num (date_now E (world st1)))] (own_entries recordData)) in
          case records of
            Arr xs \<Rightarrow>
              and_then (saveFile E cfg path (Arr (xs @ [newRecord])) (Some msg) st1)
                (\<lambda>_ st2. (Inr newRecord, st2))
          | _ \<Rightarrow> (Inl (no_method name ''push'' records), st1))"

definition update_record ::
  "'w env \<Rightarrow> config \<Rightarrow> string \<Rightarrow> string \<Rightarrow> string \<Rightarrow> string \<Rightarrow> jsval \<Rightarrow> jsval \<Rightarrow> 'w state
   \<Rightarrow> jsval result \<times> 'w state" where
  "update_record E cfg path name missing msg recordId recordData st =
     and_then (getFile E cfg path st)
       (\<lambda>records st1.
          case records of
            Arr xs \<Rightarrow>
              (case findIndex_id 0 xs recordId of
                 Inl e \<Rightarrow> (Inl e, st1)
               | Inr None \<Rightarrow> (Inl (Error missing), st1)
               | Inr (Some index) \<Rightarrow>
                   (let merged = Obj (spread (spread [] (own_entries (xs ! index)))
                                        (own_entries recordData)) in
                    and_then (saveFile E cfg path (Arr (xs[index := merged]))
                                (Some (msg @ to_string recordId)) st1)
                      (\<lambda>_ st2. (Inr merged, st2))))
          | _ \<Rightarrow> (Inl (no_method name ''findIndex'' records), st1))"

definition delete_record ::
  "'w env \<Rightarrow> config \<Rightarrow> string \<Rightarrow> string \<Rightarrow> string \<Rightarrow> jsval \<Rightarrow> 'w state \<Rightarrow> jsval result \<times> 'w state" where
  "delete_record E cfg path name msg recordId st =
     and_then (getFile E cfg path st)
       (\<lambda>records st1.
          case records of
            Arr xs \<Rightarrow>
              (case filter_id xs recordId of
                 Inl e \<Rightarrow> (Inl e, st1)
               | Inr filtered \<Rightarrow>
                   and_then (saveFile E cfg path (Arr filtered) (Some (msg @ to_string recordId)) st1)
                     (\<lambda>_ st2. (Inr (Bool True), st2)))
          | _ \<Rightarrow> (Inl (no_method name ''filter'' records), st1))"


definition getProducts :: "'w env \<Rightarrow> config \<Rightarrow> 'w state \<Rightarrow> jsval result \<times> 'w state" where
  "getProducts E cfg st = getFile E cfg ''data/products.json'' st"

definition addProduct :: "'w env \<Rightarrow> config \<Rightarrow> jsval \<Rightarrow> 'w state \<Rightarrow> jsval result \<times> 'w state" where
  "addProduct E cfg productData st =
     add_record E cfg ''data/products.json'' ''products'' ''Add new product'' productData st"

definition updateProduct ::
  "'w env \<Rightarrow> config \<Rightarrow> jsval \<Rightarrow> jsval \<Rightarrow> 'w state \<Rightarrow> jsval result \<times> 'w state" where
  "updateProduct E cfg productId productData st =
     update_record E cfg ''data/products.json'' ''products'' ''Product not found''
       ''Update product '' productId productData st"

definition deleteProduct :: "'w env \<Rightarrow> config \<Rightarrow> jsval \<Rightarrow> 'w state \<Rightarrow> jsval result \<times> 'w state" where
  "deleteProduct E cfg productId st =
     delete_record E cfg ''data/products.json'' ''products'' ''Delete product '' productId st"

definition getCategories :: "'w env \<Rightarrow> config \<Rightarrow> 'w state \<Rightarrow> jsval result \<times> 'w state" where
  "getCategories E cfg st = getFile E cfg ''data/categories.json'' st"

definition addCategory :: "'w env \<Rightarrow> config \<Rightarrow> jsval \<Rightarrow> 'w state \<Rightarrow> jsval result \<times> 'w state" where
  "addCategory E cfg categoryData st =
     add_record E cfg ''data/categories.json'' ''categories'' ''Add new category'' categoryData st"

definition updateCategory ::
  "'w env \<Rightarrow> config \<Rightarrow> jsval \<Rightarrow> jsval \<Rightarrow> 'w state \<Rightarrow> jsval result \<times> 'w state" where
  "updateCategory E cfg categoryId categoryData st =
     update_record E cfg ''data/categories.json'' ''categories'' ''Category not found''
       ''Update category '' categoryId categoryData st"

definition deleteCategory :: "'w env \<Rightarrow> config \<Rightarrow> jsval \<Rightarrow> 'w state \<Rightarrow> jsval result \<times> 'w state" where
  "deleteCategory E cfg categoryId st =
     delete_record E cfg ''data/categories.json'' ''categories'' ''Delete category '' categoryId st"

definition getOrders :: "'w env \<Rightarrow> config \<Rightarrow> 'w state \<Rightarrow> jsval result \<times> 'w state" where
  "getOrders E cfg st = getFile E cfg ''data/orders.json'' st"


definition getContacts :: "'w env \<Rightarrow> config \<Rightarrow> 'w state \<Rightarrow> jsval result \<times> 'w state" where
  "getContacts E cfg st = getFile E cfg ''data/contacts.json'' st"


definition deleteContact :: "'w env \<Rightarrow> config \<Rightarrow> jsval \<Rightarrow> 'w state \<Rightarrow> jsval result \<times> 'w state" where
  "deleteContact E cfg contactId st =
     delete_record E cfg ''data/contacts.json'' ''contacts'' ''Delete contact '' contactId st"

definition getWebsiteConfig :: "'w env \<Rightarrow> config \<Rightarrow> 'w state \<Rightarrow> jsval result \<times> 'w state" where
  "getWebsiteConfig E cfg st = getFile E cfg ''data/website.json'' st"

subsection \<open>Bulk operations\<close>

definition restoreData :: "'w env \<Rightarrow> config \<Rightarrow> string \<Rightarrow> 'w state \<Rightarrow> jsval result \<times> 'w state" where
  "restoreData E cfg backupPath st =
     rewrap ''Failed to restore backup: ''
       (and_then (getFile E cfg backupPath st) (\<lambda>backup st.
        and_then (lift (get_prop backup ''products'') st) (\<lambda>products st.
        and_then (saveFile E cfg ''data/products.json'' products
                    (Some ''Restore products from backup'') st) (\<lambda>_ st.
        and_then (lift (get_prop backup ''categories'') st) (\<lambda>categories st.
        and_then (saveFile E cfg ''data/categories.json'' categories
                    (Some ''Restore categories from backup'') st) (\<lambda>_ st.
        and_then (lift (get_prop backup ''orders'') st) (\<lambda>orders st.
        and_then (saveFile E cfg ''data/orders.json'' orders
                    (Some ''Restore orders from backup'') st) (\<lambda>_ st.
        and_then (lift (get_prop backup ''contacts'') st) (\<lambda>contacts st.
        and_then (saveFile E cfg ''data/contacts.json'' contacts
                    (Some ''Restore contacts from backup'') st) (\<lambda>_ st.
        and_then (lift (get_prop backup ''website'') st) (\<lambda>website st.
        and_then (saveFile E cfg ''data/website.json'' website
                    (Some ''Restore website config from backup'') st) (\<lambda>_ st.
        and_then (lift (get_prop backup ''timestamp'') st) (\<lambda>timestamp st.
          (Inr (Obj [(''success'', Bool True), (''timestamp'', timestamp)]), st))))))))))))))"

definition exportData :: "'w env \<Rightarrow> config \<Rightarrow> 'w state \<Rightarrow> jsval result \<times> 'w state" where
  "exportData E cfg st =
     rewrap ''Failed to export data: ''
       (let timestamp = iso_now E (world st) in
        and_then (getProducts E cfg st) (\<lambda>products st.
        and_then (getCategories E cfg st) (\<lambda>categories st.
        and_then (getOrders E cfg st) (\<lambda>orders st.
        and_then (getContacts E cfg st) (\<lambda>contacts st.
        and_then (getWebsiteConfig E cfg st) (\<lambda>website st.
          (Inr (Obj [(''timestamp'', Str timestamp), (''products'', products),
                     (''categories'', categories), (''orders'', orders),
                     (''contacts'', contacts), (''website'', website)]), st)))))))"

text \<open>\<open>if (importData.k) { await this.saveFile(path, importData.k, msg); }\<close>; the argument \<open>importData\<close> of the source is \<open>payload\<close> here.\<close>

definition save_if_present ::
  "'w env \<Rightarrow> config \<Rightarrow> jsval \<Rightarrow> string \<Rightarrow> string \<Rightarrow> string \<Rightarrow> 'w state \<Rightarrow> jsval result \<times> 'w state" where
  "save_if_present E cfg payload k path msg st =
     and_then (lift (get_prop payload k) st) (\<lambda>v st.
       if truthy v then saveFile E cfg path v (Some msg) st else (Inr Undefined, st))"

definition importData :: "'w env \<Rightarrow> config \<Rightarrow> jsval \<Rightarrow> 'w state \<Rightarrow> jsval result \<times> 'w state" where
  "importData E cfg payload st =
     rewrap ''Failed to import data: ''
       (and_then (lift (get_prop payload ''products'') st) (\<lambda>products st.
        and_then (if \<not> truthy products then (Inr True, st)
                  else and_then (lift (get_prop payload ''categories'') st)
                         (\<lambda>categories st. (Inr (\<not> truthy categories), st))) (\<lambda>invalid st.
        if invalid then (Inl (Error ''Invalid import data format''), st)
        else
        and_then (saveFile E cfg ''data/products.json'' products (Some ''Import products'') st) (\<lambda>_ st.
        and_then (lift (get_prop payload ''categories'') st) (\<lambda>categories st.
        and_then (saveFile E cfg ''data/categories.json'' categories
                    (Some ''Import categories'') st) (\<lambda>_ st.
        and_then (save_if_present E cfg payload ''orders'' ''data/orders.json''
                    ''Import orders'' st) (\<lambda>_ st.
        and_then (save_if_present E cfg payload ''contacts'' ''data/contacts.json''
                    ''Import contacts'' st) (\<lambda>_ st.
        and_then (save_if_present E cfg payload ''website'' ''data/website.json''
                    ''Import website config'' st) (\<lambda>_ st.
          (Inr (Obj [(''success'', Bool True),
                     (''message'', Str ''Data imported successfully'')]), st))))))))))"

section \<open>A reference environment\<close>

text \<open>
  The built-ins and the remote end are not part of the library. The definitions below
  give one environment to run it in: the JSON and base64 codecs on integer-valued
  documents with Latin-1 strings, and an in-memory contents store.
\<close>

subsection \<open>JSON.stringify(v, null, 2)\<close>

definition hex_digit :: "nat \<Rightarrow> char" where
  "hex_digit n = (if n < 10 then char_of (48 + n) else char_of (87 + n))"

definition escape_char :: "char \<Rightarrow> string" where
  "escape_char c =
     (if c = CHR 34 then [CHR 92, CHR 34]
      else if c = CHR 92 then [CHR 92, CHR 92]
      else if c = CHR 8 then [CHR 92, CHR ''b'']
      else if c = CHR 12 then [CHR 92, CHR ''f'']
      else if c = CHR 10 then [CHR 92, CHR ''n'']
      else if c = CHR 13 then [CHR 92, CHR ''r'']
      else if c = CHR 9 then [CHR 92, CHR ''t'']
      else if (of_char c :: nat) < 32
        then [CHR 92, CHR ''u'', CHR ''0'', CHR ''0'', hex_digit (of_char c div 16), hex_digit (of_char c mod 16)]
      else [c])"

definition quote :: "string \<Rightarrow> string" where
  "quote s = [CHR 34] @ concat (map escape_char s) @ [CHR 34]"

definition indent :: "nat \<Rightarrow> string" where
  "indent n = replicate (2 * n) CHR '' ''"

definition bracket :: "char \<Rightarrow> char \<Rightarrow> nat \<Rightarrow> string list \<Rightarrow> string" where
  "bracket l r n items =
     (if items = [] then [l, r]
      else [l, CHR 10] @ indent (Suc n) @ join_with ([CHR '','', CHR 10] @ indent (Suc n)) items
           @ [CHR 10] @ indent n @ [r])"

fun stringify_at :: "nat \<Rightarrow> jsval \<Rightarrow> string" where
  "stringify_at n Undefined = ''null''"
| "stringify_at n Null = ''null''"
| "stringify_at n (Bool b) = (if b then ''true'' else ''false'')"
| "stringify_at n (Num i) = show_int i"
| "stringify_at n NaN = ''null''"
| "stringify_at n (Str s) = quote s"
| "stringify_at n (Arr xs) = bracket CHR ''['' CHR '']'' n (map (stringify_at (Suc n)) xs)"
| "stringify_at n (Obj kvs) =
     bracket CHR ''{'' CHR ''}'' n
       (map (\<lambda>(k, v). quote k @ '': '' @ stringify_at (Suc n) v)
          (filter (\<lambda>(k, v). v \<noteq> Undefined) kvs))"

definition stringify2 :: "jsval \<Rightarrow> string option" where
  "stringify2 v = (if v = Undefined then None else Some (stringify_at 0 v))"


subsection \<open>JSON.parse\<close>

definition is_ws :: "char \<Rightarrow> bool" where
  "is_ws c = (c = CHR '' '' \<or> c = CHR 10 \<or> c = CHR 13 \<or> c = CHR 9)"

definition skip_ws :: "string \<Rightarrow> string" where
  "skip_ws s = dropWhile is_ws s"

definition hex_value :: "char \<Rightarrow> nat option" where
  "hex_value c =
     (let n = (of_char c :: nat) in
      if 48 \<le> n \<and> n \<le> 57 then Some (n - 48)
      else if 97 \<le> n \<and> n \<le> 102 then Some (n - 87)
      else if 65 \<le> n \<and> n \<le> 70 then Some (n - 55)
      else None)"

text \<open>The text after an opening quote, up to the closing one.\<close>

fun parse_chars :: "string \<Rightarrow> (string \<times> string) option" where
  "parse_chars [] = None"
| "parse_chars (c # cs) =
     (if c = CHR 34 then Some ([], cs)
      else if c = CHR 92 then
        (case cs of
           [] \<Rightarrow> None
         | e # r \<Rightarrow>
             (if e = CHR ''u'' then
                (case r of
                   a # b # x # y # r' \<Rightarrow>
                     (case (hex_value a, hex_value b, hex_value x, hex_value y) of
                        (Some 0, Some 0, Some h, Some l) \<Rightarrow>
                          map_option (\<lambda>(t, u). (char_of (16 * h + l) # t, u)) (parse_chars r')
                      | _ \<Rightarrow> None)
                 | _ \<Rightarrow> None)
              else
                (case (if e = CHR 34 then Some (CHR 34)
                       else if e = CHR 92 then Some (CHR 92)
                       else if e = CHR ''/'' then Some (CHR ''/'')
                       else if e = CHR ''b'' then Some (CHR 8)
                       else if e = CHR ''f'' then Some (CHR 12)
                       else if e = CHR ''n'' then Some (CHR 10)
                       else if e = CHR ''r'' then Some (CHR 13)
                       else if e = CHR ''t'' then Some (CHR 9)
                       else None) of
                   None \<Rightarrow> None
                 | Some d \<Rightarrow> map_option (\<lambda>(t, u). (d # t, u)) (parse_chars r))))
      else if (of_char c :: nat) < 32 then None
      else map_option (\<lambda>(t, u). (c # t, u)) (parse_chars cs))"

definition parse_number :: "string \<Rightarrow> (jsval \<times> string) option" where
  "parse_number s =
     (let neg = (s \<noteq> [] \<and> hd s = CHR ''-'');
          body = (if neg then tl s else s);
          ds = takeWhile is_digit body;
          r = dropWhile is_digit body
      in if ds = [] \<or> (length ds > 1 \<and> hd ds = CHR ''0'') then None
         else if r \<noteq> [] \<and> (hd r = CHR ''.'' \<or> hd r = CHR ''e'' \<or> hd r = CHR ''E'') then None
         else Some (Num (if neg then - int (digits_value ds) else int (digits_value ds)), r))"

fun parse_value :: "nat \<Rightarrow> string \<Rightarrow> (jsval \<times> string) option"
  and parse_elements :: "nat \<Rightarrow> jsval list \<Rightarrow> string \<Rightarrow> (jsval \<times> string) option"
  and parse_members :: "nat \<Rightarrow> (string \<times> jsval) list \<Rightarrow> string \<Rightarrow> (jsval \<times> string) option"
where
  "parse_value 0 s = None"
| "parse_value (Suc n) s =
     (case skip_ws s of
        [] \<Rightarrow> None
      | c # cs \<Rightarrow>
          if c = CHR ''['' then
            (case skip_ws cs of
               [] \<Rightarrow> None
             | d # ds \<Rightarrow> if d = CHR '']'' then Some (Arr [], ds) else parse_elements n [] cs)
          else if c = CHR ''{'' then
            (case skip_ws cs of
               [] \<Rightarrow> None
             | d # ds \<Rightarrow> if d = CHR ''}'' then Some (Obj [], ds) else parse_members n [] cs)
          else if c = CHR 34 then map_option (\<lambda>(t, u). (Str t, u)) (parse_chars cs)
          else if take 4 (c # cs) = ''null'' then Some (Null, drop 4 (c # cs))
          else if take 4 (c # cs) = ''true'' then Some (Bool True, drop 4 (c # cs))
          else if take 5 (c # cs) = ''false'' then Some (Bool False, drop 5 (c # cs))
          else parse_number (c # cs))"
| "parse_elements 0 acc s = None"
| "parse_elements (Suc n) acc s =
     (case parse_value n s of
        None \<Rightarrow> None
      | Some (v, r) \<Rightarrow>
          (case skip_ws r of
             [] \<Rightarrow> None
           | c # cs \<Rightarrow>
               if c = CHR '','' then parse_elements n (acc @ [v]) cs
               else if c = CHR '']'' then Some (Arr (acc @ [v]), cs)
               else None))"
| "parse_members 0 acc s = None"
| "parse_members (Suc n) acc s =
     (case skip_ws s of
        [] \<Rightarrow> None
      | q # qs \<Rightarrow>
          if q \<noteq> CHR 34 then None
          else
            (case parse_chars qs of
               None \<Rightarrow> None
             | Some (k, r) \<Rightarrow>
                 (case skip_ws r of
                    [] \<Rightarrow> None
                  | c # cs \<Rightarrow>
                      if c \<noteq> CHR '':'' then None
                      else
                        (case parse_value n cs of
                           None \<Rightarrow> None
                         | Some (v, r') \<Rightarrow>
                             (case skip_ws r' of
                                [] \<Rightarrow> None
                              | d # ds \<Rightarrow>
                                  if d = CHR '','' then parse_members n (set_prop k v acc) ds
                                  else if d = CHR ''}'' then Some (Obj (set_prop k v acc), ds)
                                  else None)))))"

definition parse_json :: "string \<Rightarrow> jsval result" where
  "parse_json s =
     (case parse_value (Suc (length s)) s of
        None \<Rightarrow> Inl (SyntaxError ''Unexpected token in JSON'')
      | Some (v, r) \<Rightarrow>
          if skip_ws r = [] then Inr v else Inl (SyntaxError ''Unexpected token in JSON''))"

subsection \<open>btoa and atob\<close>

text \<open>The alphabet \<open>A-Z\<close>, \<open>a-z\<close>, \<open>0-9\<close>, \<open>+\<close>, \<open>/\<close>, by character code.\<close>

definition b64_char :: "nat \<Rightarrow> char" where
  "b64_char n =
     (if n < 26 then char_of (65 + n)
      else if n < 52 then char_of (71 + n)
      else if n < 62 then char_of (n - 4)
      else if n = 62 then CHR ''+''
      else CHR ''/'')"

fun b64_encode :: "nat list \<Rightarrow> string" where
  "b64_encode [] = []"
| "b64_encode [a] = [b64_char (a div 4), b64_char ((a mod 4) * 16), CHR ''='', CHR ''='']"
| "b64_encode [a, b] =
     [b64_char (a div 4), b64_char ((a mod 4) * 16 + b div 16), b64_char ((b mod 16) * 4), CHR ''='']"
| "b64_encode (a # b # c # r) =
     b64_char (a div 4) # b64_char ((a mod 4) * 16 + b div 16) #
     b64_char ((b mod 16) * 4 + c div 64) # b64_char (c mod 64) # b64_encode r"

definition std_btoa :: "string \<Rightarrow> string result" where
  "std_btoa s = Inr (b64_encode (map of_char s))"

definition b64_value :: "char \<Rightarrow> nat option" where
  "b64_value c =
     (let n = (of_char c :: nat) in
      if 65 \<le> n \<and> n \<le> 90 then Some (n - 65)
      else if 97 \<le> n \<and> n \<le> 122 then Some (n - 71)
      else if 48 \<le> n \<and> n \<le> 57 then Some (n + 4)
      else if c = CHR ''+'' then Some 62
      else if c = CHR ''/'' then Some 63
      else None)"

text \<open>Decoding by groups of four characters; padding is accepted in the last group
  only, and a last group of two or three characters needs none.\<close>

fun b64_decode :: "string \<Rightarrow> string option" where
  "b64_decode [] = Some []"
| "b64_decode [a] = None"
| "b64_decode [a, b] =
     (case (b64_value a, b64_value b) of
        (Some x, Some y) \<Rightarrow> Some [char_of (x * 4 + y div 16)]
      | _ \<Rightarrow> None)"
| "b64_decode [a, b, c] =
     (case (b64_value a, b64_value b, b64_value c) of
        (Some x, Some y, Some z) \<Rightarrow>
          Some [char_of (x * 4 + y div 16), char_of ((y mod 16) * 16 + z div 4)]
      | _ \<Rightarrow> None)"
| "b64_decode (a # b # c # d # r) =
     (if r = [] \<and> d = CHR ''='' then
        (if c = CHR ''='' then b64_decode [a, b] else b64_decode [a, b, c])
      else
        (case (b64_value a, b64_value b, b64_value c, b64_value d) of
           (Some x, Some y, Some z, Some u) \<Rightarrow>
             map_option (\<lambda>t. char_of (x * 4 + y div 16) # char_of ((y mod 16) * 16 + z div 4) #
                               char_of ((z mod 4) * 64 + u) # t) (b64_decode r)
         | _ \<Rightarrow> None))"

definition std_atob :: "string \<Rightarrow> string result" where
  "std_atob s =
     (case b64_decode (filter (\<lambda>c. \<not> (is_ws c \<or> c = CHR 12)) s) of
        None \<Rightarrow> Inl (DOMException ''The string to be decoded is not correctly encoded.'')
      | Some t \<Rightarrow> Inr t)"

subsection \<open>The contents store\<close>

text \<open>
  Modelled from the spec: the remote storage API, which the library reaches through
  \<open>fetch\<close> only. A GET of a stored document returns its base64 content and its
  concurrency token, a GET of a missing one fails with 404. PUT and POST are treated
  alike: a write to a missing document without a token creates it, a write to an existing
  one must carry its current token. Documents are keyed by the request URL. The store
  also carries the clock that \<open>Date.now()\<close> and \<open>toISOString()\<close> read.
\<close>

record stored_file =
  file_content :: string
  file_sha :: string

record remote =
  files :: "string \<Rightarrow> stored_file option"
  revision :: nat
  clock :: int
  clock_iso :: string

definition plain_response :: "bool \<Rightarrow> nat \<Rightarrow> string \<Rightarrow> jsval \<Rightarrow> response" where
  "plain_response ok status text body =
     \<lparr>resp_ok = ok, resp_status = status, resp_statusText = text, resp_json = Inr body\<rparr>"

definition failure_response :: "nat \<Rightarrow> string \<Rightarrow> response" where
  "failure_response status text = plain_response False status text (Obj [(''message'', Str text)])"

definition store_write :: "remote \<Rightarrow> string \<Rightarrow> string \<Rightarrow> nat \<Rightarrow> string \<Rightarrow> response result \<times> remote" where
  "store_write w url c status text =
     (let sha = ''rev-'' @ show_nat (revision w) in
      (Inr (plain_response True status text (Obj [(''content'', Obj [(''sha'', Str sha)])])),
       w\<lparr>files := (files w)(url \<mapsto> \<lparr>file_content = c, file_sha = sha\<rparr>),
         revision := Suc (revision w)\<rparr>))"

text \<open>Modelled from the spec: the answers of the remote storage API to GET, PUT and
  POST on a contents URL.\<close>

definition store_fetch :: "remote \<Rightarrow> request \<Rightarrow> response result \<times> remote" where
  "store_fetch w req =
     (if req_method req = GET then
        (case files w (req_url req) of
           None \<Rightarrow> (Inr (failure_response 404 ''Not Found''), w)
         | Some f \<Rightarrow>
             (Inr (plain_response True 200 ''OK''
                     (Obj [(''content'', Str (file_content f)), (''sha'', Str (file_sha f))])), w))
      else
        (case req_body req of
           Some (Obj kvs) \<Rightarrow>
             (case map_of kvs ''content'' of
                Some (Str c) \<Rightarrow>
                  (let supplied = (case map_of kvs ''sha'' of Some Undefined \<Rightarrow> None | t \<Rightarrow> t) in
                   case files w (req_url req) of
                     None \<Rightarrow>
                       if supplied = None then store_write w (req_url req) c 201 ''Created''
                       else (Inr (failure_response 409 ''Conflict''), w)
                   | Some f \<Rightarrow>
                       if supplied = Some (Str (file_sha f))
                       then store_write w (req_url req) c 200 ''OK''
                       else (Inr (failure_response 409 ''Conflict''), w))
              | _ \<Rightarrow> (Inr (failure_response 422 ''Unprocessable Entity''), w))
         | _ \<Rightarrow> (Inr (failure_response 422 ''Unprocessable Entity''), w)))"

definition store_env :: "remote env" where
  "store_env =
     \<lparr>fetch = store_fetch, date_now = clock, iso_now = clock_iso,
      json_stringify = stringify2, btoa = std_btoa, atob = std_atob, json_parse = parse_json\<rparr>"

definition empty_remote :: "int \<Rightarrow> string \<Rightarrow> remote" where
  "empty_remote t stamp = \<lparr>files = (\<lambda>url. None), revision = 0, clock = t, clock_iso = stamp\<rparr>"

definition start :: "'w \<Rightarrow> 'w state" where
  "start w = \<lparr>world = w, sent = []\<rparr>"

definition demo_config :: config where
  "demo_config = \<lparr>username = ''drycout'', repo = ''djandes-site'', token = Some ''ghp_demo''\<rparr>"

subsection \<open>A rate-limited remote\<close>

text \<open>A remote end that answers every request with 403 and the message GitHub sends
  to a caller over its rate limit; the identifier of the user is part of the message.\<close>

definition rate_limited_fetch :: "remote \<Rightarrow> request \<Rightarrow> response result \<times> remote" where
  "rate_limited_fetch w req =
     (Inr (plain_response False 403 ''Forbidden''
        (Obj [(''message'', Str ''API rate limit exceeded for user ID 1404221.'')])), w)"

definition rate_limited_env :: "remote env" where
  "rate_limited_env = store_env\<lparr>fetch := rate_limited_fetch\<rparr>"

section \<open>Vocabulary of the properties\<close>

text \<open>An environment whose remote end is the contents store and whose clock is the
  store's.\<close>

definition on_store :: "remote env \<Rightarrow> bool" where
  "on_store E = (fetch E = store_fetch \<and> date_now E = clock \<and> iso_now E = clock_iso)"

text \<open>What \<open>saveFile\<close> puts on the wire for a value, and what \<open>getFile\<close> makes of a
  stored content.\<close>

definition encode :: "'w env \<Rightarrow> jsval \<Rightarrow> string result" where
  "encode E v = btoa E (content_text E v)"

definition decode :: "'w env \<Rightarrow> string \<Rightarrow> jsval result" where
  "decode E c = (case atob E c of Inl e \<Rightarrow> Inl e | Inr text \<Rightarrow> json_parse E text)"

definition roundtrip :: "'w env \<Rightarrow> jsval \<Rightarrow> bool" where
  "roundtrip E v = (case encode E v of Inl e \<Rightarrow> False | Inr c \<Rightarrow> decode E c = Inr v)"

text \<open>The content the store holds for a path.\<close>

definition stored :: "remote \<Rightarrow> config \<Rightarrow> string \<Rightarrow> string option" where
  "stored w cfg path = map_option file_content (files w (contents_url cfg path))"

text \<open>The requests an operation sent, and the writes among them.\<close>

definition sent_since :: "'w state \<Rightarrow> 'w state \<Rightarrow> request list" where
  "sent_since st st' = drop (length (sent st)) (sent st')"

definition is_write :: "request \<Rightarrow> bool" where
  "is_write q = (req_method q = PUT \<or> req_method q = POST)"

text \<open>A record of a sequence document is any value but \<open>null\<close>; \<open>has_id r i\<close> is
  \<open>r.id === i\<close>, and \<open>id_of r\<close> is \<open>r.id\<close>.\<close>

definition records :: "jsval list \<Rightarrow> bool" where
  "records xs = (\<forall>r \<in> set xs. r \<noteq> Null \<and> r \<noteq> Undefined)"

definition id_of :: "jsval \<Rightarrow> jsval" where
  "id_of r = (case get_prop r ''id'' of Inl e \<Rightarrow> Undefined | Inr v \<Rightarrow> v)"

definition has_id :: "jsval \<Rightarrow> jsval \<Rightarrow> bool" where
  "has_id r i = strict_eq (id_of r) i"

definition ids_unique :: "jsval list \<Rightarrow> bool" where
  "ids_unique xs = distinct (map id_of xs)"

text \<open>The record \<open>{id: Date.now(), ...data}\<close> that an add builds at time \<open>t\<close>, and
  the merge \<open>{...old, ...patch}\<close> of an update.\<close>

definition new_record :: "int \<Rightarrow> jsval \<Rightarrow> jsval" where
  "new_record t recordData = Obj (spread [(''id'', Num t)] (own_entries recordData))"

definition merged_record :: "jsval \<Rightarrow> jsval \<Rightarrow> jsval" where
  "merged_record old patch = Obj (spread (spread [] (own_entries old)) (own_entries patch))"

text \<open>The keys of an object as JavaScript enumerates them: no key stands after one
  that it is enumerated before.\<close>

definition key_order :: "string list \<Rightarrow> bool" where
  "key_order ks = sorted_wrt (\<lambda>a b. \<not> enumerated_before b a) ks"

text \<open>A value that JSON represents exactly: no \<open>undefined\<close> and no \<open>NaN\<close>
  inside, and every object with its keys distinct and in enumeration order.\<close>

fun clean :: "jsval \<Rightarrow> bool" where
  "clean Undefined = False"
| "clean NaN = False"
| "clean (Arr xs) = (\<forall>x \<in> set xs. clean x)"
| "clean (Obj kvs) =
     (distinct (map fst kvs) \<and> key_order (map fst kvs) \<and> (\<forall>p \<in> set kvs. clean (snd p)))"
| "clean v = True"

text \<open>The world after the store accepted a write of content \<open>c\<close> to a path, and the
  write request that \<open>saveFile\<close> sends for it: a POST for a missing document, a PUT
  with the current token for an existing one.\<close>

definition saved_world :: "remote \<Rightarrow> config \<Rightarrow> string \<Rightarrow> string \<Rightarrow> remote" where
  "saved_world w cfg path c =
     w\<lparr>files := (files w)(contents_url cfg path \<mapsto>
                  \<lparr>file_content = c, file_sha = ''rev-'' @ show_nat (revision w)\<rparr>),
       revision := Suc (revision w)\<rparr>"

definition write_request :: "remote \<Rightarrow> config \<Rightarrow> string \<Rightarrow> string \<Rightarrow> string \<Rightarrow> request" where
  "write_request w cfg path msg c =
     (case files w (contents_url cfg path) of
        None \<Rightarrow> build_request cfg path POST (post_body msg c)
      | Some f \<Rightarrow> build_request cfg path PUT (put_body msg c (Str (file_sha f))))"

text \<open>The index \<open>findIndex\<close> returns when some record has the id: that of the first
  such record.\<close>

definition first_index :: "jsval list \<Rightarrow> jsval \<Rightarrow> nat" where
  "first_index xs i = length (takeWhile (\<lambda>r. \<not> has_id r i) xs)"

text \<open>The state after the read that opens an operation, and after the read, the
  existence check and the accepted write of a whole operation.\<close>

definition after_read :: "config \<Rightarrow> string \<Rightarrow> remote state \<Rightarrow> remote state" where
  "after_read cfg path st =
     \<lparr>world = world st, sent = sent st @ [build_request cfg path GET Null]\<rparr>"

definition after_write :: "config \<Rightarrow> string \<Rightarrow> string \<Rightarrow> string \<Rightarrow> remote state \<Rightarrow> remote state" where
  "after_write cfg path msg c st =
     \<lparr>world = saved_world (world st) cfg path c,
      sent = sent st @ [build_request cfg path GET Null, build_request cfg path GET Null,
                        write_request (world st) cfg path msg c]\<rparr>"

text \<open>The snapshot that \<open>exportData\<close> assembles, the value \<open>importData\<close> returns
  on success, and the store holding the encoding of a value at a path.\<close>

definition snapshot :: "string \<Rightarrow> jsval \<Rightarrow> jsval \<Rightarrow> jsval \<Rightarrow> jsval \<Rightarrow> jsval \<Rightarrow> jsval" where
  "snapshot stamp ps cs os ns ws =
     Obj [(''timestamp'', Str stamp), (''products'', ps), (''categories'', cs), (''orders'', os),
          (''contacts'', ns), (''website'', ws)]"

definition import_ok :: jsval where
  "import_ok = Obj [(''success'', Bool True), (''message'', Str ''Data imported successfully'')]"

definition holds :: "remote env \<Rightarrow> remote \<Rightarrow> config \<Rightarrow> string \<Rightarrow> jsval \<Rightarrow> bool" where
  "holds E w cfg path v = (case encode E v of Inl e \<Rightarrow> False | Inr c \<Rightarrow> stored w cfg path = Some c)"

text \<open>An operation extends the requests sent, and only by requests to the given
  URLs.\<close>

definition sends_only :: "string set \<Rightarrow> ('w state \<Rightarrow> 'a result \<times> 'w state) \<Rightarrow> bool" where
  "sends_only U f =
     (\<forall>st. \<exists>new. sent (snd (f st)) = sent st @ new \<and> (\<forall>q \<in> set new. req_url q \<in> U))"

subsection \<open>Sample inputs\<close>

text \<open>The record of the spec's scenario, an empty store at a fixed time, and the
  documents some operations leave in it.\<close>

definition roti :: jsval where
  "roti = Obj [(''name'', Str ''Roti''), (''categoryId'', Num 1), (''price'', Num 1000),
               (''stock'', Num 5), (''discount'', Num 0)]"


text \<open>A record whose price field was parsed from an empty form field, the same record
  as JSON keeps it, and the second default product with a given price.\<close>

definition roti_nan :: jsval where
  "roti_nan = Obj [(''name'', Str ''Roti''), (''price'', NaN)]"

definition roti_null :: jsval where
  "roti_null = Obj [(''name'', Str ''Roti''), (''price'', Null)]"

definition croissant_priced :: "jsval \<Rightarrow> jsval" where
  "croissant_priced p =
     Obj [(''id'', Num 2), (''name'', Str ''Croissant Butter''), (''categoryId'', Num 1),
          (''price'', p), (''stock'', Num 30), (''discount'', Num 10),
          (''image'', Str (unsplash ''1555507032-abfa424c5b2d'')),
          (''description'', Str ''Croissant butter yang renyah dan lezat'')]"

definition empty_store :: "remote state" where
  "empty_store = start (empty_remote 1700000000000 ''2023-11-14T22:13:20.000Z'')"

definition products_without_2 :: "jsval list" where
  "products_without_2 = [default_products ! 0, default_products ! 2, default_products ! 3,
                         default_products ! 4]"

definition croissant_repriced :: jsval where
  "croissant_repriced =
     product_record 2 ''Croissant Butter'' 1 19000 30 10
       (unsplash ''1555507032-abfa424c5b2d'') ''Croissant butter yang renyah dan lezat''"

definition products_repriced :: "jsval list" where
  "products_repriced = default_products[1 := croissant_repriced]"



definition website_fields :: "(string \<times> jsval) list" where
  "website_fields =
     [(''name'', Str ''DJANDES Bakery''),
      (''email'', Str ''info@djandesbakery.com''),
      (''phone'', Str ''+62 21 1234 5678''),
      (''address'', Str ''Jl. Bakery No. 123, Jakarta, Indonesia''),
      (''description'', Str (''DJANDES Bakery telah melayani pelanggan sejak 2010 dengan komitmen '' @
         ''untuk memberikan produk roti dan kue berkualitas tinggi.''))]"

definition default_snapshot :: jsval where
  "default_snapshot =
     snapshot ''2023-11-14T22:13:20.000Z'' (Arr default_products) (Arr default_categories)
       (Arr []) (Arr []) (Obj website_fields)"

definition after_default_import :: "remote state" where
  "after_default_import =
     snd (importData store_env demo_config default_snapshot (snd (exportData store_env demo_config empty_store)))"

text \<open>The store after a first add of the scenario's record.\<close>

definition after_first_roti :: "remote state" where
  "after_first_roti = snd (addProduct store_env demo_config roti empty_store)"

subsection \<open>Notions for the codec proofs\<close>

text \<open>Whitespace prefixes, the characters a printed value may start with, what may
  follow a printed number, the text of one object member, and the statement that the
  parser reads a printed value back whatever surrounds it.\<close>

definition number_end :: "string \<Rightarrow> bool" where
  "number_end r = (r = [] \<or> \<not> (is_digit (hd r) \<or> hd r = CHR ''.'' \<or> hd r = CHR ''e'' \<or> hd r = CHR ''E''))"

definition all_ws :: "string \<Rightarrow> bool" where
  "all_ws pre = (\<forall>c \<in> set pre. is_ws c)"

definition starter :: "char \<Rightarrow> bool" where
  "starter c = (\<not> is_ws c \<and> c \<noteq> CHR '']'' \<and> c \<noteq> CHR ''}'')"

definition parses :: "jsval \<Rightarrow> bool" where
  "parses v = (\<forall>n k pre r. size v < k \<longrightarrow> all_ws pre \<longrightarrow> number_end r \<longrightarrow>
                 parse_value k (pre @ stringify_at n v @ r) = Some (v, r))"

definition member_text :: "nat \<Rightarrow> string \<times> jsval \<Rightarrow> string" where
  "member_text n = (\<lambda>(k, v). quote k @ '': '' @ stringify_at (Suc n) v)"

section \<open>Properties\<close>

subsection \<open>Error messages and the 404 test\<close>

lemma show_nat_403: "show_nat 403 = ''403''"
  by (simp add: show_nat.simps digit_char_def char_of_eq_iff)

lemma show_nat_404: "show_nat 404 = ''404''"
  by (simp add: show_nat.simps digit_char_def char_of_eq_iff)

lemma str_includes_here: "str_includes (b @ c) b"
proof (cases "b @ c")
  case Nil
  then show ?thesis by simp
next
  case (Cons a l)
  have "take (length b) (b @ c) = b" by simp
  with Cons show ?thesis by simp
qed

lemma str_includes_append: "str_includes (a @ b @ c) b"
  by (induction a) (auto simp: str_includes_here)

lemma is_404_remote_error: "is_404 (remote_error 404 m)"
  unfolding is_404_def remote_error_def
  using str_includes_append [of "''GitHub API Error: ''" "''404''" "'' - '' @ m"]
  by (simp add: show_nat_404)

lemma rate_limited_request:
  "makeRequest rate_limited_env demo_config path m data st =
     (Inl (remote_error 403 ''API rate limit exceeded for user ID 1404221.''),
      \<lparr>world = world st, sent = sent st @ [build_request demo_config path m data]\<rparr>)"
  by (simp add: makeRequest_def token_set_def demo_config_def do_fetch_def rate_limited_env_def
      rate_limited_fetch_def plain_response_def api_error_def)

lemma rate_limited_is_404: "is_404 (remote_error 403 ''API rate limit exceeded for user ID 1404221.'')"
  by (simp add: is_404_def remote_error_def show_nat_403)

subsection \<open>Reading a document\<close>

lemma getFile_decodes:
  assumes "makeRequest E cfg path GET Null st = (Inr response, st')"
    and "get_prop response ''content'' = Inr c"
    and "atob E (to_string c) = Inr text"
    and "json_parse E text = Inr v"
  shows "getFile E cfg path st = (Inr v, st')"
  using assms by (simp add: getFile_def getFile_try_def)

lemma getFile_404_default:
  assumes "makeRequest E cfg path GET Null st = (Inl (remote_error 404 m), st')"
  shows "getFile E cfg path st = (Inr (getDefaultData path), st')"
  using assms by (simp add: getFile_def getFile_try_def is_404_remote_error)

lemma getFile_propagates:
  assumes "makeRequest E cfg path GET Null st = (Inl e, st')" and "\<not> is_404 e"
  shows "getFile E cfg path st = (Inl e, st')"
  using assms by (simp add: getFile_def getFile_try_def)

text \<open>
  C2. \<open>getFile\<close> returns the decoded document on success (\<open>getFile_decodes\<close>),
  the built-in default on a 404 (\<open>getFile_404_default\<close>) and passes on an error whose
  message does not contain \<open>404\<close> (\<open>getFile_propagates\<close>). The claim that it swallows
  a failure only when the status is 404 fails: the handler searches the whole message for
  the text \<open>404\<close>. Here the remote answers 403, the message names the user 1404221, and
  \<open>getFile\<close> returns the default products instead of failing.
\<close>

theorem getFile_swallows_403:
  "getFile rate_limited_env demo_config ''data/products.json'' (start (empty_remote 0 ''''))
     = (Inr (Arr default_products),
        \<lparr>world = empty_remote 0 '''',
         sent = [build_request demo_config ''data/products.json'' GET Null]\<rparr>)"
  by (simp add: getFile_def getFile_try_def rate_limited_request rate_limited_is_404
      getDefaultData_def start_def)

lemma getDefaultData_other:
  assumes "path \<notin> {''data/products.json'', ''data/categories.json'', ''data/orders.json'',
                   ''data/contacts.json'', ''data/website.json''}"
  shows "getDefaultData path = Null"
  using assms by (simp add: getDefaultData_def)

text \<open>
  C10. For a path that is none of the five data paths, a read that fails with a 404
  returns \<open>null\<close>: no error and no default document. \<open>restoreData\<close> on such a path
  therefore goes on with a \<open>null\<close> snapshot: it fails on reading \<open>products\<close> of
  \<open>null\<close>, with that message rewrapped, after the one GET and without any write.
\<close>

theorem getFile_unknown_path_null:
  assumes "path \<notin> {''data/products.json'', ''data/categories.json'', ''data/orders.json'',
                   ''data/contacts.json'', ''data/website.json''}"
    and "makeRequest E cfg path GET Null st = (Inl (remote_error 404 m), st')"
  shows "getFile E cfg path st = (Inr Null, st') \<and>
         restoreData E cfg path st =
           (Inl (Error (''Failed to restore backup: '' @ null_read_msg Null ''products'')), st')"
proof -
  have g: "getFile E cfg path st = (Inr Null, st')"
    using getFile_404_default [OF assms(2)] getDefaultData_other [OF assms(1)] by simp
  then show ?thesis
    by (simp add: restoreData_def lift_def)
qed

lemma store_get_missing:
  assumes "files (world st) (contents_url demo_config path) = None"
  shows "makeRequest store_env demo_config path GET Null st =
           (Inl (remote_error 404 ''Not Found''),
            \<lparr>world = world st, sent = sent st @ [build_request demo_config path GET Null]\<rparr>)"
  using assms
  by (simp add: makeRequest_def token_set_def demo_config_def do_fetch_def store_env_def
      store_fetch_def build_request_def failure_response_def plain_response_def api_error_def)

theorem getFile_unknown_path_null_witness:
  "''backups/backup-1.json'' \<notin> {''data/products.json'', ''data/categories.json'', ''data/orders.json'',
                   ''data/contacts.json'', ''data/website.json''} \<and>
   getFile store_env demo_config ''backups/backup-1.json'' (start (empty_remote 0 ''''))
     = (Inr Null, \<lparr>world = empty_remote 0 '''',
          sent = [build_request demo_config ''backups/backup-1.json'' GET Null]\<rparr>) \<and>
   restoreData store_env demo_config ''backups/backup-1.json'' (start (empty_remote 0 ''''))
     = (Inl (Error (''Failed to restore backup: '' @ null_read_msg Null ''products'')),
        \<lparr>world = empty_remote 0 '''',
          sent = [build_request demo_config ''backups/backup-1.json'' GET Null]\<rparr>)"
proof -
  have m: "makeRequest store_env demo_config ''backups/backup-1.json'' GET Null (start (empty_remote 0 ''''))
        = (Inl (remote_error 404 ''Not Found''), \<lparr>world = empty_remote 0 '''',
          sent = [build_request demo_config ''backups/backup-1.json'' GET Null]\<rparr>)"
    using store_get_missing [of "start (empty_remote 0 '''')" "''backups/backup-1.json''"]
    by (simp add: start_def empty_remote_def)
  have p: "''backups/backup-1.json'' \<notin> {''data/products.json'', ''data/categories.json'', ''data/orders.json'',
                   ''data/contacts.json'', ''data/website.json''}"
    by simp
  show ?thesis
    using getFile_unknown_path_null [OF p m] p by simp
qed

subsection \<open>Writing a document\<close>

lemma encode_empty_list: "std_btoa (content_text rate_limited_env (Arr [])) = Inr ''W10=''"
  by (simp add: content_text_def rate_limited_env_def store_env_def stringify2_def bracket_def
      std_btoa_def b64_char_def char_of_eq_iff)

lemma makeRequest_sent:
  assumes "token_set cfg"
  shows "sent (snd (makeRequest E cfg path m d st)) = sent st @ [build_request cfg path m d]"
proof -
  obtain r w' where "fetch E (world st) (build_request cfg path m d) = (r, w')"
    by (cases "fetch E (world st) (build_request cfg path m d)")
  with assms show ?thesis
    by (cases r) (simp_all add: makeRequest_def do_fetch_def)
qed

lemma makeRequest_no_token:
  assumes "\<not> token_set cfg"
  shows "makeRequest E cfg path m d st = (Inl (Error ''GitHub token not configured''), st)"
  using assms by (simp add: makeRequest_def)

lemma saveFile_update:
  assumes "btoa E (content_text E data) = Inr c"
    and "makeRequest E cfg path GET Null st = (Inr existing, st1)"
    and "get_prop existing ''sha'' = Inr sha"
    and "makeRequest E cfg path PUT (put_body msg c sha) st1 = (Inr r, st2)"
  shows "saveFile E cfg path data (Some msg) st = (Inr r, st2)"
  using assms by (simp add: saveFile_def saveFile_try_def)

lemma saveFile_create:
  assumes "btoa E (content_text E data) = Inr c"
    and "makeRequest E cfg path GET Null st = (Inl (remote_error 404 m), st1)"
  shows "saveFile E cfg path data (Some msg) st = makeRequest E cfg path POST (post_body msg c) st1"
  using assms by (simp add: saveFile_def saveFile_try_def is_404_remote_error)

lemma saveFile_propagates:
  assumes "btoa E (content_text E data) = Inr c"
    and "makeRequest E cfg path GET Null st = (Inl e, st1)" "\<not> is_404 e"
  shows "saveFile E cfg path data (Some msg) st = (Inl e, st1)"
  using assms by (simp add: saveFile_def saveFile_try_def)

lemma saveFile_post_after_failed_put:
  assumes "btoa E (content_text E data) = Inr c"
    and "makeRequest E cfg path GET Null st = (Inr existing, st1)"
    and "get_prop existing ''sha'' = Inr sha"
    and "makeRequest E cfg path PUT (put_body msg c sha) st1 = (Inl e, st2)" "is_404 e"
  shows "saveFile E cfg path data (Some msg) st = makeRequest E cfg path POST (post_body msg c) st2"
  using assms by (simp add: saveFile_def saveFile_try_def)

lemma body_shapes:
  "put_body msg c sha = Obj [(''message'', Str msg), (''content'', Str c), (''sha'', sha)]"
  "post_body msg c = Obj [(''message'', Str msg), (''content'', Str c)]"
  "req_body (build_request cfg path PUT (put_body msg c sha)) = Some (put_body msg c sha)"
  "req_body (build_request cfg path POST (post_body msg c)) = Some (post_body msg c)"
  "req_body (build_request cfg path GET Null) = None"
  by (simp_all add: put_body_def post_body_def build_request_def)

text \<open>
  C1. With a token configured and \<open>btoa\<close> succeeding, \<open>saveFile\<close> first sends one GET
  for the same path (\<open>makeRequest_sent\<close>); when that read succeeds it sends one PUT
  with the body \<open>{message, content, sha}\<close> (\<open>saveFile_update\<close>), when it fails with a
  404 it sends one POST with the body \<open>{message, content}\<close> (\<open>saveFile_create\<close>), and
  an error whose message does not contain \<open>404\<close> is passed on with no write
  (\<open>saveFile_propagates\<close>). The claim that every non-404 failure of the read propagates
  without a write fails for the same reason as C2: \<open>saveFile\<close> decides on the text
  \<open>404\<close> anywhere in the message. Here the read is answered 403 for user 1404221, and
  \<open>saveFile\<close> goes on to send a POST. The same handler also covers the PUT: a PUT that
  fails with such a message is followed by a POST (\<open>saveFile_post_after_failed_put\<close>).
\<close>

theorem saveFile_posts_after_403:
  "saveFile rate_limited_env demo_config ''data/products.json'' (Arr []) None
       (start (empty_remote 0 ''''))
     = (Inl (remote_error 403 ''API rate limit exceeded for user ID 1404221.''),
        \<lparr>world = empty_remote 0 '''',
         sent = [build_request demo_config ''data/products.json'' GET Null,
                 build_request demo_config ''data/products.json'' POST
                   (post_body ''Update data/products.json'' ''W10='')]\<rparr>)"
proof -
  have b: "btoa rate_limited_env = std_btoa"
    by (simp add: rate_limited_env_def store_env_def)
  show ?thesis
    by (simp add: saveFile_def saveFile_try_def b encode_empty_list rate_limited_request
      rate_limited_is_404 start_def)
qed

subsection \<open>The reference codec reads back what it writes\<close>

lemma char_code_eq: "(c = d) = ((of_char c :: nat) = of_char d)"
  by simp

lemma is_ws_code: "is_ws c = ((of_char c :: nat) \<in> {9, 10, 13, 32})"
  unfolding is_ws_def by (subst (1 2 3 4) char_code_eq) auto

lemma b64_char_code:
  "n < 64 \<Longrightarrow> (of_char (b64_char n) :: nat) =
     (if n < 26 then 65 + n else if n < 52 then 71 + n else if n < 62 then n - 4
      else if n = 62 then 43 else 47)"
  by (simp add: b64_char_def)

lemma b64_value_char: "n < 64 \<Longrightarrow> b64_value (b64_char n) = Some n"
  by (auto simp: b64_value_def b64_char_def Let_def)

lemma b64_char_plain:
  assumes "n < 64"
  shows "b64_char n \<noteq> CHR ''=''" and "\<not> is_ws (b64_char n)" and "b64_char n \<noteq> CHR 12"
  using b64_char_code [OF assms]
  by (auto simp: is_ws_code char_code_eq [of "b64_char n"] split: if_splits)

lemma sextets:
  fixes a b c :: nat
  assumes "a < 256" "b < 256" "c < 256"
  shows "a div 4 < 64" "(a mod 4) * 16 + b div 16 < 64" "(b mod 16) * 4 + c div 64 < 64"
    "c mod 64 < 64" "(a mod 4) * 16 < 64" "(b mod 16) * 4 < 64"
  using assms by auto

lemma regroup:
  fixes a b c :: nat
  assumes "a < 256" "b < 256" "c < 256"
  shows "a div 4 * 4 + ((a mod 4) * 16 + b div 16) div 16 = a"
    and "(((a mod 4) * 16 + b div 16) mod 16) * 16 + ((b mod 16) * 4 + c div 64) div 4 = b"
    and "(((b mod 16) * 4 + c div 64) mod 4) * 64 + c mod 64 = c"
    and "a div 4 * 4 + ((a mod 4) * 16) div 16 = a"
    and "(((a mod 4) * 16 + b div 16) mod 16) * 16 + ((b mod 16) * 4) div 4 = b"
proof -
  have b16: "b div 16 < 16" and c64: "c div 64 < 4"
    using assms by simp_all
  have h1: "((a mod 4) * 16 + b div 16) div 16 = a mod 4"
    using b16 by simp
  have h2: "((a mod 4) * 16 + b div 16) mod 16 = b div 16"
    using b16 by simp
  have h3: "((b mod 16) * 4 + c div 64) div 4 = b mod 16"
    using c64 by simp
  have h4: "((b mod 16) * 4 + c div 64) mod 4 = c div 64"
    using c64 by simp
  show "a div 4 * 4 + ((a mod 4) * 16 + b div 16) div 16 = a"
    by (simp only: h1) simp
  show "(((a mod 4) * 16 + b div 16) mod 16) * 16 + ((b mod 16) * 4 + c div 64) div 4 = b"
    by (simp only: h2 h3) simp
  show "(((b mod 16) * 4 + c div 64) mod 4) * 64 + c mod 64 = c"
    by (simp only: h4) simp
  show "a div 4 * 4 + ((a mod 4) * 16) div 16 = a"
    by simp
  show "(((a mod 4) * 16 + b div 16) mod 16) * 16 + ((b mod 16) * 4) div 4 = b"
    by (simp only: h2) simp
qed

lemma pad_plain: "\<not> (is_ws CHR ''='' \<or> CHR ''='' = CHR 12)"
  by (simp add: is_ws_def)

lemma b64_encode_plain:
  assumes "\<forall>b \<in> set bs. b < 256"
  shows "\<forall>c \<in> set (b64_encode bs). \<not> (is_ws c \<or> c = CHR 12)"
  using assms
proof (induction bs rule: b64_encode.induct)
  case 1
  then show ?case by simp
next
  case (2 a)
  then have a: "a < 256" by simp
  show ?case
    using b64_char_plain [OF sextets(1) [OF a a a]] b64_char_plain [OF sextets(5) [OF a a a]]
      pad_plain
    by simp
next
  case (3 a b)
  then have a: "a < 256" and b: "b < 256" by simp_all
  show ?case
    using b64_char_plain [OF sextets(1) [OF a b b]] b64_char_plain [OF sextets(2) [OF a b b]]
      b64_char_plain [OF sextets(6) [OF a b b]] pad_plain
    by simp
next
  case (4 a b c r)
  then have a: "a < 256" and b: "b < 256" and c: "c < 256" by simp_all
  from 4 have ih: "\<forall>c \<in> set (b64_encode r). \<not> (is_ws c \<or> c = CHR 12)" by simp
  show ?case
    using b64_char_plain [OF sextets(1) [OF a b c]] b64_char_plain [OF sextets(2) [OF a b c]]
      b64_char_plain [OF sextets(3) [OF a b c]] b64_char_plain [OF sextets(4) [OF a b c]] ih
    by simp
qed

lemma decode_group:
  assumes "x < 64" "y < 64" "z < 64" "u < 64"
  shows "b64_decode (b64_char x # b64_char y # b64_char z # b64_char u # r) =
           map_option (\<lambda>t. char_of (x * 4 + y div 16) # char_of ((y mod 16) * 16 + z div 4) #
                               char_of ((z mod 4) * 64 + u) # t) (b64_decode r)"
  using assms b64_char_plain(1) [OF assms(4)]
  by (simp add: b64_value_char)

lemma decode_last_two:
  assumes "x < 64" "y < 64" "z < 64"
  shows "b64_decode [b64_char x, b64_char y, b64_char z, CHR ''=''] =
           Some [char_of (x * 4 + y div 16), char_of ((y mod 16) * 16 + z div 4)]"
  using assms b64_char_plain(1) [OF assms(3)]
  by (simp add: b64_value_char)

lemma decode_last_one:
  assumes "x < 64" "y < 64"
  shows "b64_decode [b64_char x, b64_char y, CHR ''='', CHR ''=''] =
           Some [char_of (x * 4 + y div 16)]"
  using assms
  by (simp add: b64_value_char)

lemma b64_decode_encode:
  assumes "\<forall>b \<in> set bs. b < 256"
  shows "b64_decode (b64_encode bs) = Some (map char_of bs)"
  using assms
proof (induction bs rule: b64_encode.induct)
  case 1
  then show ?case by simp
next
  case (2 a)
  then have a: "a < 256" by simp
  have "b64_decode (b64_encode [a]) = Some [char_of (a div 4 * 4 + ((a mod 4) * 16) div 16)]"
    using decode_last_one [OF sextets(1) [OF a a a] sextets(5) [OF a a a]]
    by (simp only: b64_encode.simps)
  then show ?case
    by (simp only: regroup(4) [OF a a a] list.map)
next
  case (3 a b)
  then have a: "a < 256" and b: "b < 256" by simp_all
  have "b64_decode (b64_encode [a, b]) =
          Some [char_of (a div 4 * 4 + ((a mod 4) * 16 + b div 16) div 16),
                char_of ((((a mod 4) * 16 + b div 16) mod 16) * 16 + ((b mod 16) * 4) div 4)]"
    using decode_last_two [OF sextets(1) [OF a b b] sextets(2) [OF a b b] sextets(6) [OF a b b]]
    by (simp only: b64_encode.simps)
  then show ?case
    by (simp only: regroup(1) [OF a b b] regroup(5) [OF a b b] list.map)
next
  case (4 a b c r)
  then have a: "a < 256" and b: "b < 256" and c: "c < 256" by simp_all
  from 4 have ih: "b64_decode (b64_encode r) = Some (map char_of r)" by simp
  have "b64_decode (b64_encode (a # b # c # r)) =
          Some (char_of (a div 4 * 4 + ((a mod 4) * 16 + b div 16) div 16) #
                char_of ((((a mod 4) * 16 + b div 16) mod 16) * 16 + ((b mod 16) * 4 + c div 64) div 4) #
                char_of ((((b mod 16) * 4 + c div 64) mod 4) * 64 + c mod 64) # map char_of r)"
    using decode_group [OF sextets(1) [OF a b c] sextets(2) [OF a b c] sextets(3) [OF a b c]
        sextets(4) [OF a b c], of "b64_encode r"]
    by (simp only: b64_encode.simps ih option.map)
  then show ?case
    by (simp only: regroup(1,2,3) [OF a b c] list.map)
qed

lemma atob_btoa: "std_atob (b64_encode (map of_char s)) = Inr s"
proof -
  have lt: "\<forall>b \<in> set (map of_char s :: nat list). b < 256" by simp
  have "filter (\<lambda>c. \<not> (is_ws c \<or> c = CHR 12)) (b64_encode (map of_char s)) = b64_encode (map of_char s)"
    using b64_encode_plain [OF lt] by (simp add: filter_id_conv)
  then show ?thesis
    using b64_decode_encode [OF lt] by (simp add: std_atob_def comp_def)
qed

lemma hex_value_digit: "k < 16 \<Longrightarrow> hex_value (hex_digit k) = Some k"
  by (auto simp: hex_value_def hex_digit_def Let_def)

lemma hex_value_zero: "hex_value CHR ''0'' = Some 0"
  by (simp add: hex_value_def)

lemma parse_chars_escape:
  "parse_chars (escape_char c @ rest) = map_option (\<lambda>(t, u). (c # t, u)) (parse_chars rest)"
proof -
  consider (dq) "c = CHR 34" | (bs) "c = CHR 92"
    | (cb) "c = CHR 8" | (cf) "c = CHR 12" | (cn) "c = CHR 10" | (cr) "c = CHR 13" | (ct) "c = CHR 9"
    | (ctl) "c \<notin> {CHR 34, CHR 92, CHR 8, CHR 12, CHR 10, CHR 13, CHR 9}" "(of_char c :: nat) < 32"
    | (other) "c \<notin> {CHR 34, CHR 92, CHR 8, CHR 12, CHR 10, CHR 13, CHR 9}" "\<not> (of_char c :: nat) < 32"
    by blast
  then show ?thesis
  proof cases
    case ctl
    let ?n = "of_char c :: nat"
    have d: "?n div 16 < 16" "?n mod 16 < 16" using ctl(2) by simp_all
    have rejoin: "char_of (16 * (?n div 16) + ?n mod 16) = c" by simp
    show ?thesis
      using ctl
      by (simp add: escape_char_def hex_value_digit [OF d(1)] hex_value_digit [OF d(2)]
          hex_value_zero rejoin)
  qed (simp_all add: escape_char_def)
qed

lemma parse_chars_quote:
  "parse_chars (concat (map escape_char s) @ CHR 34 # r) = Some (s, r)"
  by (induction s) (simp_all add: parse_chars_escape del: parse_chars.simps, simp)

lemma digit_char_code: "d < 10 \<Longrightarrow> (of_char (digit_char d) :: nat) = 48 + d"
  by (simp add: digit_char_def)

lemma is_digit_digit_char: "d < 10 \<Longrightarrow> is_digit (digit_char d)"
  by (simp add: is_digit_def digit_char_code)

lemma show_nat_digits: "\<forall>c \<in> set (show_nat n). is_digit c"
proof (induction n rule: show_nat.induct)
  case (1 n)
  show ?case
  proof (cases "n < 10")
    case True
    then show ?thesis by (subst show_nat.simps) (simp add: is_digit_digit_char)
  next
    case False
    with 1 show ?thesis by (subst show_nat.simps) (simp add: is_digit_digit_char)
  qed
qed

lemma show_nat_nonempty: "show_nat n \<noteq> []"
  by (subst show_nat.simps) simp

lemma digits_value_snoc: "digits_value (ds @ [c]) = 10 * digits_value ds + (of_char c - 48)"
  by (simp add: digits_value_def)

lemma digits_value_show_nat: "digits_value (show_nat n) = n"
proof (induction n rule: show_nat.induct)
  case (1 n)
  show ?case
  proof (cases "n < 10")
    case True
    then show ?thesis
      by (subst show_nat.simps) (simp add: digits_value_def digit_char_code)
  next
    case False
    with 1 have "digits_value (show_nat (n div 10)) = n div 10" by simp
    with False show ?thesis
      by (subst show_nat.simps) (simp add: digits_value_snoc digit_char_code)
  qed
qed

lemma hd_show_nat: "hd (show_nat n) = CHR ''0'' \<Longrightarrow> n = 0"
proof (induction n rule: show_nat.induct)
  case (1 n)
  show ?case
  proof (cases "n < 10")
    case True
    with 1(2) have "digit_char n = CHR ''0''"
      by (subst (asm) show_nat.simps) simp
    then have "(of_char (digit_char n) :: nat) = of_char CHR ''0''" by simp
    with True show ?thesis by (simp add: digit_char_code)
  next
    case False
    with 1(2) have "hd (show_nat (n div 10)) = CHR ''0''"
      by (subst (asm) show_nat.simps) (simp add: show_nat_nonempty)
    with 1(1) False have "n div 10 = 0" by simp
    with False show ?thesis by simp
  qed
qed

lemma show_nat_no_leading_zero: "\<not> (length (show_nat n) > 1 \<and> hd (show_nat n) = CHR ''0'')"
proof
  assume a: "length (show_nat n) > 1 \<and> hd (show_nat n) = CHR ''0''"
  then have "n = 0" using hd_show_nat by blast
  then have "show_nat n = [digit_char 0]" by (subst show_nat.simps) simp
  with a show False by simp
qed

lemma takeWhile_digits:
  assumes "\<forall>c \<in> set ds. is_digit c" "number_end r"
  shows "takeWhile is_digit (ds @ r) = ds" "dropWhile is_digit (ds @ r) = r"
proof -
  have r: "takeWhile is_digit r = []" "dropWhile is_digit r = r"
    using assms(2) by (cases r; simp add: number_end_def)+
  show "takeWhile is_digit (ds @ r) = ds" using assms(1) r by (simp add: takeWhile_append2)
  show "dropWhile is_digit (ds @ r) = r" using assms(1) r by (simp add: dropWhile_append2)
qed

lemma minus_not_digit: "\<not> is_digit CHR ''-''"
  by (simp add: is_digit_def)

lemma parse_number_show_int:
  assumes "number_end r"
  shows "parse_number (show_int i @ r) = Some (Num i, r)"
proof (cases "i < 0")
  case True
  have hd_nat: "hd (show_nat (nat (- i)) @ r) \<noteq> CHR ''-''"
    using show_nat_digits [of "nat (- i)"] show_nat_nonempty [of "nat (- i)"] minus_not_digit
    by (cases "show_nat (nat (- i))") auto
  show ?thesis
    using True assms takeWhile_digits [OF show_nat_digits assms, of "nat (- i)"]
      show_nat_nonempty [of "nat (- i)"] show_nat_no_leading_zero [of "nat (- i)"]
    by (auto simp: parse_number_def show_int_def Let_def digits_value_show_nat number_end_def)
next
  case False
  have hd_nat: "hd (show_nat (nat i) @ r) \<noteq> CHR ''-''"
    using show_nat_digits [of "nat i"] show_nat_nonempty [of "nat i"] minus_not_digit
    by (cases "show_nat (nat i)") auto
  show ?thesis
    using False assms takeWhile_digits [OF show_nat_digits assms, of "nat i"] hd_nat
      show_nat_nonempty [of "nat i"] show_nat_no_leading_zero [of "nat i"]
    by (auto simp: parse_number_def show_int_def Let_def digits_value_show_nat number_end_def)
qed

lemma skip_ws_pre: "all_ws pre \<Longrightarrow> skip_ws (pre @ s) = skip_ws s"
  by (simp add: skip_ws_def all_ws_def dropWhile_append2)

lemma skip_ws_stop: "\<not> is_ws c \<Longrightarrow> skip_ws (c # cs) = c # cs"
  by (simp add: skip_ws_def)

lemma all_ws_indent: "all_ws (indent n)" "all_ws (CHR 10 # indent n)" "all_ws [CHR '' '']" "all_ws []"
  by (simp_all add: all_ws_def indent_def is_ws_def)

lemma all_ws_append: "all_ws a \<Longrightarrow> all_ws b \<Longrightarrow> all_ws (a @ b)"
  by (auto simp: all_ws_def)

lemma digit_dispatch:
  assumes "is_digit c \<or> c = CHR ''-''"
  shows "\<not> is_ws c" "c \<noteq> CHR ''[''" "c \<noteq> CHR '']''" "c \<noteq> CHR ''{''" "c \<noteq> CHR ''}''"
    "c \<noteq> CHR 34" "c \<noteq> CHR ''n''" "c \<noteq> CHR ''t''" "c \<noteq> CHR ''f''"
  using assms by (auto simp: is_digit_def is_ws_def)

lemma show_int_head: "\<exists>c cs. show_int i = c # cs \<and> (is_digit c \<or> c = CHR ''-'')"
proof (cases "i < 0")
  case True
  then show ?thesis by (simp add: show_int_def)
next
  case False
  obtain c cs where "show_nat (nat i) = c # cs"
    using show_nat_nonempty [of "nat i"] by (cases "show_nat (nat i)") auto
  with False show_nat_digits [of "nat i"] show ?thesis
    by (auto simp: show_int_def)
qed

lemma bracket_head: "\<exists>cs. bracket l r n items = l # cs"
  by (simp add: bracket_def)

lemma stringify_head: "\<exists>c cs. stringify_at n v = c # cs \<and> starter c"
proof (cases v)
  case (Num i)
  from show_int_head [of i] obtain c cs where "show_int i = c # cs" "is_digit c \<or> c = CHR ''-''"
    by blast
  with Num show ?thesis using digit_dispatch [of c] by (auto simp: starter_def)
next
  case (Arr xs)
  obtain cs where "bracket CHR ''['' CHR '']'' n (map (stringify_at (Suc n)) xs) = CHR ''['' # cs"
    using bracket_head by blast
  with Arr show ?thesis by (simp add: starter_def is_ws_def)
next
  case (Obj kvs)
  obtain cs where "stringify_at n (Obj kvs) = CHR ''{'' # cs"
    using bracket_head [of "CHR ''{''" "CHR ''}''" n
        "map (\<lambda>(k, v). quote k @ '': '' @ stringify_at (Suc n) v)
           (filter (\<lambda>(k, v). v \<noteq> Undefined) kvs)"]
    by auto
  with Obj show ?thesis by (simp add: starter_def is_ws_def)
qed (auto simp: starter_def is_ws_def quote_def)

lemma parsesD:
  assumes "parses v" "size v < k" "all_ws pre" "number_end r"
  shows "parse_value k (pre @ stringify_at n v @ r) = Some (v, r)"
  using assms unfolding parses_def by blast

lemma number_end_simps:
  "number_end []" "number_end (CHR 10 # x)" "number_end (CHR '','' # x)"
  by (simp_all add: number_end_def is_digit_def)

lemma parses_Null: "parses Null"
  unfolding parses_def
proof (intro allI impI)
  fix n k pre r
  assume "size Null < k" "all_ws pre" "number_end r"
  then obtain k' where "k = Suc k'" by (cases k) auto
  then show "parse_value k (pre @ stringify_at n Null @ r) = Some (Null, r)"
    using \<open>all_ws pre\<close> by (simp add: skip_ws_pre skip_ws_stop is_ws_def)
qed

lemma parses_Bool: "parses (Bool b)"
  unfolding parses_def
proof (intro allI impI)
  fix n k pre r
  assume "size (Bool b) < k" "all_ws pre" "number_end r"
  then obtain k' where "k = Suc k'" by (cases k) auto
  then show "parse_value k (pre @ stringify_at n (Bool b) @ r) = Some (Bool b, r)"
    using \<open>all_ws pre\<close> by (simp add: skip_ws_pre skip_ws_stop is_ws_def)
qed

lemma parses_Str: "parses (Str s)"
  unfolding parses_def
proof (intro allI impI)
  fix n k pre r
  assume "size (Str s) < k" "all_ws pre" "number_end r"
  then obtain k' where "k = Suc k'" by (cases k) auto
  then show "parse_value k (pre @ stringify_at n (Str s) @ r) = Some (Str s, r)"
    using \<open>all_ws pre\<close> parse_chars_quote [of s r]
    by (simp add: skip_ws_pre skip_ws_stop is_ws_def quote_def)
qed

lemma parses_Num: "parses (Num i)"
  unfolding parses_def
proof (intro allI impI)
  fix n k pre r
  assume a: "size (Num i) < k" "all_ws pre" "number_end r"
  then obtain k' where k: "k = Suc k'" by (cases k) auto
  obtain c cs where h: "show_int i = c # cs" "is_digit c \<or> c = CHR ''-''"
    using show_int_head by blast
  have "parse_number (c # cs @ r) = Some (Num i, r)"
    using parse_number_show_int [OF a(3), of i] h(1) by simp
  then show "parse_value k (pre @ stringify_at n (Num i) @ r) = Some (Num i, r)"
    using a(2) k h(1) digit_dispatch [OF h(2)]
    by (simp add: skip_ws_pre skip_ws_stop)
qed

lemma skip_ws_nl_indent: "\<not> is_ws c \<Longrightarrow> skip_ws (CHR 10 # indent n @ c # cs) = c # cs"
  using skip_ws_pre [OF all_ws_indent(2), of n "c # cs"] by (simp add: skip_ws_stop)

lemma join_head:
  assumes "items \<noteq> []" "\<forall>s \<in> set items. \<exists>c t. s = c # t \<and> starter c"
  shows "\<exists>c t. join_with sep items @ rest = c # t \<and> starter c"
proof (cases items)
  case Nil
  with assms show ?thesis by simp
next
  case (Cons s ss)
  with assms(2) obtain c t where s: "s = c # t" "starter c" by auto
  show ?thesis
  proof (cases ss)
    case Nil
    with Cons s show ?thesis by simp
  next
    case (Cons u us)
    with \<open>items = s # ss\<close> s show ?thesis by simp
  qed
qed

lemma parse_elements_items:
  assumes "xs \<noteq> []" "\<forall>x \<in> set xs. parses x" "size_list size xs < k"
  shows "parse_elements k acc
           (CHR 10 # indent (Suc n) @
            join_with (CHR '','' # CHR 10 # indent (Suc n)) (map (stringify_at (Suc n)) xs) @
            CHR 10 # indent n @ CHR '']'' # r)
         = Some (Arr (acc @ xs), r)"
  using assms
proof (induction xs arbitrary: k acc rule: list_nonempty_induct)
  case (single x)
  then obtain k' where k: "k = Suc k'" and sz: "size x < k'" by (cases k) auto
  let ?rest = "CHR 10 # indent n @ CHR '']'' # r"
  have pv: "parse_value k' (CHR 10 # indent (Suc n) @ stringify_at (Suc n) x @ ?rest) = Some (x, ?rest)"
    using parsesD [of x k' "CHR 10 # indent (Suc n)" ?rest "Suc n"] single sz
    by (simp add: all_ws_indent number_end_simps)
  have sk: "skip_ws ?rest = CHR '']'' # r"
    by (rule skip_ws_nl_indent) (simp add: is_ws_def)
  show ?case
    using k pv sk by simp
next
  case (cons x xs)
  then obtain k' where k: "k = Suc k'" and sz: "size x < k'" and szs: "size_list size xs < k'"
    by (cases k) auto
  from cons(1) obtain y ys where xs: "xs = y # ys" by (cases xs) auto
  let ?sep = "CHR '','' # CHR 10 # indent (Suc n)"
  let ?tail = "CHR 10 # indent (Suc n) @ join_with ?sep (map (stringify_at (Suc n)) xs) @
               CHR 10 # indent n @ CHR '']'' # r"
  let ?rest = "CHR '','' # ?tail"
  have str: "CHR 10 # indent (Suc n) @ join_with ?sep (map (stringify_at (Suc n)) (x # xs)) @
               CHR 10 # indent n @ CHR '']'' # r
             = CHR 10 # indent (Suc n) @ stringify_at (Suc n) x @ ?rest"
    by (simp add: xs)
  have pv: "parse_value k' (CHR 10 # indent (Suc n) @ stringify_at (Suc n) x @ ?rest) = Some (x, ?rest)"
    using parsesD [of x k' "CHR 10 # indent (Suc n)" ?rest "Suc n"] cons(3) sz
    by (simp add: all_ws_indent number_end_simps)
  have sk: "skip_ws ?rest = ?rest"
    by (rule skip_ws_stop) (simp add: is_ws_def)
  have ih: "parse_elements k' (acc @ [x]) ?tail = Some (Arr ((acc @ [x]) @ xs), r)"
    using cons(2) [of k' "acc @ [x]"] cons(3) szs by simp
  show ?case
    unfolding str k using pv sk ih by simp
qed

lemma parses_Arr:
  assumes "\<forall>x \<in> set xs. parses x"
  shows "parses (Arr xs)"
  unfolding parses_def
proof (intro allI impI)
  fix n k pre r
  assume a: "size (Arr xs) < k" "all_ws pre" "number_end r"
  then obtain k' where k: "k = Suc k'" and sz: "size_list size xs < k'" by (cases k) auto
  show "parse_value k (pre @ stringify_at n (Arr xs) @ r) = Some (Arr xs, r)"
  proof (cases "xs = []")
    case True
    then show ?thesis
      using a(2) k by (simp add: bracket_def skip_ws_pre skip_ws_stop is_ws_def)
  next
    case False
    let ?sep = "CHR '','' # CHR 10 # indent (Suc n)"
    let ?items = "map (stringify_at (Suc n)) xs"
    let ?cs = "CHR 10 # indent (Suc n) @ join_with ?sep ?items @ CHR 10 # indent n @ CHR '']'' # r"
    have str: "stringify_at n (Arr xs) @ r = CHR ''['' # ?cs"
      using False by (simp add: bracket_def)
    have "\<forall>s \<in> set ?items. \<exists>c t. s = c # t \<and> starter c"
      using stringify_head by auto
    with False obtain c t where ct: "join_with ?sep ?items @ CHR 10 # indent n @ CHR '']'' # r = c # t"
        "starter c"
      using join_head [of ?items ?sep "CHR 10 # indent n @ CHR '']'' # r"] by auto
    have sk: "skip_ws ?cs = c # t"
      using skip_ws_nl_indent [of c "Suc n" t] ct by (simp add: starter_def)
    have pe: "parse_elements k' [] ?cs = Some (Arr xs, r)"
      using parse_elements_items [OF False assms sz, of "[]" n r] by simp
    have "parse_value (Suc k') (pre @ CHR ''['' # ?cs) = Some (Arr xs, r)"
      using a(2) sk pe ct(2)
      by (simp add: skip_ws_pre skip_ws_stop is_ws_def starter_def del: parse_elements.simps)
    then show ?thesis
      unfolding k str .
  qed
qed

lemma set_prop_fresh:
  "k \<notin> fst ` set acc \<Longrightarrow> \<forall>a \<in> fst ` set acc. \<not> enumerated_before k a \<Longrightarrow>
   set_prop k v acc = acc @ [(k, v)]"
  by (induction acc) auto

lemma key_order_last:
  assumes "key_order (map fst (acc @ (k, v) # kvs))"
  shows "\<forall>a \<in> fst ` set acc. \<not> enumerated_before k a"
  using assms by (auto simp: key_order_def sorted_wrt_append)

lemma member_text_head: "\<exists>c t. member_text n p = c # t \<and> starter c"
  by (cases p) (simp add: member_text_def quote_def starter_def is_ws_def)

lemma parse_member:
  assumes "parses v" "size v < k'" "number_end rest"
  shows "\<exists>qs. skip_ws (CHR 10 # indent (Suc n) @ member_text n (key, v) @ rest) = CHR 34 # qs \<and>
           parse_chars qs = Some (key, CHR '':'' # CHR '' '' # stringify_at (Suc n) v @ rest) \<and>
           parse_value k' (CHR '' '' # stringify_at (Suc n) v @ rest) = Some (v, rest)"
proof -
  let ?qs = "concat (map escape_char key) @ CHR 34 # CHR '':'' # CHR '' '' # stringify_at (Suc n) v @ rest"
  have 1: "skip_ws (CHR 10 # indent (Suc n) @ member_text n (key, v) @ rest) = CHR 34 # ?qs"
    using skip_ws_nl_indent [of "CHR 34" "Suc n" ?qs]
    by (simp add: member_text_def quote_def is_ws_def)
  have 2: "parse_chars ?qs = Some (key, CHR '':'' # CHR '' '' # stringify_at (Suc n) v @ rest)"
    by (rule parse_chars_quote)
  have 3: "parse_value k' (CHR '' '' # stringify_at (Suc n) v @ rest) = Some (v, rest)"
    using parsesD [OF assms(1,2) all_ws_indent(3) assms(3), of "Suc n"] by simp
  from 1 2 3 show ?thesis by blast
qed

lemma parse_members_items:
  assumes "kvs \<noteq> []" "\<forall>p \<in> set kvs. parses (snd p)"
    "size_list (size_prod (\<lambda>x. 0) size) kvs < k" "distinct (map fst (acc @ kvs))"
    "key_order (map fst (acc @ kvs))"
  shows "parse_members k acc
           (CHR 10 # indent (Suc n) @
            join_with (CHR '','' # CHR 10 # indent (Suc n)) (map (member_text n) kvs) @
            CHR 10 # indent n @ CHR ''}'' # r)
         = Some (Obj (acc @ kvs), r)"
  using assms
proof (induction kvs arbitrary: k acc rule: list_nonempty_induct)
  case (single p)
  obtain key v where p: "p = (key, v)" by (cases p)
  from single p obtain k' where k: "k = Suc k'" and sz: "size v < k'" by (cases k) auto
  let ?rest = "CHR 10 # indent n @ CHR ''}'' # r"
  from single p have pv: "parses v" by simp
  from parse_member [OF pv sz, of ?rest n key] obtain qs where
    m: "skip_ws (CHR 10 # indent (Suc n) @ member_text n (key, v) @ ?rest) = CHR 34 # qs"
       "parse_chars qs = Some (key, CHR '':'' # CHR '' '' # stringify_at (Suc n) v @ ?rest)"
       "parse_value k' (CHR '' '' # stringify_at (Suc n) v @ ?rest) = Some (v, ?rest)"
    by (auto simp: number_end_simps)
  have sk: "skip_ws ?rest = CHR ''}'' # r"
    by (rule skip_ws_nl_indent) (simp add: is_ws_def)
  have fresh: "set_prop key v acc = acc @ [(key, v)]"
    using single p key_order_last [of acc key v "[]"] by (intro set_prop_fresh) auto
  show ?case
    using k m sk fresh p by (simp add: skip_ws_stop is_ws_def)
next
  case (cons p kvs)
  obtain key v where p: "p = (key, v)" by (cases p)
  from cons p obtain k' where k: "k = Suc k'" and sz: "size v < k'"
    and szs: "size_list (size_prod (\<lambda>x. 0) size) kvs < k'"
    by (cases k) auto
  from cons(1) obtain q qs' where kvs: "kvs = q # qs'" by (cases kvs) auto
  let ?sep = "CHR '','' # CHR 10 # indent (Suc n)"
  let ?tail = "CHR 10 # indent (Suc n) @ join_with ?sep (map (member_text n) kvs) @
               CHR 10 # indent n @ CHR ''}'' # r"
  let ?rest = "CHR '','' # ?tail"
  have str: "CHR 10 # indent (Suc n) @ join_with ?sep (map (member_text n) (p # kvs)) @
               CHR 10 # indent n @ CHR ''}'' # r
             = CHR 10 # indent (Suc n) @ member_text n (key, v) @ ?rest"
    by (simp add: kvs p)
  from cons p have pv: "parses v" by simp
  from parse_member [OF pv sz, of ?rest n key] obtain qs where
    m: "skip_ws (CHR 10 # indent (Suc n) @ member_text n (key, v) @ ?rest) = CHR 34 # qs"
       "parse_chars qs = Some (key, CHR '':'' # CHR '' '' # stringify_at (Suc n) v @ ?rest)"
       "parse_value k' (CHR '' '' # stringify_at (Suc n) v @ ?rest) = Some (v, ?rest)"
    by (auto simp: number_end_simps)
  have sk: "skip_ws ?rest = ?rest"
    by (rule skip_ws_stop) (simp add: is_ws_def)
  have fresh: "set_prop key v acc = acc @ [(key, v)]"
    using cons(5,6) p key_order_last [of acc key v kvs] by (intro set_prop_fresh) auto
  have ih: "parse_members k' (acc @ [(key, v)]) ?tail = Some (Obj ((acc @ [(key, v)]) @ kvs), r)"
    using cons(2) [of k' "acc @ [(key, v)]"] cons(3,5,6) szs p by simp
  show ?case
    unfolding str k using m sk fresh ih p by (simp add: skip_ws_stop is_ws_def)
qed

lemma parses_Obj:
  assumes "\<forall>p \<in> set kvs. parses (snd p)" "distinct (map fst kvs)"
    "\<forall>p \<in> set kvs. snd p \<noteq> Undefined" "key_order (map fst kvs)"
  shows "parses (Obj kvs)"
  unfolding parses_def
proof (intro allI impI)
  fix n k pre r
  assume a: "size (Obj kvs) < k" "all_ws pre" "number_end r"
  then obtain k' where k: "k = Suc k'" and sz: "size_list (size_prod (\<lambda>x. 0) size) kvs < k'"
    by (cases k) auto
  have keep: "filter (\<lambda>(k, v). v \<noteq> Undefined) kvs = kvs"
    using assms(3) by (auto simp: filter_id_conv)
  have items: "map (\<lambda>(k, v). quote k @ '': '' @ stringify_at (Suc n) v) kvs = map (member_text n) kvs"
    by (simp add: member_text_def)
  show "parse_value k (pre @ stringify_at n (Obj kvs) @ r) = Some (Obj kvs, r)"
  proof (cases "kvs = []")
    case True
    then show ?thesis
      using a(2) k by (simp add: bracket_def skip_ws_pre skip_ws_stop is_ws_def)
  next
    case False
    let ?sep = "CHR '','' # CHR 10 # indent (Suc n)"
    let ?items = "map (member_text n) kvs"
    let ?cs = "CHR 10 # indent (Suc n) @ join_with ?sep ?items @ CHR 10 # indent n @ CHR ''}'' # r"
    have str: "stringify_at n (Obj kvs) @ r = CHR ''{'' # ?cs"
      using False by (simp only: stringify_at.simps keep items) (simp add: bracket_def)
    have "\<forall>s \<in> set ?items. \<exists>c t. s = c # t \<and> starter c"
      using member_text_head by auto
    with False obtain c t where ct: "join_with ?sep ?items @ CHR 10 # indent n @ CHR ''}'' # r = c # t"
        "starter c"
      using join_head [of ?items ?sep "CHR 10 # indent n @ CHR ''}'' # r"] by auto
    have sk: "skip_ws ?cs = c # t"
      using skip_ws_nl_indent [of c "Suc n" t] ct by (simp add: starter_def)
    have pe: "parse_members k' [] ?cs = Some (Obj kvs, r)"
      using parse_members_items [OF False assms(1) sz, of "[]" n r] assms(2,4) by simp
    have "parse_value (Suc k') (pre @ CHR ''{'' # ?cs) = Some (Obj kvs, r)"
      using a(2) sk pe ct(2)
      by (simp add: skip_ws_pre skip_ws_stop is_ws_def starter_def del: parse_members.simps)
    then show ?thesis
      unfolding k str .
  qed
qed

lemma clean_parses: "clean v \<Longrightarrow> parses v"
proof (induction v)
  case (Arr xs)
  then show ?case by (intro parses_Arr) auto
next
  case (Obj kvs)
  have "\<forall>p \<in> set kvs. parses (snd p)"
  proof
    fix p assume p: "p \<in> set kvs"
    obtain key v where kv: "p = (key, v)" by (cases p)
    with p Obj.prems have "clean v" by auto
    with Obj.IH [of p v] p kv show "parses (snd p)" by simp
  qed
  moreover have "\<forall>p \<in> set kvs. snd p \<noteq> Undefined"
    using Obj.prems by auto
  ultimately show ?case using Obj.prems by (intro parses_Obj) auto
qed (simp_all add: parses_Null parses_Bool parses_Str parses_Num)

lemma join_length:
  assumes "\<forall>x \<in> set xs. g x \<le> length (f x)" "sep \<noteq> []"
  shows "size_list g xs \<le> length (join_with sep (map f xs)) + 2"
  using assms(1)
proof (induction xs)
  case Nil
  then show ?case by simp
next
  case (Cons x xs)
  then have ih: "size_list g xs \<le> length (join_with sep (map f xs)) + 2" and x: "g x \<le> length (f x)"
    by simp_all
  show ?case
  proof (cases xs)
    case Nil
    with x show ?thesis by simp
  next
    case (Cons y ys)
    have "length sep \<ge> 1" using assms(2) by (cases sep) auto
    with ih x Cons show ?thesis by simp
  qed
qed

lemma bracket_length:
  "items \<noteq> [] \<Longrightarrow> length (join_with (CHR '','' # CHR 10 # indent (Suc n)) items) + 4 \<le> length (bracket l r n items)"
  by (simp add: bracket_def)

lemma size_le_length: "clean v \<Longrightarrow> size v \<le> length (stringify_at n v)"
proof (induction v arbitrary: n)
  case (Arr xs)
  show ?case
  proof (cases "xs = []")
    case True
    then show ?thesis by (simp add: bracket_def)
  next
    case False
    have "\<forall>x \<in> set xs. size x \<le> length (stringify_at (Suc n) x)"
      using Arr by auto
    from join_length [OF this, of "CHR '','' # CHR 10 # indent (Suc n)"]
    have "size_list size xs \<le> length (join_with (CHR '','' # CHR 10 # indent (Suc n)) (map (stringify_at (Suc n)) xs)) + 2"
      by simp
    moreover have "length (join_with (CHR '','' # CHR 10 # indent (Suc n)) (map (stringify_at (Suc n)) xs)) + 4
        \<le> length (bracket CHR ''['' CHR '']'' n (map (stringify_at (Suc n)) xs))"
      using False by (intro bracket_length) simp
    ultimately show ?thesis by simp
  qed
next
  case (Obj kvs)
  have keep: "filter (\<lambda>(k, v). v \<noteq> Undefined) kvs = kvs"
    using Obj.prems by (auto simp: filter_id_conv)
  have items: "map (\<lambda>(k, v). quote k @ '': '' @ stringify_at (Suc n) v) kvs = map (member_text n) kvs"
    by (simp add: member_text_def)
  have str: "stringify_at n (Obj kvs) = bracket CHR ''{'' CHR ''}'' n (map (member_text n) kvs)"
    by (simp only: stringify_at.simps keep items)
  show ?case
  proof (cases "kvs = []")
    case True
    then show ?thesis by (simp add: bracket_def)
  next
    case False
    have "\<forall>p \<in> set kvs. size_prod (\<lambda>x. 0) size p \<le> length (member_text n p)"
    proof
      fix p assume p: "p \<in> set kvs"
      obtain key v where kv: "p = (key, v)" by (cases p)
      with p Obj.prems have "clean v" by auto
      with Obj.IH [of p v "Suc n"] p kv have "size v \<le> length (stringify_at (Suc n) v)" by simp
      with kv show "size_prod (\<lambda>x. 0) size p \<le> length (member_text n p)"
        by (simp add: member_text_def quote_def)
    qed
    from join_length [OF this, of "CHR '','' # CHR 10 # indent (Suc n)"]
    have "size_list (size_prod (\<lambda>x. 0) size) kvs
        \<le> length (join_with (CHR '','' # CHR 10 # indent (Suc n)) (map (member_text n) kvs)) + 2"
      by simp
    moreover have "length (join_with (CHR '','' # CHR 10 # indent (Suc n)) (map (member_text n) kvs)) + 4
        \<le> length (bracket CHR ''{'' CHR ''}'' n (map (member_text n) kvs))"
      using False by (intro bracket_length) simp
    ultimately show ?thesis unfolding str by simp
  qed
qed simp_all

lemma parse_json_stringify:
  assumes "clean v"
  shows "parse_json (stringify_at 0 v) = Inr v"
proof -
  have "size v < Suc (length (stringify_at 0 v))"
    using size_le_length [OF assms, of 0] by simp
  from parsesD [OF clean_parses [OF assms] this all_ws_indent(4) number_end_simps(1), of 0]
  have "parse_value (Suc (length (stringify_at 0 v))) (stringify_at 0 v) = Some (v, [])"
    by simp
  then show ?thesis
    by (simp add: parse_json_def skip_ws_def)
qed

lemma codec_inverse:
  assumes "clean v"
  shows "\<exists>c. stringify2 v = Some (stringify_at 0 v) \<and>
             std_btoa (stringify_at 0 v) = Inr c \<and>
             std_atob c = Inr (stringify_at 0 v) \<and>
             parse_json (stringify_at 0 v) = Inr v"
proof -
  from assms have "v \<noteq> Undefined" by auto
  then show ?thesis
    using atob_btoa [of "stringify_at 0 v"] parse_json_stringify [OF assms]
    by (simp add: stringify2_def std_btoa_def)
qed

lemma store_env_roundtrip:
  assumes "clean v"
  shows "roundtrip store_env v"
  using codec_inverse [OF assms]
  by (auto simp: roundtrip_def encode_def decode_def content_text_def store_env_def)

lemma store_env_encode:
  assumes "clean v"
  shows "encode store_env v = Inr (b64_encode (map of_char (stringify_at 0 v)))"
  using codec_inverse [OF assms]
  by (auto simp: encode_def content_text_def store_env_def std_btoa_def)

lemma on_store_store_env: "on_store store_env"
  by (simp add: on_store_def store_env_def)

lemma token_set_demo: "token_set demo_config"
  by (simp add: token_set_def demo_config_def)

subsection \<open>The library on the contents store\<close>

lemma store_request_get:
  assumes "on_store E" "token_set cfg"
  shows "makeRequest E cfg path GET Null st =
           ((case files (world st) (contents_url cfg path) of
               None \<Rightarrow> Inl (remote_error 404 ''Not Found'')
             | Some f \<Rightarrow> Inr (Obj [(''content'', Str (file_content f)), (''sha'', Str (file_sha f))])),
            \<lparr>world = world st, sent = sent st @ [build_request cfg path GET Null]\<rparr>)"
  using assms
  by (simp add: on_store_def makeRequest_def do_fetch_def store_fetch_def build_request_def
      failure_response_def plain_response_def api_error_def split: option.splits)

lemma store_getFile_missing:
  assumes "on_store E" "token_set cfg" "stored (world st) cfg path = None"
  shows "getFile E cfg path st =
           (Inr (getDefaultData path),
            \<lparr>world = world st, sent = sent st @ [build_request cfg path GET Null]\<rparr>)"
  using assms(3)
  by (simp add: getFile_def getFile_try_def store_request_get [OF assms(1,2)] stored_def
      is_404_remote_error)

lemma store_getFile_present:
  assumes "on_store E" "token_set cfg" "stored (world st) cfg path = Some c"
  shows "getFile E cfg path st =
           ((case decode E c of
               Inl e \<Rightarrow> if is_404 e then Inr (getDefaultData path) else Inl e
             | Inr v \<Rightarrow> Inr v),
            \<lparr>world = world st, sent = sent st @ [build_request cfg path GET Null]\<rparr>)"
  using assms(3)
  by (auto simp add: getFile_def getFile_try_def store_request_get [OF assms(1,2)] stored_def
      decode_def split: sum.splits)

lemma store_getFile_world:
  assumes "on_store E" "token_set cfg"
  shows "snd (getFile E cfg path st) =
           \<lparr>world = world st, sent = sent st @ [build_request cfg path GET Null]\<rparr>"
proof (cases "stored (world st) cfg path")
  case None
  then show ?thesis using store_getFile_missing [OF assms] by simp
next
  case (Some c)
  then show ?thesis using store_getFile_present [OF assms] by simp
qed

lemma store_request_create:
  assumes "on_store E" "token_set cfg" "files (world st) (contents_url cfg path) = None"
  shows "\<exists>r. makeRequest E cfg path POST (post_body msg c) st =
           (Inr r, \<lparr>world = saved_world (world st) cfg path c,
                    sent = sent st @ [build_request cfg path POST (post_body msg c)]\<rparr>)"
  using assms
  by (simp add: makeRequest_def do_fetch_def on_store_def store_fetch_def
      build_request_def post_body_def store_write_def plain_response_def saved_world_def Let_def)

lemma store_request_update:
  assumes "on_store E" "token_set cfg" "files (world st) (contents_url cfg path) = Some f"
  shows "\<exists>r. makeRequest E cfg path PUT (put_body msg c (Str (file_sha f))) st =
           (Inr r, \<lparr>world = saved_world (world st) cfg path c,
                    sent = sent st @ [build_request cfg path PUT (put_body msg c (Str (file_sha f)))]\<rparr>)"
  using assms
  by (simp add: makeRequest_def do_fetch_def on_store_def store_fetch_def
      build_request_def put_body_def store_write_def plain_response_def saved_world_def Let_def)

lemma store_saveFile:
  assumes "on_store E" "token_set cfg" "encode E v = Inr c"
  shows "\<exists>r. saveFile E cfg path v (Some msg) st =
           (Inr r,
            \<lparr>world = saved_world (world st) cfg path c,
             sent = sent st @ [build_request cfg path GET Null,
                               write_request (world st) cfg path msg c]\<rparr>)"
proof (cases "files (world st) (contents_url cfg path)")
  case None
  let ?st1 = "\<lparr>world = world st, sent = sent st @ [build_request cfg path GET Null]\<rparr>"
  from None have "files (world ?st1) (contents_url cfg path) = None" by simp
  from store_request_create [OF assms(1,2) this, of msg c]
  obtain r where "makeRequest E cfg path POST (post_body msg c) ?st1 =
           (Inr r, \<lparr>world = saved_world (world st) cfg path c,
                    sent = sent st @ [build_request cfg path GET Null,
                                      build_request cfg path POST (post_body msg c)]\<rparr>)"
    by auto
  with None assms(3) show ?thesis
    by (simp add: saveFile_def saveFile_try_def store_request_get [OF assms(1,2)] encode_def
        is_404_remote_error write_request_def)
next
  case (Some f)
  let ?st1 = "\<lparr>world = world st, sent = sent st @ [build_request cfg path GET Null]\<rparr>"
  from Some have "files (world ?st1) (contents_url cfg path) = Some f" by simp
  from store_request_update [OF assms(1,2) this, of msg c]
  obtain r where "makeRequest E cfg path PUT (put_body msg c (Str (file_sha f))) ?st1 =
           (Inr r, \<lparr>world = saved_world (world st) cfg path c,
                    sent = sent st @ [build_request cfg path GET Null,
                                      build_request cfg path PUT (put_body msg c (Str (file_sha f)))]\<rparr>)"
    by auto
  with Some assms(3) show ?thesis
    by (simp add: saveFile_def saveFile_try_def store_request_get [OF assms(1,2)] encode_def
        write_request_def)
qed

subsection \<open>Records and sequences\<close>

lemma map_of_set_prop: "map_of (set_prop k v acc) = (map_of acc)(k \<mapsto> v)"
  by (induction acc) (auto simp: fun_upd_twist)

text \<open>A key that starts with a letter is no array index, so it is enumerated before
  no other key.\<close>

lemma array_index_digits:
  assumes "array_index k = Some n"
  shows "k \<noteq> []" "is_digit (hd k)"
proof -
  from assms have k: "k = show_nat (digits_value k)"
    by (simp add: array_index_def Let_def split: if_splits)
  show "k \<noteq> []"
    using show_nat_nonempty [of "digits_value k"] k by simp
  then show "is_digit (hd k)"
    using show_nat_digits [of "digits_value k"] k by (cases k) auto
qed

lemma array_index_letter:
  assumes "57 < (of_char (hd k) :: nat)"
  shows "array_index k = None"
proof (cases "array_index k")
  case (Some n)
  from array_index_digits(2) [OF this] assms show ?thesis
    by (simp add: is_digit_def)
qed simp

lemma letter_first [simp]:
  assumes "57 < (of_char (hd k) :: nat)"
  shows "\<not> enumerated_before k k'"
  using array_index_letter [OF assms] by (simp add: enumerated_before_def)

lemma key_order_simps [simp]:
  "key_order []"
  "key_order (k # ks) = ((\<forall>b \<in> set ks. \<not> enumerated_before b k) \<and> key_order ks)"
  by (simp_all add: key_order_def)

lemma map_of_spread:
  "distinct (map fst kvs) \<Longrightarrow> map_of (spread acc kvs) = map_of acc ++ map_of kvs"
proof (induction kvs arbitrary: acc)
  case Nil
  then show ?case by simp
next
  case (Cons p kvs)
  obtain k v where p: "p = (k, v)" by (cases p)
  with Cons.prems have fresh: "k \<notin> dom (map_of kvs)" and d: "distinct (map fst kvs)"
    by (auto simp: dom_map_of_conv_image_fst)
  have "map_of (spread acc (p # kvs)) = map_of (set_prop k v acc) ++ map_of kvs"
    using Cons.IH [OF d, of "set_prop k v acc"] by (simp only: p spread.simps)
  also have "\<dots> = (map_of acc)(k \<mapsto> v) ++ map_of kvs"
    by (simp only: map_of_set_prop)
  also have "\<dots> = (map_of acc ++ map_of kvs)(k \<mapsto> v)"
    using fresh by (rule map_add_upd_left)
  also have "\<dots> = map_of acc ++ (map_of kvs)(k \<mapsto> v)"
    by (rule map_add_upd [symmetric])
  also have "\<dots> = map_of acc ++ map_of (p # kvs)"
    by (simp only: p map_of.simps fst_conv snd_conv)
  finally show ?case .
qed

lemma new_record_fields:
  assumes "distinct (map fst kvs)" "(k, v) \<in> set kvs"
  shows "get_prop (new_record t (Obj kvs)) k = Inr v"
  using assms by (simp add: new_record_def map_of_spread map_add_def)

text \<open>An array index among the keys of the input is enumerated before the \<open>id\<close> that
  the add sets first.\<close>

lemma show_nat_7: "show_nat 7 = ''7''"
  by (simp add: show_nat.simps digit_char_def char_of_eq_iff)

lemma index_key_first:
  "new_record t (Obj [(''name'', Str ''Roti''), (''7'', Bool True)])
     = Obj [(''7'', Bool True), (''id'', Num t), (''name'', Str ''Roti'')]"
proof -
  have "array_index ''7'' = Some 7"
    by (simp add: array_index_def digits_value_def show_nat_7)
  moreover have "array_index ''id'' = None" "array_index ''name'' = None"
    by (simp_all add: array_index_letter)
  ultimately show ?thesis
    by (simp add: new_record_def enumerated_before_def)
qed


lemma merged_record_fields:
  assumes "distinct (map fst old)" "distinct (map fst patch)"
  shows "get_prop (merged_record (Obj old) (Obj patch)) k =
           (case map_of patch k of None \<Rightarrow> get_prop (Obj old) k | Some v \<Rightarrow> Inr v)"
  using assms by (simp add: merged_record_def map_of_spread map_add_def split: option.splits)

lemma get_prop_record: "r \<noteq> Null \<Longrightarrow> r \<noteq> Undefined \<Longrightarrow> get_prop r k = Inr (case get_prop r k of Inr v \<Rightarrow> v | Inl e \<Rightarrow> Undefined)"
  by (cases r) simp_all

lemma get_id_record: "r \<noteq> Null \<Longrightarrow> r \<noteq> Undefined \<Longrightarrow> get_prop r ''id'' = Inr (id_of r)"
  unfolding id_of_def by (cases r) simp_all

lemma filter_id_records:
  "records xs \<Longrightarrow> filter_id xs i = Inr (filter (\<lambda>r. \<not> has_id r i) xs)"
  by (induction xs) (simp_all add: records_def get_id_record has_id_def)

lemma findIndex_id_records:
  "records xs \<Longrightarrow>
   findIndex_id j xs i =
     Inr (if \<exists>r \<in> set xs. has_id r i then Some (j + first_index xs i) else None)"
  by (induction xs arbitrary: j) (auto simp: records_def get_id_record has_id_def first_index_def)

lemma takeWhile_stops:
  "\<exists>r \<in> set xs. Q r \<Longrightarrow>
   length (takeWhile (\<lambda>r. \<not> Q r) xs) < length xs \<and> Q (xs ! length (takeWhile (\<lambda>r. \<not> Q r) xs))"
  by (induction xs) auto

lemma takeWhile_before:
  "m < length (takeWhile (\<lambda>r. \<not> Q r) xs) \<Longrightarrow> \<not> Q (xs ! m)"
  by (induction xs arbitrary: m) (auto simp: nth_Cons split: nat.splits if_splits)

lemma first_index_props:
  assumes "\<exists>r \<in> set xs. has_id r i"
  shows "first_index xs i < length xs" "has_id (xs ! first_index xs i) i"
    "\<forall>m < first_index xs i. \<not> has_id (xs ! m) i"
  using takeWhile_stops [OF assms] takeWhile_before [of _ "\<lambda>r. has_id r i" xs]
  unfolding first_index_def by blast+

lemma store_getFile:
  assumes "on_store E" "token_set cfg"
  shows "getFile E cfg path st = (fst (getFile E cfg path st), after_read cfg path st)"
  using store_getFile_world [OF assms, of path st]
  by (simp add: after_read_def prod_eq_iff)

lemma store_saveFile_after_read:
  assumes "on_store E" "token_set cfg" "encode E v = Inr c"
  shows "\<exists>r. saveFile E cfg path v (Some msg) (after_read cfg path st) = (Inr r, after_write cfg path msg c st)"
  using store_saveFile [OF assms, of path msg "after_read cfg path st"]
  by (simp add: after_read_def after_write_def)

lemma stored_saved: "stored (saved_world w cfg path c) cfg path = Some c"
  by (simp add: stored_def saved_world_def)

lemma store_read_saved:
  assumes "on_store E" "token_set cfg" "decode E c = Inr v"
  shows "fst (getFile E cfg path (after_write cfg path msg c st)) = Inr v"
  using store_getFile_present [OF assms(1,2), of "after_write cfg path msg c st" path c] assms(3)
  by (simp add: after_write_def stored_saved)

lemma roundtripD:
  assumes "roundtrip E v"
  obtains c where "encode E v = Inr c" "decode E c = Inr v"
  using assms by (auto simp: roundtrip_def split: sum.splits)

lemma write_request_is_write: "is_write (write_request w cfg path msg c)"
  by (simp add: write_request_def is_write_def build_request_def split: option.splits)

lemma sent_since_after_write:
  "sent_since st (after_write cfg path msg c st) =
     [build_request cfg path GET Null, build_request cfg path GET Null,
      write_request (world st) cfg path msg c]"
  by (simp add: sent_since_def after_write_def)

lemma sent_since_after_read:
  "sent_since st (after_read cfg path st) = [build_request cfg path GET Null]"
  by (simp add: sent_since_def after_read_def)

lemma get_is_no_write: "\<not> is_write (build_request cfg path GET Null)"
  by (simp add: is_write_def build_request_def)

lemma store_add_record:
  assumes "on_store E" "token_set cfg"
    and "fst (getFile E cfg path st) = Inr (Arr xs)"
    and "encode E (Arr (xs @ [new_record (clock (world st)) d])) = Inr c"
  shows "add_record E cfg path name msg d st =
           (Inr (new_record (clock (world st)) d), after_write cfg path msg c st)"
proof -
  have g: "getFile E cfg path st = (Inr (Arr xs), after_read cfg path st)"
    using store_getFile [OF assms(1,2), of path st] assms(3) by simp
  have t: "date_now E (world (after_read cfg path st)) = clock (world st)"
    using assms(1) by (simp add: on_store_def after_read_def)
  from store_saveFile_after_read [OF assms(1,2,4), of path msg st]
  obtain r where "saveFile E cfg path (Arr (xs @ [new_record (clock (world st)) d])) (Some msg)
                    (after_read cfg path st) = (Inr r, after_write cfg path msg c st)"
    by blast
  then show ?thesis
    by (simp add: add_record_def g t new_record_def)
qed


lemma store_delete_record:
  assumes "on_store E" "token_set cfg"
    and "fst (getFile E cfg path st) = Inr (Arr xs)" "records xs"
    and "encode E (Arr (filter (\<lambda>r. \<not> has_id r i) xs)) = Inr c"
  shows "delete_record E cfg path name msg i st =
           (Inr (Bool True), after_write cfg path (msg @ to_string i) c st)"
proof -
  have g: "getFile E cfg path st = (Inr (Arr xs), after_read cfg path st)"
    using store_getFile [OF assms(1,2), of path st] assms(3) by simp
  from store_saveFile_after_read [OF assms(1,2,5), of path "msg @ to_string i" st]
  obtain r where "saveFile E cfg path (Arr (filter (\<lambda>r. \<not> has_id r i) xs)) (Some (msg @ to_string i))
                    (after_read cfg path st) = (Inr r, after_write cfg path (msg @ to_string i) c st)"
    by blast
  then show ?thesis
    by (simp add: delete_record_def g filter_id_records [OF assms(4)])
qed

lemma store_update_record_found:
  assumes "on_store E" "token_set cfg"
    and "fst (getFile E cfg path st) = Inr (Arr xs)" "records xs"
    and "\<exists>r \<in> set xs. has_id r i"
    and "encode E (Arr (xs[first_index xs i := merged_record (xs ! first_index xs i) patch])) = Inr c"
  shows "update_record E cfg path name missing msg i patch st =
           (Inr (merged_record (xs ! first_index xs i) patch),
            after_write cfg path (msg @ to_string i) c st)"
proof -
  have g: "getFile E cfg path st = (Inr (Arr xs), after_read cfg path st)"
    using store_getFile [OF assms(1,2), of path st] assms(3) by simp
  have f: "findIndex_id 0 xs i = Inr (Some (first_index xs i))"
    using findIndex_id_records [OF assms(4), of 0 i] assms(5) by simp
  from store_saveFile_after_read [OF assms(1,2,6), of path "msg @ to_string i" st]
  obtain r where "saveFile E cfg path (Arr (xs[first_index xs i := merged_record (xs ! first_index xs i) patch]))
                    (Some (msg @ to_string i)) (after_read cfg path st)
                  = (Inr r, after_write cfg path (msg @ to_string i) c st)"
    by blast
  then show ?thesis
    by (simp add: update_record_def g f merged_record_def Let_def)
qed

lemma store_update_record_missing:
  assumes "on_store E" "token_set cfg"
    and "fst (getFile E cfg path st) = Inr (Arr xs)" "records xs"
    and "\<forall>r \<in> set xs. \<not> has_id r i"
  shows "update_record E cfg path name missing msg i patch st =
           (Inl (Error missing), after_read cfg path st)"
proof -
  have g: "getFile E cfg path st = (Inr (Arr xs), after_read cfg path st)"
    using store_getFile [OF assms(1,2), of path st] assms(3) by simp
  have f: "findIndex_id 0 xs i = Inr None"
    using findIndex_id_records [OF assms(4), of 0 i] assms(5) by simp
  show ?thesis
    by (simp add: update_record_def g f)
qed

lemma add_record_then_read:
  assumes "on_store E" "token_set cfg"
    and "fst (getFile E cfg path st) = Inr (Arr xs)"
    and "roundtrip E (Arr (xs @ [new_record (clock (world st)) d]))"
  shows "fst (add_record E cfg path name msg d st) = Inr (new_record (clock (world st)) d)"
    and "fst (getFile E cfg path (snd (add_record E cfg path name msg d st)))
           = Inr (Arr (xs @ [new_record (clock (world st)) d]))"
proof -
  from assms(4) obtain c where c: "encode E (Arr (xs @ [new_record (clock (world st)) d])) = Inr c"
    "decode E c = Inr (Arr (xs @ [new_record (clock (world st)) d]))"
    by (rule roundtripD)
  note a = store_add_record [OF assms(1,2,3) c(1), of name msg]
  show "fst (add_record E cfg path name msg d st) = Inr (new_record (clock (world st)) d)"
    by (simp add: a)
  show "fst (getFile E cfg path (snd (add_record E cfg path name msg d st)))
           = Inr (Arr (xs @ [new_record (clock (world st)) d]))"
    using store_read_saved [OF assms(1,2) c(2), of path msg st] by (simp add: a)
qed

text \<open>When the sequence cannot be encoded, the add fails with the encoder's error after
  its read: \<open>btoa\<close> is called before the first request of \<open>saveFile\<close>, outside its
  \<open>try\<close>, so nothing is written.\<close>

lemma saveFile_unencodable:
  assumes "encode E data = Inl e"
  shows "saveFile E cfg path data m st = (Inl e, st)"
  using assms by (simp add: saveFile_def encode_def)

lemma add_record_unencodable:
  assumes "on_store E" "token_set cfg"
    and "fst (getFile E cfg path st) = Inr (Arr xs)"
    and "encode E (Arr (xs @ [new_record (clock (world st)) d])) = Inl e"
  shows "add_record E cfg path name msg d st = (Inl e, after_read cfg path st)"
proof -
  have g: "getFile E cfg path st = (Inr (Arr xs), after_read cfg path st)"
    using store_getFile [OF assms(1,2), of path st] assms(3) by simp
  have t: "date_now E (world (after_read cfg path st)) = clock (world st)"
    using assms(1) by (simp add: on_store_def after_read_def)
  have "saveFile E cfg path (Arr (xs @ [new_record (clock (world st)) d])) (Some msg)
          (after_read cfg path st) = (Inl e, after_read cfg path st)"
    using assms(4) by (rule saveFile_unencodable)
  then show ?thesis
    by (simp add: add_record_def g t new_record_def)
qed

text \<open>
  C7. The claim fails: a read returns what the codec reads back, and JSON has no
  \<open>NaN\<close>, so a record added with a \<open>NaN\<close> field is read back with \<open>null\<close> in its
  place. Amended: on the contents store, for products and for categories, when a read
  returns the sequence \<open>xs\<close>, the input is an object \<open>kvs\<close>, and the codec reads the
  sequence \<open>xs\<close> followed by \<open>{id: Date.now(), ...kvs}\<close> back as it was written, then
  the add returns that record, a read after it returns \<open>xs\<close> followed by exactly that
  record (one more record, the earlier ones unchanged), and every field of the input is a
  field of the new record.
\<close>

theorem add_then_read:
  assumes "on_store E" "token_set cfg" "distinct (map fst kvs)"
  shows "\<forall>(get, add) \<in> {(getProducts E cfg, addProduct E cfg),
                          (getCategories E cfg, addCategory E cfg)}.
           \<forall>xs. fst (get st) = Inr (Arr xs) \<longrightarrow>
                roundtrip E (Arr (xs @ [new_record (clock (world st)) (Obj kvs)])) \<longrightarrow>
                fst (add (Obj kvs) st) = Inr (new_record (clock (world st)) (Obj kvs)) \<and>
                fst (get (snd (add (Obj kvs) st)))
                  = Inr (Arr (xs @ [new_record (clock (world st)) (Obj kvs)])) \<and>
                (\<forall>(k, v) \<in> set kvs. get_prop (new_record (clock (world st)) (Obj kvs)) k = Inr v)"
  using add_record_then_read [OF assms(1,2)] new_record_fields [OF assms(3)]
  by (auto simp: getProducts_def addProduct_def getCategories_def addCategory_def)

lemma empty_store_reads:
  "fst (getFile store_env demo_config path empty_store) = Inr (getDefaultData path)"
  using store_getFile_missing [OF on_store_store_env token_set_demo, of empty_store path]
  by (simp add: empty_store_def start_def empty_remote_def stored_def)

lemma clean_default_products: "\<forall>x \<in> set default_products. clean x"
  by (simp add: default_products_def product_record_def)

lemma clean_default_categories: "\<forall>x \<in> set default_categories. clean x"
  by (simp add: default_categories_def category_record_def)

lemma clock_empty_store: "clock (world empty_store) = 1700000000000"
  by (simp add: empty_store_def start_def empty_remote_def)

lemma new_roti: "new_record t roti =
    Obj [(''id'', Num t), (''name'', Str ''Roti''), (''categoryId'', Num 1), (''price'', Num 1000),
         (''stock'', Num 5), (''discount'', Num 0)]"
  by (simp add: new_record_def roti_def)

theorem add_then_read_witness:
  "on_store store_env \<and> token_set demo_config \<and>
   fst (getProducts store_env demo_config empty_store) = Inr (Arr default_products) \<and>
   roundtrip store_env (Arr (default_products @ [new_record 1700000000000 roti])) \<and>
   fst (addProduct store_env demo_config roti empty_store) = Inr (new_record 1700000000000 roti) \<and>
   fst (getProducts store_env demo_config (snd (addProduct store_env demo_config roti empty_store)))
     = Inr (Arr (default_products @ [new_record 1700000000000 roti])) \<and>
   get_prop (new_record 1700000000000 roti) ''price'' = Inr (Num 1000) \<and>
   fst (getCategories store_env demo_config empty_store) = Inr (Arr default_categories) \<and>
   fst (getCategories store_env demo_config (snd (addCategory store_env demo_config roti empty_store)))
     = Inr (Arr (default_categories @ [new_record 1700000000000 roti]))"
proof -
  have d: "distinct (map fst [(''name'', Str ''Roti''), (''categoryId'', Num 1), (''price'', Num 1000),
               (''stock'', Num 5), (''discount'', Num 0)])"
    by simp
  have rp: "fst (getProducts store_env demo_config empty_store) = Inr (Arr default_products)"
    using empty_store_reads [of "''data/products.json''"] by (simp add: getProducts_def getDefaultData_def)
  have rc: "fst (getCategories store_env demo_config empty_store) = Inr (Arr default_categories)"
    using empty_store_reads [of "''data/categories.json''"]
    by (simp add: getCategories_def getDefaultData_def)
  have cp: "roundtrip store_env (Arr (default_products @ [new_record 1700000000000 roti]))"
    using clean_default_products by (intro store_env_roundtrip) (simp add: new_roti)
  have cc: "roundtrip store_env (Arr (default_categories @ [new_record 1700000000000 roti]))"
    using clean_default_categories by (intro store_env_roundtrip) (simp add: new_roti)
  show ?thesis
    using add_then_read [OF on_store_store_env token_set_demo d, of empty_store] rp rc cp cc
    by (simp add: clock_empty_store roti_def [symmetric] on_store_store_env token_set_demo)
qed

text \<open>What the reference codec reads back when two values have the same JSON text.\<close>

lemma reads_back_as:
  assumes "clean b" "a \<noteq> Undefined" "stringify_at 0 a = stringify_at 0 b"
  shows "\<exists>c. encode store_env a = Inr c \<and> decode store_env c = Inr b"
proof -
  from store_env_roundtrip [OF assms(1)] obtain c where
    c: "encode store_env b = Inr c" "decode store_env c = Inr b"
    by (rule roundtripD)
  have "b \<noteq> Undefined"
    using assms(1) by auto
  then have "encode store_env a = encode store_env b"
    using assms(2,3) by (simp add: encode_def content_text_def store_env_def stringify2_def)
  with c show ?thesis by simp
qed

lemma new_roti_nan:
  "new_record t roti_nan = Obj [(''id'', Num t), (''name'', Str ''Roti''), (''price'', NaN)]"
  "new_record t roti_null = Obj [(''id'', Num t), (''name'', Str ''Roti''), (''price'', Null)]"
  by (simp_all add: new_record_def roti_nan_def roti_null_def)

lemma roti_nan_text:
  "stringify_at 0 (Arr (default_products @ [new_record t roti_nan]))
     = stringify_at 0 (Arr (default_products @ [new_record t roti_null]))"
  by (simp add: new_roti_nan)

theorem add_nan_counterexample:
  "get_prop roti_nan ''price'' = Inr NaN \<and>
   fst (addProduct store_env demo_config roti_nan empty_store)
     = Inr (new_record 1700000000000 roti_nan) \<and>
   fst (getProducts store_env demo_config (snd (addProduct store_env demo_config roti_nan empty_store)))
     = Inr (Arr (default_products @ [new_record 1700000000000 roti_null])) \<and>
   get_prop (new_record 1700000000000 roti_null) ''price'' = Inr Null \<and>
   new_record 1700000000000 roti_null \<noteq> new_record 1700000000000 roti_nan"
proof -
  have r: "fst (getFile store_env demo_config ''data/products.json'' empty_store) = Inr (Arr default_products)"
    using empty_store_reads [of "''data/products.json''"] by (simp add: getDefaultData_def)
  have "clean (Arr (default_products @ [new_record 1700000000000 roti_null]))"
    using clean_default_products by (simp add: new_roti_nan)
  from reads_back_as [OF this _ roti_nan_text] obtain c where
    c: "encode store_env (Arr (default_products @ [new_record 1700000000000 roti_nan])) = Inr c"
       "decode store_env c = Inr (Arr (default_products @ [new_record 1700000000000 roti_null]))"
    by auto
  have a: "add_record store_env demo_config ''data/products.json'' ''products'' ''Add new product''
             roti_nan empty_store
           = (Inr (new_record 1700000000000 roti_nan),
              after_write demo_config ''data/products.json'' ''Add new product'' c empty_store)"
    using store_add_record [OF on_store_store_env token_set_demo r, of roti_nan c] c(1)
    by (simp add: clock_empty_store)
  have g: "fst (getFile store_env demo_config ''data/products.json''
                 (after_write demo_config ''data/products.json'' ''Add new product'' c empty_store))
           = Inr (Arr (default_products @ [new_record 1700000000000 roti_null]))"
    using c(2) by (rule store_read_saved [OF on_store_store_env token_set_demo])
  have p: "get_prop roti_nan ''price'' = Inr NaN"
    by (simp add: roti_nan_def)
  have d: "new_record 1700000000000 roti_null \<noteq> new_record 1700000000000 roti_nan"
    "get_prop (new_record 1700000000000 roti_null) ''price'' = Inr Null"
    by (simp_all add: new_roti_nan)
  show ?thesis
    using a g p d by (simp add: addProduct_def getProducts_def)
qed

lemma delete_record_then_read:
  assumes "on_store E" "token_set cfg"
    and "fst (getFile E cfg path st) = Inr (Arr xs)" "records xs"
    and "roundtrip E (Arr (filter (\<lambda>r. \<not> has_id r i) xs))"
  shows "fst (delete_record E cfg path name msg i st) = Inr (Bool True)"
    and "fst (getFile E cfg path (snd (delete_record E cfg path name msg i st)))
           = Inr (Arr (filter (\<lambda>r. \<not> has_id r i) xs))"
    and "\<exists>q \<in> set (sent_since st (snd (delete_record E cfg path name msg i st))). is_write q"
proof -
  from assms(5) obtain c where c: "encode E (Arr (filter (\<lambda>r. \<not> has_id r i) xs)) = Inr c"
    "decode E c = Inr (Arr (filter (\<lambda>r. \<not> has_id r i) xs))"
    by (rule roundtripD)
  note a = store_delete_record [OF assms(1,2,3,4) c(1), of name msg]
  show "fst (delete_record E cfg path name msg i st) = Inr (Bool True)"
    by (simp add: a)
  show "fst (getFile E cfg path (snd (delete_record E cfg path name msg i st)))
           = Inr (Arr (filter (\<lambda>r. \<not> has_id r i) xs))"
    using store_read_saved [OF assms(1,2) c(2), of path "msg @ to_string i" st] by (simp add: a)
  show "\<exists>q \<in> set (sent_since st (snd (delete_record E cfg path name msg i st))). is_write q"
    by (simp add: a sent_since_after_write write_request_is_write)
qed

lemma filter_absent: "\<forall>r \<in> set xs. \<not> has_id r i \<Longrightarrow> filter (\<lambda>r. \<not> has_id r i) xs = xs"
  by (simp add: filter_id_conv)

text \<open>
  C8. On the contents store, for products, categories and contacts: after
  \<open>delete(i)\<close> a read returns a sequence in which no record has the id \<open>i\<close>; when
  no record had it before, that sequence is the original one; and in both cases the
  delete sent a write request.
\<close>

theorem delete_then_read:
  assumes "on_store E" "token_set cfg"
  shows "\<forall>(get, del) \<in> {(getProducts E cfg, deleteProduct E cfg),
                          (getCategories E cfg, deleteCategory E cfg),
                          (getContacts E cfg, deleteContact E cfg)}.
           \<forall>xs. fst (get st) = Inr (Arr xs) \<longrightarrow> records xs \<longrightarrow>
                roundtrip E (Arr (filter (\<lambda>r. \<not> has_id r i) xs)) \<longrightarrow>
                (\<exists>ys. fst (get (snd (del i st))) = Inr (Arr ys) \<and>
                      (\<forall>r \<in> set ys. \<not> has_id r i) \<and>
                      ((\<forall>r \<in> set xs. \<not> has_id r i) \<longrightarrow> ys = xs) \<and>
                      (\<exists>q \<in> set (sent_since st (snd (del i st))). is_write q))"
  using delete_record_then_read(2,3) [OF assms] filter_absent [of _ i]
  by (auto simp: getProducts_def deleteProduct_def getCategories_def deleteCategory_def
      getContacts_def deleteContact_def)

lemma records_default_products: "records default_products"
  by (simp add: records_def default_products_def product_record_def)

lemma has_id_product: "has_id (product_record n a b c d e f g) i = (i = Num n)"
  by (auto simp: has_id_def id_of_def product_record_def elim: strict_eq.elims)

lemma filter_2: "filter (\<lambda>r. \<not> has_id r (Num 2)) default_products = products_without_2"
  by (simp add: default_products_def has_id_product products_without_2_def)

lemma filter_9: "filter (\<lambda>r. \<not> has_id r (Num 9)) default_products = default_products"
  by (simp add: default_products_def has_id_product)

theorem delete_then_read_witness:
  "on_store store_env \<and> token_set demo_config \<and>
   fst (getProducts store_env demo_config empty_store) = Inr (Arr default_products) \<and>
   records default_products \<and>
   roundtrip store_env (Arr (filter (\<lambda>r. \<not> has_id r (Num 2)) default_products)) \<and>
   (\<exists>ys. fst (getProducts store_env demo_config
                 (snd (deleteProduct store_env demo_config (Num 2) empty_store))) = Inr (Arr ys) \<and>
         (\<forall>r \<in> set ys. \<not> has_id r (Num 2)) \<and>
         (\<exists>q \<in> set (sent_since empty_store
                        (snd (deleteProduct store_env demo_config (Num 2) empty_store))). is_write q)) \<and>
   \<not> (\<exists>r \<in> set default_products. has_id r (Num 9)) \<and>
   fst (getProducts store_env demo_config
          (snd (deleteProduct store_env demo_config (Num 9) empty_store))) = Inr (Arr default_products) \<and>
   (\<exists>q \<in> set (sent_since empty_store
                  (snd (deleteProduct store_env demo_config (Num 9) empty_store))). is_write q)"
proof -
  have rp: "fst (getProducts store_env demo_config empty_store) = Inr (Arr default_products)"
    using empty_store_reads [of "''data/products.json''"] by (simp add: getProducts_def getDefaultData_def)
  have "clean (Arr products_without_2)"
    by (simp add: products_without_2_def default_products_def product_record_def)
  then have rt: "roundtrip store_env (Arr (filter (\<lambda>r. \<not> has_id r (Num 2)) default_products))"
    unfolding filter_2 by (rule store_env_roundtrip)
  have "clean (Arr default_products)"
    using clean_default_products by simp
  then have rt9: "roundtrip store_env (Arr (filter (\<lambda>r. \<not> has_id r (Num 9)) default_products))"
    unfolding filter_9 by (rule store_env_roundtrip)
  have absent: "\<forall>r \<in> set default_products. \<not> has_id r (Num 9)"
    by (simp add: default_products_def has_id_product)
  have two: "\<exists>ys. fst (getProducts store_env demo_config
                 (snd (deleteProduct store_env demo_config (Num 2) empty_store))) = Inr (Arr ys) \<and>
         (\<forall>r \<in> set ys. \<not> has_id r (Num 2)) \<and>
         (\<exists>q \<in> set (sent_since empty_store
                        (snd (deleteProduct store_env demo_config (Num 2) empty_store))). is_write q)"
    using delete_then_read [OF on_store_store_env token_set_demo, of empty_store "Num 2"] rp rt
      records_default_products
    by auto
  have nine: "fst (getProducts store_env demo_config
          (snd (deleteProduct store_env demo_config (Num 9) empty_store))) = Inr (Arr default_products) \<and>
     (\<exists>q \<in> set (sent_since empty_store
                  (snd (deleteProduct store_env demo_config (Num 9) empty_store))). is_write q)"
    using delete_then_read [OF on_store_store_env token_set_demo, of empty_store "Num 9"] rp rt9
      records_default_products absent
    by auto
  show ?thesis
    using two nine rp rt absent records_default_products on_store_store_env token_set_demo
    by blast
qed

lemma update_record_then_read:
  assumes "on_store E" "token_set cfg"
    and "fst (getFile E cfg path st) = Inr (Arr xs)" "records xs"
    and "\<exists>r \<in> set xs. has_id r i"
    and "roundtrip E (Arr (xs[first_index xs i := merged_record (xs ! first_index xs i) patch]))"
  shows "fst (update_record E cfg path name missing msg i patch st)
           = Inr (merged_record (xs ! first_index xs i) patch)"
    and "fst (getFile E cfg path (snd (update_record E cfg path name missing msg i patch st)))
           = Inr (Arr (xs[first_index xs i := merged_record (xs ! first_index xs i) patch]))"
proof -
  let ?ys = "xs[first_index xs i := merged_record (xs ! first_index xs i) patch]"
  from assms(6) obtain c where c: "encode E (Arr ?ys) = Inr c" "decode E c = Inr (Arr ?ys)"
    by (rule roundtripD)
  note a = store_update_record_found [OF assms(1,2,3,4,5) c(1), of name missing msg]
  show "fst (update_record E cfg path name missing msg i patch st)
           = Inr (merged_record (xs ! first_index xs i) patch)"
    by (simp add: a)
  show "fst (getFile E cfg path (snd (update_record E cfg path name missing msg i patch st)))
           = Inr (Arr ?ys)"
    using store_read_saved [OF assms(1,2) c(2), of path "msg @ to_string i" st] by (simp add: a)
qed

lemma update_record_missing:
  assumes "on_store E" "token_set cfg"
    and "fst (getFile E cfg path st) = Inr (Arr xs)" "records xs"
    and "\<forall>r \<in> set xs. \<not> has_id r i"
  shows "fst (update_record E cfg path name missing msg i patch st) = Inl (Error missing)"
    and "world (snd (update_record E cfg path name missing msg i patch st)) = world st"
    and "\<forall>q \<in> set (sent_since st (snd (update_record E cfg path name missing msg i patch st))).
           \<not> is_write q"
  using store_update_record_missing [OF assms, of name missing msg patch]
  by (simp_all add: sent_since_after_read get_is_no_write) (simp add: after_read_def)

text \<open>As for an add, an update whose merged sequence cannot be encoded fails with the
  encoder's error after its read and writes nothing.\<close>

lemma update_record_unencodable:
  assumes "on_store E" "token_set cfg"
    and "fst (getFile E cfg path st) = Inr (Arr xs)" "records xs"
    and "\<exists>r \<in> set xs. has_id r i"
    and "encode E (Arr (xs[first_index xs i := merged_record (xs ! first_index xs i) patch])) = Inl e"
  shows "update_record E cfg path name missing msg i patch st = (Inl e, after_read cfg path st)"
proof -
  have g: "getFile E cfg path st = (Inr (Arr xs), after_read cfg path st)"
    using store_getFile [OF assms(1,2), of path st] assms(3) by simp
  have f: "findIndex_id 0 xs i = Inr (Some (first_index xs i))"
    using findIndex_id_records [OF assms(4), of 0 i] assms(5) by simp
  have "saveFile E cfg path (Arr (xs[first_index xs i := merged_record (xs ! first_index xs i) patch]))
          (Some (msg @ to_string i)) (after_read cfg path st) = (Inl e, after_read cfg path st)"
    using assms(6) by (rule saveFile_unencodable)
  then show ?thesis
    by (simp add: update_record_def g f merged_record_def Let_def)
qed

text \<open>
  C3. The claim fails: a patch with a \<open>NaN\<close> field is merged and returned as it is,
  but JSON has no \<open>NaN\<close>, so the record is written and read back with \<open>null\<close> in
  its place. Amended: on the contents store, for products and for categories, with
  \<open>xs\<close> the sequence a read returns. When some record has the id \<open>i\<close> and the codec
  reads the sequence with the merged record back as it was written, the update returns
  the shallow merge of the first such record with the patch, and a read after it returns
  \<open>xs\<close> with that record replaced by the merge and every other position unchanged.
  When no record has the id, the update fails with the not-found error, leaves the store
  as it was and sends no write. A field of the merge is the patch's when the patch has
  it, the old record's otherwise.
\<close>

theorem update_then_read:
  assumes "on_store E" "token_set cfg"
  shows "(\<forall>(get, upd, missing) \<in> {(getProducts E cfg, updateProduct E cfg, ''Product not found''),
                                    (getCategories E cfg, updateCategory E cfg, ''Category not found'')}.
           \<forall>xs. fst (get st) = Inr (Arr xs) \<longrightarrow> records xs \<longrightarrow>
             ((\<exists>r \<in> set xs. has_id r i) \<longrightarrow>
                roundtrip E (Arr (xs[first_index xs i := merged_record (xs ! first_index xs i) patch])) \<longrightarrow>
                  has_id (xs ! first_index xs i) i \<and>
                  fst (upd i patch st) = Inr (merged_record (xs ! first_index xs i) patch) \<and>
                  fst (get (snd (upd i patch st)))
                    = Inr (Arr (xs[first_index xs i := merged_record (xs ! first_index xs i) patch]))) \<and>
             ((\<forall>r \<in> set xs. \<not> has_id r i) \<longrightarrow>
                  fst (upd i patch st) = Inl (Error missing) \<and>
                  world (snd (upd i patch st)) = world st \<and>
                  (\<forall>q \<in> set (sent_since st (snd (upd i patch st))). \<not> is_write q))) \<and>
         (\<forall>old new k. distinct (map fst old) \<longrightarrow> distinct (map fst new) \<longrightarrow>
           get_prop (merged_record (Obj old) (Obj new)) k =
             (case map_of new k of None \<Rightarrow> get_prop (Obj old) k | Some v \<Rightarrow> Inr v))"
proof -
  have fields: "\<forall>old new k. distinct (map fst old) \<longrightarrow> distinct (map fst new) \<longrightarrow>
           get_prop (merged_record (Obj old) (Obj new)) k =
             (case map_of new k of None \<Rightarrow> get_prop (Obj old) k | Some v \<Rightarrow> Inr v)"
    using merged_record_fields by blast
  have found: "has_id (xs ! first_index xs i) i \<and>
      fst (update_record E cfg path name missing msg i patch st)
        = Inr (merged_record (xs ! first_index xs i) patch) \<and>
      fst (getFile E cfg path (snd (update_record E cfg path name missing msg i patch st)))
        = Inr (Arr (xs[first_index xs i := merged_record (xs ! first_index xs i) patch]))"
    if "fst (getFile E cfg path st) = Inr (Arr xs)" "records xs" "\<exists>r \<in> set xs. has_id r i"
      "roundtrip E (Arr (xs[first_index xs i := merged_record (xs ! first_index xs i) patch]))"
    for path name missing msg xs
    using update_record_then_read [OF assms that, of name missing msg] first_index_props(2) [OF that(3)]
    by simp
  have absent: "fst (update_record E cfg path name missing msg i patch st) = Inl (Error missing) \<and>
      world (snd (update_record E cfg path name missing msg i patch st)) = world st \<and>
      (\<forall>q \<in> set (sent_since st (snd (update_record E cfg path name missing msg i patch st))).
           \<not> is_write q)"
    if "fst (getFile E cfg path st) = Inr (Arr xs)" "records xs" "\<forall>r \<in> set xs. \<not> has_id r i"
    for path name missing msg xs
    using update_record_missing [OF assms that, of name missing msg patch] by simp
  show ?thesis
    using found absent fields
    by (simp add: getProducts_def updateProduct_def getCategories_def updateCategory_def)
qed

lemma first_index_2: "first_index default_products (Num 2) = 1"
  by (simp add: first_index_def default_products_def has_id_product)

lemma merged_croissant:
  "merged_record (default_products ! first_index default_products (Num 2))
     (Obj [(''price'', Num 19000)]) = croissant_repriced"
  unfolding first_index_2
  by (simp add: default_products_def merged_record_def product_record_def croissant_repriced_def)

lemma repriced:
  "default_products[first_index default_products (Num 2) := croissant_repriced] = products_repriced"
  unfolding first_index_2 by (simp add: products_repriced_def)

lemma present_2: "\<exists>r \<in> set default_products. has_id r (Num 2)"
  by (simp add: default_products_def has_id_product)

lemma absent_9: "\<forall>r \<in> set default_products. \<not> has_id r (Num 9)"
  by (simp add: default_products_def has_id_product)

lemma reads_default_products:
  "fst (getProducts store_env demo_config empty_store) = Inr (Arr default_products)"
  using empty_store_reads [of "''data/products.json''"] by (simp add: getProducts_def getDefaultData_def)

lemma clean_products_repriced: "clean (Arr products_repriced)"
  by (simp add: products_repriced_def default_products_def product_record_def croissant_repriced_def)

theorem update_then_read_witness:
  "on_store store_env \<and> token_set demo_config \<and>
   fst (getProducts store_env demo_config empty_store) = Inr (Arr default_products) \<and>
   records default_products \<and>
   (\<exists>r \<in> set default_products. has_id r (Num 2)) \<and>
   roundtrip store_env (Arr products_repriced) \<and>
   fst (updateProduct store_env demo_config (Num 2) (Obj [(''price'', Num 19000)]) empty_store)
     = Inr croissant_repriced \<and>
   fst (getProducts store_env demo_config
          (snd (updateProduct store_env demo_config (Num 2) (Obj [(''price'', Num 19000)]) empty_store)))
     = Inr (Arr products_repriced) \<and>
   \<not> (\<exists>r \<in> set default_products. has_id r (Num 9)) \<and>
   fst (updateProduct store_env demo_config (Num 9) (Obj [(''price'', Num 19000)]) empty_store)
     = Inl (Error ''Product not found'') \<and>
   world (snd (updateProduct store_env demo_config (Num 9) (Obj [(''price'', Num 19000)]) empty_store))
     = world empty_store \<and>
   get_prop (merged_record (Obj [(''id'', Num 2), (''price'', Num 18000)]) (Obj [(''price'', Num 19000)]))
      ''price'' = Inr (Num 19000) \<and>
   get_prop (merged_record (Obj [(''id'', Num 2), (''price'', Num 18000)]) (Obj [(''price'', Num 19000)]))
      ''id'' = Inr (Num 2)"
proof -
  have rt: "roundtrip store_env (Arr products_repriced)"
    using clean_products_repriced by (rule store_env_roundtrip)
  note t2 = update_then_read [OF on_store_store_env token_set_demo, of empty_store "Num 2"
      "Obj [(''price'', Num 19000)]"]
  note t9 = update_then_read [OF on_store_store_env token_set_demo, of empty_store "Num 9"
      "Obj [(''price'', Num 19000)]"]
  have two: "fst (updateProduct store_env demo_config (Num 2) (Obj [(''price'', Num 19000)]) empty_store)
     = Inr croissant_repriced \<and>
   fst (getProducts store_env demo_config
          (snd (updateProduct store_env demo_config (Num 2) (Obj [(''price'', Num 19000)]) empty_store)))
     = Inr (Arr products_repriced)"
    using t2 reads_default_products records_default_products present_2 rt
    by (simp add: merged_croissant repriced)
  have nine: "fst (updateProduct store_env demo_config (Num 9) (Obj [(''price'', Num 19000)]) empty_store)
     = Inl (Error ''Product not found'') \<and>
   world (snd (updateProduct store_env demo_config (Num 9) (Obj [(''price'', Num 19000)]) empty_store))
     = world empty_store"
    using t9 reads_default_products records_default_products absent_9
    by simp
  have fields: "get_prop (merged_record (Obj [(''id'', Num 2), (''price'', Num 18000)]) (Obj [(''price'', Num 19000)]))
      ''price'' = Inr (Num 19000) \<and>
   get_prop (merged_record (Obj [(''id'', Num 2), (''price'', Num 18000)]) (Obj [(''price'', Num 19000)]))
      ''id'' = Inr (Num 2)"
    using t2 by simp
  show ?thesis
    using two nine fields rt reads_default_products records_default_products present_2 absent_9
      on_store_store_env token_set_demo
    by blast
qed

lemma croissant_default:
  "default_products ! first_index default_products (Num 2) = croissant_priced (Num 18000)"
  unfolding first_index_2
  by (simp add: default_products_def product_record_def croissant_priced_def)

lemma merged_croissant_priced:
  "merged_record (default_products ! first_index default_products (Num 2)) (Obj [(''price'', p)])
     = croissant_priced p"
  unfolding croissant_default by (simp add: merged_record_def croissant_priced_def)

lemma croissant_nan_text:
  "stringify_at 0 (Arr (default_products[first_index default_products (Num 2) := croissant_priced NaN]))
     = stringify_at 0 (Arr (default_products[first_index default_products (Num 2) := croissant_priced Null]))"
  by (simp add: map_update croissant_priced_def)

lemma clean_croissant_null:
  "clean (Arr (default_products[first_index default_products (Num 2) := croissant_priced Null]))"
  unfolding first_index_2
  by (simp add: default_products_def product_record_def croissant_priced_def)

theorem update_nan_counterexample:
  "fst (updateProduct store_env demo_config (Num 2) (Obj [(''price'', NaN)]) empty_store)
     = Inr (croissant_priced NaN) \<and>
   merged_record (default_products ! 1) (Obj [(''price'', NaN)]) = croissant_priced NaN \<and>
   fst (getProducts store_env demo_config
          (snd (updateProduct store_env demo_config (Num 2) (Obj [(''price'', NaN)]) empty_store)))
     = Inr (Arr (default_products[1 := croissant_priced Null])) \<and>
   get_prop (croissant_priced Null) ''price'' = Inr Null \<and>
   croissant_priced Null \<noteq> croissant_priced NaN"
proof -
  let ?i = "first_index default_products (Num 2)"
  have r: "fst (getFile store_env demo_config ''data/products.json'' empty_store) = Inr (Arr default_products)"
    using empty_store_reads [of "''data/products.json''"] by (simp add: getDefaultData_def)
  from reads_back_as [OF clean_croissant_null _ croissant_nan_text] obtain c where
    c: "encode store_env (Arr (default_products[?i := croissant_priced NaN])) = Inr c"
       "decode store_env c = Inr (Arr (default_products[?i := croissant_priced Null]))"
    by auto
  have u: "update_record store_env demo_config ''data/products.json'' ''products'' ''Product not found''
             ''Update product '' (Num 2) (Obj [(''price'', NaN)]) empty_store
           = (Inr (croissant_priced NaN),
              after_write demo_config ''data/products.json'' (''Update product '' @ to_string (Num 2)) c
                empty_store)"
    using store_update_record_found [OF on_store_store_env token_set_demo r records_default_products
        present_2, of "Obj [(''price'', NaN)]" c] c(1)
    by (simp add: merged_croissant_priced)
  have g: "fst (getFile store_env demo_config ''data/products.json''
                 (after_write demo_config ''data/products.json'' (''Update product '' @ to_string (Num 2)) c
                    empty_store))
           = Inr (Arr (default_products[?i := croissant_priced Null]))"
    using c(2) by (rule store_read_saved [OF on_store_store_env token_set_demo])
  have m: "merged_record (default_products ! 1) (Obj [(''price'', NaN)]) = croissant_priced NaN"
    using merged_croissant_priced [of NaN] by (simp add: first_index_2)
  have d: "get_prop (croissant_priced Null) ''price'' = Inr Null"
    "croissant_priced Null \<noteq> croissant_priced NaN"
    by (simp_all add: croissant_priced_def)
  show ?thesis
    using u g m d by (simp add: updateProduct_def getProducts_def first_index_2)
qed






lemma id_of_new_roti: "id_of (new_record t roti) = Num t"
  by (simp add: new_roti id_of_def)

lemma empty_store_add_roti:
  assumes "on_store E" "token_set cfg"
    and "stored (world st) cfg ''data/products.json'' = None"
    and "roundtrip E (Arr (default_products @ [new_record (clock (world st)) roti]))"
  shows "fst (addProduct E cfg roti st) = Inr (new_record (clock (world st)) roti)"
    and "fst (getProducts E cfg (snd (addProduct E cfg roti st)))
           = Inr (Arr (default_products @ [new_record (clock (world st)) roti]))"
proof -
  have r: "fst (getFile E cfg ''data/products.json'' st) = Inr (Arr default_products)"
    using store_getFile_missing [OF assms(1,2,3)] by (simp add: getDefaultData_def)
  show "fst (addProduct E cfg roti st) = Inr (new_record (clock (world st)) roti)"
    using add_record_then_read(1) [OF assms(1,2) r assms(4)] by (simp add: addProduct_def)
  show "fst (getProducts E cfg (snd (addProduct E cfg roti st)))
           = Inr (Arr (default_products @ [new_record (clock (world st)) roti]))"
    using add_record_then_read(2) [OF assms(1,2) r assms(4)]
    by (simp add: addProduct_def getProducts_def)
qed

lemma length_default_products: "length default_products = 5"
  by (simp add: default_products_def)

text \<open>
  C6. The claim fails: a read of the missing products document returns the five built-in
  default products, so the first add writes six records. Amended: given a store without
  a products document, \<open>addProduct\<close> of the scenario's record returns that record with
  the numeric id \<open>Date.now()\<close>, and a read after it returns a six-element list: the five
  default products followed by exactly that record.
\<close>

theorem first_add_keeps_defaults:
  assumes "on_store E" "token_set cfg"
    and "stored (world st) cfg ''data/products.json'' = None"
    and "roundtrip E (Arr (default_products @ [new_record (clock (world st)) roti]))"
  shows "fst (addProduct E cfg roti st) = Inr (new_record (clock (world st)) roti) \<and>
         id_of (new_record (clock (world st)) roti) = Num (clock (world st)) \<and>
         fst (getProducts E cfg (snd (addProduct E cfg roti st)))
           = Inr (Arr (default_products @ [new_record (clock (world st)) roti])) \<and>
         length (default_products @ [new_record (clock (world st)) roti]) = 6"
  using empty_store_add_roti [OF assms] id_of_new_roti length_default_products by simp

lemma empty_store_stored: "stored (world empty_store) demo_config path = None"
  by (simp add: empty_store_def start_def empty_remote_def stored_def)

lemma roundtrip_products_roti:
  "roundtrip store_env (Arr (default_products @ [new_record (clock (world empty_store)) roti]))"
  using clean_default_products by (intro store_env_roundtrip) (simp add: new_roti)

theorem first_add_keeps_defaults_witness:
  "on_store store_env \<and> token_set demo_config \<and>
   stored (world empty_store) demo_config ''data/products.json'' = None \<and>
   roundtrip store_env (Arr (default_products @ [new_record (clock (world empty_store)) roti])) \<and>
   fst (addProduct store_env demo_config roti empty_store)
     = Inr (new_record (clock (world empty_store)) roti) \<and>
   id_of (new_record (clock (world empty_store)) roti) = Num 1700000000000 \<and>
   fst (getProducts store_env demo_config (snd (addProduct store_env demo_config roti empty_store)))
     = Inr (Arr (default_products @ [new_record (clock (world empty_store)) roti])) \<and>
   length (default_products @ [new_record (clock (world empty_store)) roti]) = 6"
  using first_add_keeps_defaults [OF on_store_store_env token_set_demo empty_store_stored
      roundtrip_products_roti]
    on_store_store_env token_set_demo empty_store_stored roundtrip_products_roti
  by (simp add: clock_empty_store)

theorem first_add_one_element_counterexample:
  "fst (addProduct store_env demo_config roti empty_store) = Inr (new_record 1700000000000 roti) \<and>
   fst (getProducts store_env demo_config (snd (addProduct store_env demo_config roti empty_store)))
     \<noteq> Inr (Arr [new_record 1700000000000 roti])"
  using empty_store_add_roti [OF on_store_store_env token_set_demo empty_store_stored
      roundtrip_products_roti] length_default_products
  by (auto simp: clock_empty_store)













text \<open>The ids that an add takes from the clock collide as well: a second add within
  the same millisecond, now on an existing document, stores a second record with the
  same id.\<close>

lemma after_first_roti_world:
  "\<exists>c. encode store_env (Arr (default_products @ [new_record 1700000000000 roti])) = Inr c \<and>
       world after_first_roti = saved_world (world empty_store) demo_config ''data/products.json'' c"
proof -
  have r: "fst (getFile store_env demo_config ''data/products.json'' empty_store) = Inr (Arr default_products)"
    using empty_store_reads [of "''data/products.json''"] by (simp add: getDefaultData_def)
  from roundtrip_products_roti obtain c where
    c: "encode store_env (Arr (default_products @ [new_record (clock (world empty_store)) roti])) = Inr c"
    by (rule roundtripD)
  from store_add_record [OF on_store_store_env token_set_demo r c, of "''products''" "''Add new product''"]
  have "world after_first_roti = saved_world (world empty_store) demo_config ''data/products.json'' c"
    by (simp add: after_first_roti_def addProduct_def after_write_def)
  with c show ?thesis by (auto simp: clock_empty_store)
qed

lemma clock_after_first_roti: "clock (world after_first_roti) = 1700000000000"
  using after_first_roti_world by (auto simp: saved_world_def clock_empty_store)

lemma reads_after_first_roti:
  "fst (getProducts store_env demo_config after_first_roti)
     = Inr (Arr (default_products @ [new_record 1700000000000 roti]))"
  using empty_store_add_roti(2) [OF on_store_store_env token_set_demo empty_store_stored
      roundtrip_products_roti]
  by (simp add: after_first_roti_def clock_empty_store)

lemma same_millisecond_ids_collide:
  "fst (addProduct store_env demo_config roti after_first_roti) = Inr (new_record 1700000000000 roti) \<and>
   fst (getProducts store_env demo_config (snd (addProduct store_env demo_config roti after_first_roti)))
     = Inr (Arr (default_products @ [new_record 1700000000000 roti, new_record 1700000000000 roti])) \<and>
   \<not> ids_unique (default_products @ [new_record 1700000000000 roti, new_record 1700000000000 roti])"
proof -
  have r: "fst (getFile store_env demo_config ''data/products.json'' after_first_roti)
             = Inr (Arr (default_products @ [new_record 1700000000000 roti]))"
    using reads_after_first_roti by (simp add: getProducts_def)
  have rt: "roundtrip store_env (Arr ((default_products @ [new_record 1700000000000 roti]) @
              [new_record (clock (world after_first_roti)) roti]))"
    using clean_default_products
    by (intro store_env_roundtrip) (simp add: new_roti clock_after_first_roti)
  note a = add_record_then_read [OF on_store_store_env token_set_demo r rt,
      of "''products''" "''Add new product''"]
  have "\<not> ids_unique (default_products @ [new_record 1700000000000 roti, new_record 1700000000000 roti])"
    by (simp add: ids_unique_def)
  then show ?thesis
    using a by (simp add: addProduct_def getProducts_def clock_after_first_roti)
qed

lemma reads_empty_orders: "fst (getOrders store_env demo_config empty_store) = Inr (Arr [])"
  using empty_store_reads [of "''data/orders.json''"] by (simp add: getOrders_def getDefaultData_def)







lemma contents_url_inject: "contents_url cfg p = contents_url cfg q \<Longrightarrow> p = q"
  by (simp add: contents_url_def)

lemma stored_saved_other:
  "p \<noteq> q \<Longrightarrow> stored (saved_world w cfg p c) cfg q = stored w cfg q"
  using contents_url_inject [of cfg p q] by (auto simp: stored_def saved_world_def)

lemma store_getFile_value:
  assumes "on_store E" "token_set cfg" "stored (world st) cfg path = Some c" "decode E c = Inr v"
  shows "fst (getFile E cfg path st) = Inr v"
  using store_getFile_present [OF assms(1,2,3)] assms(4) by simp

lemma store_getFile_same_world:
  assumes "on_store E" "token_set cfg" "world st' = world st"
  shows "fst (getFile E cfg path st') = fst (getFile E cfg path st)"
proof (cases "stored (world st) cfg path")
  case None
  then show ?thesis
    using store_getFile_missing [OF assms(1,2), of st path] store_getFile_missing [OF assms(1,2), of st' path]
      assms(3) by simp
next
  case (Some c)
  then show ?thesis
    using store_getFile_present [OF assms(1,2), of st path c]
      store_getFile_present [OF assms(1,2), of st' path c] assms(3) by simp
qed

lemma store_getFile_step:
  assumes "on_store E" "token_set cfg"
  shows "\<exists>st'. getFile E cfg path st = (fst (getFile E cfg path st), st') \<and> world st' = world st"
  using store_getFile [OF assms, of path st] by (auto simp: after_read_def)

lemma store_saveFile_step:
  assumes "on_store E" "token_set cfg" "encode E v = Inr c"
  shows "\<exists>r st'. saveFile E cfg path v (Some msg) st = (Inr r, st') \<and>
                  world st' = saved_world (world st) cfg path c"
  using store_saveFile [OF assms, of path msg st] by auto

lemma store_exportData:
  assumes "on_store E" "token_set cfg"
    and "fst (getProducts E cfg st) = Inr ps" "fst (getCategories E cfg st) = Inr cs"
    and "fst (getOrders E cfg st) = Inr os" "fst (getContacts E cfg st) = Inr ns"
    and "fst (getWebsiteConfig E cfg st) = Inr ws"
  shows "\<exists>st'. exportData E cfg st =
           (Inr (Obj [(''timestamp'', Str (clock_iso (world st))), (''products'', ps),
                      (''categories'', cs), (''orders'', os), (''contacts'', ns),
                      (''website'', ws)]), st') \<and> world st' = world st"
proof -
  from store_getFile_step [OF assms(1,2), of "''data/products.json''" st] assms(3)
  obtain s1 where 1: "getFile E cfg ''data/products.json'' st = (Inr ps, s1)" "world s1 = world st"
    by (auto simp: getProducts_def)
  from store_getFile_step [OF assms(1,2), of "''data/categories.json''" s1]
    store_getFile_same_world [OF assms(1,2) 1(2), of "''data/categories.json''"] assms(4)
  obtain s2 where 2: "getFile E cfg ''data/categories.json'' s1 = (Inr cs, s2)" "world s2 = world st"
    using 1(2) by (auto simp: getCategories_def)
  from store_getFile_step [OF assms(1,2), of "''data/orders.json''" s2]
    store_getFile_same_world [OF assms(1,2) 2(2), of "''data/orders.json''"] assms(5)
  obtain s3 where 3: "getFile E cfg ''data/orders.json'' s2 = (Inr os, s3)" "world s3 = world st"
    using 2(2) by (auto simp: getOrders_def)
  from store_getFile_step [OF assms(1,2), of "''data/contacts.json''" s3]
    store_getFile_same_world [OF assms(1,2) 3(2), of "''data/contacts.json''"] assms(6)
  obtain s4 where 4: "getFile E cfg ''data/contacts.json'' s3 = (Inr ns, s4)" "world s4 = world st"
    using 3(2) by (auto simp: getContacts_def)
  from store_getFile_step [OF assms(1,2), of "''data/website.json''" s4]
    store_getFile_same_world [OF assms(1,2) 4(2), of "''data/website.json''"] assms(7)
  obtain s5 where 5: "getFile E cfg ''data/website.json'' s4 = (Inr ws, s5)" "world s5 = world st"
    using 4(2) by (auto simp: getWebsiteConfig_def)
  have "iso_now E = clock_iso" using assms(1) by (simp add: on_store_def)
  then show ?thesis
    using 1 2 3 4 5
    by (simp add: exportData_def getProducts_def getCategories_def getOrders_def getContacts_def
        getWebsiteConfig_def)
qed

lemma store_importData:
  assumes "on_store E" "token_set cfg"
    and "truthy ps" "truthy cs" "truthy os" "truthy ns" "truthy ws"
    and "encode E ps = Inr c1" "encode E cs = Inr c2" "encode E os = Inr c3"
    and "encode E ns = Inr c4" "encode E ws = Inr c5"
  shows "\<exists>st'. importData E cfg (snapshot stamp ps cs os ns ws) st = (Inr import_ok, st') \<and>
           world st' =
             saved_world (saved_world (saved_world (saved_world (saved_world (world st)
               cfg ''data/products.json'' c1) cfg ''data/categories.json'' c2)
               cfg ''data/orders.json'' c3) cfg ''data/contacts.json'' c4)
               cfg ''data/website.json'' c5"
proof -
  from store_saveFile_step [OF assms(1,2,8), of "''data/products.json''" "''Import products''" st]
  obtain r1 s1 where 1: "saveFile E cfg ''data/products.json'' ps (Some ''Import products'') st = (Inr r1, s1)"
    "world s1 = saved_world (world st) cfg ''data/products.json'' c1" by blast
  from store_saveFile_step [OF assms(1,2,9), of "''data/categories.json''" "''Import categories''" s1]
  obtain r2 s2 where 2: "saveFile E cfg ''data/categories.json'' cs (Some ''Import categories'') s1 = (Inr r2, s2)"
    "world s2 = saved_world (world s1) cfg ''data/categories.json'' c2" by blast
  from store_saveFile_step [OF assms(1,2,10), of "''data/orders.json''" "''Import orders''" s2]
  obtain r3 s3 where 3: "saveFile E cfg ''data/orders.json'' os (Some ''Import orders'') s2 = (Inr r3, s3)"
    "world s3 = saved_world (world s2) cfg ''data/orders.json'' c3" by blast
  from store_saveFile_step [OF assms(1,2,11), of "''data/contacts.json''" "''Import contacts''" s3]
  obtain r4 s4 where 4: "saveFile E cfg ''data/contacts.json'' ns (Some ''Import contacts'') s3 = (Inr r4, s4)"
    "world s4 = saved_world (world s3) cfg ''data/contacts.json'' c4" by blast
  from store_saveFile_step [OF assms(1,2,12), of "''data/website.json''" "''Import website config''" s4]
  obtain r5 s5 where 5: "saveFile E cfg ''data/website.json'' ws (Some ''Import website config'') s4 = (Inr r5, s5)"
    "world s5 = saved_world (world s4) cfg ''data/website.json'' c5" by blast
  show ?thesis
    using assms(3-7) 1 2 3 4 5
    by (simp add: importData_def save_if_present_def lift_def snapshot_def import_ok_def)
qed

lemma importData_rejects:
  assumes "map_of kvs ''products'' = None \<or> map_of kvs ''categories'' = None"
  shows "importData E cfg (Obj kvs) st =
           (Inl (Error ''Failed to import data: Invalid import data format''), st)"
  using assms by (auto simp: importData_def lift_def split: option.splits)

lemma sends_onlyI:
  assumes "\<And>st. \<exists>new. sent (snd (f st)) = sent st @ new \<and> (\<forall>q \<in> set new. req_url q \<in> U)"
  shows "sends_only U f"
  using assms by (simp add: sends_only_def)

lemma sends_onlyD:
  assumes "sends_only U f"
  obtains new where "sent (snd (f st)) = sent st @ new" "\<forall>q \<in> set new. req_url q \<in> U"
  using assms unfolding sends_only_def by blast

lemma sends_only_return: "sends_only U (\<lambda>st. (r, st))"
  by (simp add: sends_only_def)

lemma sends_only_lift: "sends_only U (lift r)"
  by (simp add: sends_only_def lift_def)

lemma sends_only_mono: "sends_only U f \<Longrightarrow> U \<subseteq> V \<Longrightarrow> sends_only V f"
  unfolding sends_only_def by blast

lemma sends_only_if:
  "sends_only U f \<Longrightarrow> sends_only U g \<Longrightarrow> sends_only U (\<lambda>st. if b then f st else g st)"
  by (simp add: sends_only_def)

lemma sends_only_and_then:
  assumes "sends_only U f" "\<And>x. sends_only U (g x)"
  shows "sends_only U (\<lambda>st. and_then (f st) g)"
proof (rule sends_onlyI)
  fix st
  obtain a st1 where f: "f st = (a, st1)" by (cases "f st")
  from sends_onlyD [OF assms(1), of st] f
  obtain n1 where n1: "sent st1 = sent st @ n1" "\<forall>q \<in> set n1. req_url q \<in> U" by auto
  show "\<exists>new. sent (snd (and_then (f st) g)) = sent st @ new \<and> (\<forall>q \<in> set new. req_url q \<in> U)"
  proof (cases a)
    case (Inl e)
    with f n1 show ?thesis by simp
  next
    case (Inr x)
    from sends_onlyD [OF assms(2), of x st1]
    obtain n2 where n2: "sent (snd (g x st1)) = sent st1 @ n2" "\<forall>q \<in> set n2. req_url q \<in> U" by auto
    with Inr f n1 have "sent (snd (and_then (f st) g)) = sent st @ (n1 @ n2)" by simp
    moreover have "\<forall>q \<in> set (n1 @ n2). req_url q \<in> U" using n1 n2 by auto
    ultimately show ?thesis by blast
  qed
qed

lemma sends_only_catch:
  assumes "sends_only U f" "\<And>e. sends_only U (h e)"
  shows "sends_only U (\<lambda>st. case f st of (Inl e, st') \<Rightarrow> h e st' | (Inr r, st') \<Rightarrow> (Inr r, st'))"
proof (rule sends_onlyI)
  fix st
  obtain a st1 where f: "f st = (a, st1)" by (cases "f st")
  from sends_onlyD [OF assms(1), of st] f
  obtain n1 where n1: "sent st1 = sent st @ n1" "\<forall>q \<in> set n1. req_url q \<in> U" by auto
  show "\<exists>new. sent (snd (case f st of (Inl e, st') \<Rightarrow> h e st' | (Inr r, st') \<Rightarrow> (Inr r, st')))
           = sent st @ new \<and> (\<forall>q \<in> set new. req_url q \<in> U)"
  proof (cases a)
    case (Inr r)
    with f n1 show ?thesis by simp
  next
    case (Inl e)
    from sends_onlyD [OF assms(2), of e st1]
    obtain n2 where n2: "sent (snd (h e st1)) = sent st1 @ n2" "\<forall>q \<in> set n2. req_url q \<in> U" by auto
    with Inl f n1 have "sent (snd (case f st of (Inl e, st') \<Rightarrow> h e st' | (Inr r, st') \<Rightarrow> (Inr r, st')))
        = sent st @ (n1 @ n2)" by simp
    moreover have "\<forall>q \<in> set (n1 @ n2). req_url q \<in> U" using n1 n2 by auto
    ultimately show ?thesis by blast
  qed
qed

lemma sends_only_rewrap:
  assumes "sends_only U f"
  shows "sends_only U (\<lambda>st. rewrap pre (f st))"
proof (rule sends_onlyI)
  fix st
  obtain a st1 where f: "f st = (a, st1)" by (cases "f st")
  from sends_onlyD [OF assms, of st] f
  obtain n1 where n1: "sent st1 = sent st @ n1" "\<forall>q \<in> set n1. req_url q \<in> U" by auto
  with f show "\<exists>new. sent (snd (rewrap pre (f st))) = sent st @ new \<and> (\<forall>q \<in> set new. req_url q \<in> U)"
    by (cases a) auto
qed

lemma sends_only_makeRequest:
  fixes E :: "'a env"
  shows "sends_only {contents_url cfg path} (makeRequest E cfg path m data)"
proof (rule sends_onlyI)
  fix st :: "'a state"
  obtain r w' where f: "fetch E (world st) (build_request cfg path m data) = (r, w')"
    by (cases "fetch E (world st) (build_request cfg path m data)")
  show "\<exists>new. sent (snd (makeRequest E cfg path m data st)) = sent st @ new \<and>
          (\<forall>q \<in> set new. req_url q \<in> {contents_url cfg path})"
  proof (cases "token_set cfg")
    case False
    then show ?thesis by (simp add: makeRequest_def)
  next
    case True
    have "sent (snd (makeRequest E cfg path m data st)) = sent st @ [build_request cfg path m data]"
      using True f by (cases r) (simp_all add: makeRequest_def do_fetch_def)
    then show ?thesis by (simp add: build_request_def)
  qed
qed

lemma sends_only_saveFile: "sends_only {contents_url cfg path} (saveFile E cfg path data msg)"
proof -
  let ?U = "{contents_url cfg path}"
  have attempt: "sends_only ?U (saveFile_try E cfg path m c)" for m c
    unfolding saveFile_try_def
  proof (rule sends_only_and_then [OF sends_only_makeRequest])
    fix x
    show "sends_only ?U (\<lambda>st'. case get_prop x ''sha'' of Inl e \<Rightarrow> (Inl e, st')
              | Inr sha \<Rightarrow> makeRequest E cfg path PUT (put_body m c sha) st')"
      by (cases "get_prop x ''sha''") (simp_all add: sends_only_return sends_only_makeRequest)
  qed
  have handler: "sends_only ?U (\<lambda>st'. if is_404 e then makeRequest E cfg path POST (post_body m c) st'
                                       else (Inl e, st'))" for e m c
    by (intro sends_only_if sends_only_makeRequest sends_only_return)
  have body: "sends_only ?U (\<lambda>st. case saveFile_try E cfg path m c st of
                  (Inl e, st') \<Rightarrow> if is_404 e then makeRequest E cfg path POST (post_body m c) st'
                                   else (Inl e, st')
                | (Inr r, st') \<Rightarrow> (Inr r, st'))" for m c
    by (rule sends_only_catch [OF attempt handler])
  show ?thesis
  proof (cases "btoa E (content_text E data)")
    case (Inl e)
    then have "saveFile E cfg path data msg = (\<lambda>st. (Inl e, st))"
      by (auto simp: saveFile_def Let_def)
    then show ?thesis by (simp add: sends_only_return)
  next
    case (Inr c)
    then have "saveFile E cfg path data msg =
        (\<lambda>st. case saveFile_try E cfg path (case msg of None \<Rightarrow> ''Update '' @ path | Some m \<Rightarrow> m) c st of
                  (Inl e, st') \<Rightarrow> if is_404 e
                      then makeRequest E cfg path POST
                             (post_body (case msg of None \<Rightarrow> ''Update '' @ path | Some m \<Rightarrow> m) c) st'
                      else (Inl e, st')
                | (Inr r, st') \<Rightarrow> (Inr r, st'))"
      by (auto simp: saveFile_def Let_def split: prod.splits sum.splits)
    then show ?thesis using body by simp
  qed
qed

lemma sends_only_other_saveFile:
  assumes "q \<noteq> p"
  shows "sends_only (- {contents_url cfg p}) (saveFile E cfg q d m)"
  using sends_only_saveFile [of cfg q E d m] contents_url_inject [of cfg q p] assms
  by (auto intro: sends_only_mono)

lemma sends_only_other_save_if_present:
  assumes "q \<noteq> p"
  shows "sends_only (- {contents_url cfg p}) (save_if_present E cfg payload k q m)"
proof -
  have "sends_only (- {contents_url cfg p})
          (\<lambda>st. and_then (lift (get_prop payload k) st)
             (\<lambda>v st. if truthy v then saveFile E cfg q v (Some m) st else (Inr Undefined, st)))"
    by (intro sends_only_and_then sends_only_lift sends_only_if sends_only_return
        sends_only_other_saveFile [OF assms])
  then show ?thesis by (simp add: save_if_present_def [abs_def])
qed

lemma save_if_present_absent:
  assumes "map_of kvs k = None"
  shows "save_if_present E cfg (Obj kvs) k p m = (\<lambda>st. (Inr Undefined, st))"
  using assms by (auto simp: save_if_present_def lift_def)

lemma importData_skips:
  assumes "map_of kvs k = None"
    and "(k, p) \<in> {(''orders'', ''data/orders.json''), (''contacts'', ''data/contacts.json''),
                    (''website'', ''data/website.json'')}"
  shows "sends_only (- {contents_url cfg p}) (importData E cfg (Obj kvs))"
proof -
  let ?V = "- {contents_url cfg p}"
  have other: "sends_only ?V (saveFile E cfg q d m)" if "q \<noteq> p" for q d m
    using that by (rule sends_only_other_saveFile)
  have pc: "''data/products.json'' \<noteq> p" "''data/categories.json'' \<noteq> p"
    using assms(2) by auto
  have opt: "sends_only ?V (save_if_present E cfg (Obj kvs) k' q m)"
    if "(k', q) \<in> {(''orders'', ''data/orders.json''), (''contacts'', ''data/contacts.json''),
                    (''website'', ''data/website.json'')}" for k' q m
  proof (cases "q = p")
    case True
    with that assms(2) have "k' = k" by auto
    then show ?thesis
      using save_if_present_absent [OF assms(1), of E cfg q m] by (simp add: sends_only_return)
  next
    case False
    then show ?thesis by (rule sends_only_other_save_if_present)
  qed
  have "sends_only ?V (\<lambda>st. importData E cfg (Obj kvs) st)"
    unfolding importData_def
    by (intro sends_only_rewrap sends_only_and_then sends_only_if sends_only_lift
        sends_only_return other pc opt) simp_all
  then show ?thesis .
qed

lemma importData_no_request:
  assumes "map_of kvs k = None"
    and "(k, p) \<in> {(''orders'', ''data/orders.json''), (''contacts'', ''data/contacts.json''),
                    (''website'', ''data/website.json'')}"
  shows "\<forall>q \<in> set (sent_since st (snd (importData E cfg (Obj kvs) st))). req_url q \<noteq> contents_url cfg p"
proof -
  from sends_onlyD [OF importData_skips [OF assms, of cfg E], of st]
  obtain new where "sent (snd (importData E cfg (Obj kvs) st)) = sent st @ new"
    "\<forall>q \<in> set new. req_url q \<in> - {contents_url cfg p}" by blast
  then show ?thesis by (simp add: sent_since_def)
qed

lemma export_then_import:
  assumes "on_store E" "token_set cfg"
    and "fst (getProducts E cfg st) = Inr (Arr ps)" "fst (getCategories E cfg st) = Inr (Arr cs)"
    and "fst (getOrders E cfg st) = Inr (Arr os)" "fst (getContacts E cfg st) = Inr (Arr ns)"
    and "fst (getWebsiteConfig E cfg st) = Inr (Obj ws)"
    and "roundtrip E (Arr ps)" "roundtrip E (Arr cs)" "roundtrip E (Arr os)"
    and "roundtrip E (Arr ns)" "roundtrip E (Obj ws)"
  defines "snap \<equiv> snapshot (clock_iso (world st)) (Arr ps) (Arr cs) (Arr os) (Arr ns) (Obj ws)"
  defines "st2 \<equiv> snd (importData E cfg snap (snd (exportData E cfg st)))"
  shows "fst (exportData E cfg st) = Inr snap"
    and "fst (importData E cfg snap (snd (exportData E cfg st))) = Inr import_ok"
    and "holds E (world st2) cfg ''data/products.json'' (Arr ps) \<and> fst (getProducts E cfg st2) = Inr (Arr ps)"
    and "holds E (world st2) cfg ''data/categories.json'' (Arr cs) \<and> fst (getCategories E cfg st2) = Inr (Arr cs)"
    and "holds E (world st2) cfg ''data/orders.json'' (Arr os) \<and> fst (getOrders E cfg st2) = Inr (Arr os)"
    and "holds E (world st2) cfg ''data/contacts.json'' (Arr ns) \<and> fst (getContacts E cfg st2) = Inr (Arr ns)"
    and "holds E (world st2) cfg ''data/website.json'' (Obj ws) \<and> fst (getWebsiteConfig E cfg st2) = Inr (Obj ws)"
proof -
  from assms(8) obtain c1 where c1: "encode E (Arr ps) = Inr c1" "decode E c1 = Inr (Arr ps)"
    by (rule roundtripD)
  from assms(9) obtain c2 where c2: "encode E (Arr cs) = Inr c2" "decode E c2 = Inr (Arr cs)"
    by (rule roundtripD)
  from assms(10) obtain c3 where c3: "encode E (Arr os) = Inr c3" "decode E c3 = Inr (Arr os)"
    by (rule roundtripD)
  from assms(11) obtain c4 where c4: "encode E (Arr ns) = Inr c4" "decode E c4 = Inr (Arr ns)"
    by (rule roundtripD)
  from assms(12) obtain c5 where c5: "encode E (Obj ws) = Inr c5" "decode E c5 = Inr (Obj ws)"
    by (rule roundtripD)
  from store_exportData [OF assms(1-7)]
  obtain st1 where e: "exportData E cfg st = (Inr snap, st1)" "world st1 = world st"
    by (auto simp: snap_def snapshot_def)
  from store_importData [OF assms(1,2) _ _ _ _ _ c1(1) c2(1) c3(1) c4(1) c5(1),
      of "clock_iso (world st)" st1]
  obtain st' where i: "importData E cfg snap st1 = (Inr import_ok, st')"
    "world st' = saved_world (saved_world (saved_world (saved_world (saved_world (world st1)
               cfg ''data/products.json'' c1) cfg ''data/categories.json'' c2)
               cfg ''data/orders.json'' c3) cfg ''data/contacts.json'' c4)
               cfg ''data/website.json'' c5"
    by (auto simp: snap_def)
  have st2: "st2 = st'" by (simp add: st2_def e i)
  have s1: "stored (world st2) cfg ''data/products.json'' = Some c1"
    and s2: "stored (world st2) cfg ''data/categories.json'' = Some c2"
    and s3: "stored (world st2) cfg ''data/orders.json'' = Some c3"
    and s4: "stored (world st2) cfg ''data/contacts.json'' = Some c4"
    and s5: "stored (world st2) cfg ''data/website.json'' = Some c5"
    by (simp_all add: st2 i(2) stored_saved stored_saved_other)
  show "fst (exportData E cfg st) = Inr snap" by (simp add: e)
  show "fst (importData E cfg snap (snd (exportData E cfg st))) = Inr import_ok" by (simp add: e i)
  show "holds E (world st2) cfg ''data/products.json'' (Arr ps) \<and> fst (getProducts E cfg st2) = Inr (Arr ps)"
    using store_getFile_value [OF assms(1,2) s1 c1(2)] by (simp add: holds_def c1 s1 getProducts_def)
  show "holds E (world st2) cfg ''data/categories.json'' (Arr cs) \<and> fst (getCategories E cfg st2) = Inr (Arr cs)"
    using store_getFile_value [OF assms(1,2) s2 c2(2)] by (simp add: holds_def c2 s2 getCategories_def)
  show "holds E (world st2) cfg ''data/orders.json'' (Arr os) \<and> fst (getOrders E cfg st2) = Inr (Arr os)"
    using store_getFile_value [OF assms(1,2) s3 c3(2)] by (simp add: holds_def c3 s3 getOrders_def)
  show "holds E (world st2) cfg ''data/contacts.json'' (Arr ns) \<and> fst (getContacts E cfg st2) = Inr (Arr ns)"
    using store_getFile_value [OF assms(1,2) s4 c4(2)] by (simp add: holds_def c4 s4 getContacts_def)
  show "holds E (world st2) cfg ''data/website.json'' (Obj ws) \<and> fst (getWebsiteConfig E cfg st2) = Inr (Obj ws)"
    using store_getFile_value [OF assms(1,2) s5 c5(2)] by (simp add: holds_def c5 s5 getWebsiteConfig_def)
qed

text \<open>
  C4. On the contents store, when the four sequence documents read as arrays and the
  settings document as an object, \<open>exportData\<close> returns the snapshot of the five values
  read, and \<open>importData\<close> of that snapshot succeeds and leaves the store holding, at
  each of the five paths, the encoding of exactly the value exported, which a read
  returns again. In any environment on the store's world, \<open>importData\<close> fails with the
  invalid-format error, sending nothing, for every payload object without \<open>products\<close>
  or without \<open>categories\<close>; and for a payload object without \<open>orders\<close>, \<open>contacts\<close>
  or \<open>website\<close> it sends no request to the path of that document.
\<close>

theorem export_import:
  "(on_store E \<longrightarrow> token_set cfg \<longrightarrow>
    fst (getProducts E cfg st) = Inr (Arr ps) \<longrightarrow> fst (getCategories E cfg st) = Inr (Arr cs) \<longrightarrow>
    fst (getOrders E cfg st) = Inr (Arr os) \<longrightarrow> fst (getContacts E cfg st) = Inr (Arr ns) \<longrightarrow>
    fst (getWebsiteConfig E cfg st) = Inr (Obj ws) \<longrightarrow>
    roundtrip E (Arr ps) \<longrightarrow> roundtrip E (Arr cs) \<longrightarrow> roundtrip E (Arr os) \<longrightarrow>
    roundtrip E (Arr ns) \<longrightarrow> roundtrip E (Obj ws) \<longrightarrow>
    (let snap = snapshot (clock_iso (world st)) (Arr ps) (Arr cs) (Arr os) (Arr ns) (Obj ws);
         st2 = snd (importData E cfg snap (snd (exportData E cfg st)))
     in fst (exportData E cfg st) = Inr snap \<and>
        fst (importData E cfg snap (snd (exportData E cfg st))) = Inr import_ok \<and>
        holds E (world st2) cfg ''data/products.json'' (Arr ps) \<and>
        fst (getProducts E cfg st2) = Inr (Arr ps) \<and>
        holds E (world st2) cfg ''data/categories.json'' (Arr cs) \<and>
        fst (getCategories E cfg st2) = Inr (Arr cs) \<and>
        holds E (world st2) cfg ''data/orders.json'' (Arr os) \<and>
        fst (getOrders E cfg st2) = Inr (Arr os) \<and>
        holds E (world st2) cfg ''data/contacts.json'' (Arr ns) \<and>
        fst (getContacts E cfg st2) = Inr (Arr ns) \<and>
        holds E (world st2) cfg ''data/website.json'' (Obj ws) \<and>
        fst (getWebsiteConfig E cfg st2) = Inr (Obj ws))) \<and>
   (\<forall>kvs. map_of kvs ''products'' = None \<or> map_of kvs ''categories'' = None \<longrightarrow>
      importData E cfg (Obj kvs) st =
        (Inl (Error ''Failed to import data: Invalid import data format''), st)) \<and>
   (\<forall>(k, p) \<in> {(''orders'', ''data/orders.json''), (''contacts'', ''data/contacts.json''),
                  (''website'', ''data/website.json'')}.
      \<forall>kvs. map_of kvs k = None \<longrightarrow>
        (\<forall>q \<in> set (sent_since st (snd (importData E cfg (Obj kvs) st))).
           req_url q \<noteq> contents_url cfg p))"
proof (intro conjI)
  show "on_store E \<longrightarrow> token_set cfg \<longrightarrow>
    fst (getProducts E cfg st) = Inr (Arr ps) \<longrightarrow> fst (getCategories E cfg st) = Inr (Arr cs) \<longrightarrow>
    fst (getOrders E cfg st) = Inr (Arr os) \<longrightarrow> fst (getContacts E cfg st) = Inr (Arr ns) \<longrightarrow>
    fst (getWebsiteConfig E cfg st) = Inr (Obj ws) \<longrightarrow>
    roundtrip E (Arr ps) \<longrightarrow> roundtrip E (Arr cs) \<longrightarrow> roundtrip E (Arr os) \<longrightarrow>
    roundtrip E (Arr ns) \<longrightarrow> roundtrip E (Obj ws) \<longrightarrow>
    (let snap = snapshot (clock_iso (world st)) (Arr ps) (Arr cs) (Arr os) (Arr ns) (Obj ws);
         st2 = snd (importData E cfg snap (snd (exportData E cfg st)))
     in fst (exportData E cfg st) = Inr snap \<and>
        fst (importData E cfg snap (snd (exportData E cfg st))) = Inr import_ok \<and>
        holds E (world st2) cfg ''data/products.json'' (Arr ps) \<and>
        fst (getProducts E cfg st2) = Inr (Arr ps) \<and>
        holds E (world st2) cfg ''data/categories.json'' (Arr cs) \<and>
        fst (getCategories E cfg st2) = Inr (Arr cs) \<and>
        holds E (world st2) cfg ''data/orders.json'' (Arr os) \<and>
        fst (getOrders E cfg st2) = Inr (Arr os) \<and>
        holds E (world st2) cfg ''data/contacts.json'' (Arr ns) \<and>
        fst (getContacts E cfg st2) = Inr (Arr ns) \<and>
        holds E (world st2) cfg ''data/website.json'' (Obj ws) \<and>
        fst (getWebsiteConfig E cfg st2) = Inr (Obj ws))"
    using export_then_import [of E cfg st ps cs os ns ws] by (simp add: Let_def)
  show "\<forall>kvs. map_of kvs ''products'' = None \<or> map_of kvs ''categories'' = None \<longrightarrow>
      importData E cfg (Obj kvs) st =
        (Inl (Error ''Failed to import data: Invalid import data format''), st)"
    using importData_rejects by blast
  show "\<forall>(k, p) \<in> {(''orders'', ''data/orders.json''), (''contacts'', ''data/contacts.json''),
                  (''website'', ''data/website.json'')}.
      \<forall>kvs. map_of kvs k = None \<longrightarrow>
        (\<forall>q \<in> set (sent_since st (snd (importData E cfg (Obj kvs) st))).
           req_url q \<noteq> contents_url cfg p)"
    using importData_no_request [of _ _ _ st E cfg] by blast
qed

lemma default_website_fields: "default_website = Obj website_fields"
  by (simp add: default_website_def website_fields_def)

lemma reads_default_categories:
  "fst (getCategories store_env demo_config empty_store) = Inr (Arr default_categories)"
  using empty_store_reads [of "''data/categories.json''"]
  by (simp add: getCategories_def getDefaultData_def)

lemma reads_empty_contacts: "fst (getContacts store_env demo_config empty_store) = Inr (Arr [])"
  using empty_store_reads [of "''data/contacts.json''"] by (simp add: getContacts_def getDefaultData_def)

lemma reads_default_website:
  "fst (getWebsiteConfig store_env demo_config empty_store) = Inr (Obj website_fields)"
  using empty_store_reads [of "''data/website.json''"]
  by (simp add: getWebsiteConfig_def getDefaultData_def default_website_fields)

lemma roundtrip_defaults:
  "roundtrip store_env (Arr default_products)" "roundtrip store_env (Arr default_categories)"
  "roundtrip store_env (Arr [])" "roundtrip store_env (Obj website_fields)"
  using clean_default_products clean_default_categories
  by (auto intro!: store_env_roundtrip simp: website_fields_def)

lemma clock_iso_empty_store: "clock_iso (world empty_store) = ''2023-11-14T22:13:20.000Z''"
  by (simp add: empty_store_def start_def empty_remote_def)

theorem export_import_witness:
  "on_store store_env \<and> token_set demo_config \<and>
   fst (getProducts store_env demo_config empty_store) = Inr (Arr default_products) \<and>
   fst (getCategories store_env demo_config empty_store) = Inr (Arr default_categories) \<and>
   fst (getOrders store_env demo_config empty_store) = Inr (Arr []) \<and>
   fst (getContacts store_env demo_config empty_store) = Inr (Arr []) \<and>
   fst (getWebsiteConfig store_env demo_config empty_store) = Inr (Obj website_fields) \<and>
   roundtrip store_env (Arr default_products) \<and> roundtrip store_env (Arr default_categories) \<and>
   roundtrip store_env (Arr []) \<and> roundtrip store_env (Obj website_fields) \<and>
   fst (exportData store_env demo_config empty_store) = Inr default_snapshot \<and>
   fst (importData store_env demo_config default_snapshot (snd (exportData store_env demo_config empty_store)))
     = Inr import_ok \<and>
   holds store_env (world after_default_import) demo_config ''data/products.json'' (Arr default_products) \<and>
   fst (getProducts store_env demo_config after_default_import) = Inr (Arr default_products) \<and>
   holds store_env (world after_default_import) demo_config ''data/orders.json'' (Arr []) \<and>
   fst (getOrders store_env demo_config after_default_import) = Inr (Arr []) \<and>
   holds store_env (world after_default_import) demo_config ''data/website.json'' (Obj website_fields) \<and>
   fst (getWebsiteConfig store_env demo_config after_default_import) = Inr (Obj website_fields) \<and>
   map_of [(''products'', Arr [])] ''categories'' = None \<and>
   importData store_env demo_config (Obj [(''products'', Arr [])]) empty_store
     = (Inl (Error ''Failed to import data: Invalid import data format''), empty_store) \<and>
   map_of [(''products'', Arr []), (''categories'', Arr [])] ''orders'' = None \<and>
   \<not> (\<exists>q \<in> set (sent_since empty_store
                  (snd (importData store_env demo_config
                          (Obj [(''products'', Arr []), (''categories'', Arr [])]) empty_store))).
         req_url q = contents_url demo_config ''data/orders.json'')"
proof -
  note t = export_import [of store_env demo_config empty_store default_products default_categories
      "[]" "[]" website_fields]
  have rt: "fst (exportData store_env demo_config empty_store) = Inr default_snapshot \<and>
   fst (importData store_env demo_config default_snapshot (snd (exportData store_env demo_config empty_store)))
     = Inr import_ok \<and>
   holds store_env (world after_default_import) demo_config ''data/products.json'' (Arr default_products) \<and>
   fst (getProducts store_env demo_config after_default_import) = Inr (Arr default_products) \<and>
   holds store_env (world after_default_import) demo_config ''data/orders.json'' (Arr []) \<and>
   fst (getOrders store_env demo_config after_default_import) = Inr (Arr []) \<and>
   holds store_env (world after_default_import) demo_config ''data/website.json'' (Obj website_fields) \<and>
   fst (getWebsiteConfig store_env demo_config after_default_import) = Inr (Obj website_fields)"
    using t [THEN conjunct1] on_store_store_env token_set_demo reads_default_products
      reads_default_categories reads_empty_orders reads_empty_contacts reads_default_website
      roundtrip_defaults
    by (simp add: Let_def clock_iso_empty_store default_snapshot_def [symmetric]
        after_default_import_def [symmetric])
  have rej: "importData store_env demo_config (Obj [(''products'', Arr [])]) empty_store
     = (Inl (Error ''Failed to import data: Invalid import data format''), empty_store)"
    using t [THEN conjunct2, THEN conjunct1] by simp
  have skip: "\<not> (\<exists>q \<in> set (sent_since empty_store
                  (snd (importData store_env demo_config
                          (Obj [(''products'', Arr []), (''categories'', Arr [])]) empty_store))).
         req_url q = contents_url demo_config ''data/orders.json'')"
  proof -
    have m: "map_of [(''products'', Arr []), (''categories'', Arr [])] ''orders'' = None" by simp
    have "\<forall>kvs. map_of kvs ''orders'' = None \<longrightarrow>
        (\<forall>q \<in> set (sent_since empty_store (snd (importData store_env demo_config (Obj kvs) empty_store))).
           req_url q \<noteq> contents_url demo_config ''data/orders.json'')"
      using t [THEN conjunct2, THEN conjunct2] by simp
    from this [rule_format, OF m] show ?thesis by blast
  qed
  show ?thesis
    using rt rej skip on_store_store_env token_set_demo reads_default_products
      reads_default_categories reads_empty_orders reads_empty_contacts reads_default_website
      roundtrip_defaults
    by simp
qed

end
